(* ===== verification/Prelude.thy ===== *)
theory Prelude
  imports Main
begin

text \<open>
  Shared vocabulary of the PcfDoom development: the identifiers of DOM nodes and
  milliseconds, the JavaScript exceptions the widget's handlers can raise, the
  bind of the exception monad \<open>js_error + 'a\<close> that sequences DOM calls the way a
  JavaScript method body does (the first exception aborts the rest), and the list
  lemmas on \<open>find\<close> and \<open>remove1\<close> that the DOM and widget theories share.
\<close>

type_synonym eid = nat   \<comment> \<open>a DOM node reference: the address of the node in the store\<close>
type_synonym ms = nat    \<comment> \<open>a time in milliseconds, as passed to setTimeout\<close>

text \<open>
  The exceptions that can escape a handler of the widget: the two DOMExceptions of
  \<open>appendChild\<close> and \<open>removeChild\<close>, and the TypeError of reading a property of
  \<open>undefined\<close>.
\<close>

datatype js_error = HierarchyRequestError | NotFoundError | TypeError

definition bindE :: "'e + 'a \<Rightarrow> ('a \<Rightarrow> 'e + 'b) \<Rightarrow> 'e + 'b" where
  "bindE r f = (case r of Inl e \<Rightarrow> Inl e | Inr a \<Rightarrow> f a)"

named_theorems dom_defs "unfolding equations of the primitive DOM operations"
named_theorems widget_defs "unfolding equations of the widget's handlers"

lemma bindE_Inl [simp]: "bindE (Inl e) f = Inl e"
  by (simp add: bindE_def)

lemma bindE_Inr [simp]: "bindE (Inr a) f = f a"
  by (simp add: bindE_def)

lemma bindE_Inr_right: "bindE r Inr = r"
  by (cases r) simp_all

lemma bindE_eq_Inr:
  "bindE r f = Inr b \<longleftrightarrow> (\<exists>a. r = Inr a \<and> f a = Inr b)"
  by (cases r) (auto simp: bindE_def)

lemma bindE_eq_Inl:
  "bindE r f = Inl e \<longleftrightarrow> r = Inl e \<or> (\<exists>a. r = Inr a \<and> f a = Inl e)"
  by (cases r) (auto simp: bindE_def)

text \<open>
  Congruence rules that stop the simplifier from rewriting inside a continuation before
  the value it is applied to is known; with them a handler run on a concrete document
  evaluates step by step instead of symbolically under binders.
\<close>

lemma bindE_weak_cong: "r = r' \<Longrightarrow> bindE r f = bindE r' f"
  by simp

lemma case_prod_weak_cong: "p = q \<Longrightarrow> case_prod f p = case_prod f q"
  by simp

lemma map_sum_eq_Inr: "map_sum f g r = Inr b \<longleftrightarrow> (\<exists>a. r = Inr a \<and> b = g a)"
  by (cases r) auto

text \<open>The congruence under which a recursive call after a bind only sees a value the bind produced.\<close>

lemma bindE_cong [fundef_cong]:
  "r = r' \<Longrightarrow> (\<And>a. r' = Inr a \<Longrightarrow> f a = g a) \<Longrightarrow> bindE r f = bindE r' g"
  by (auto simp: bindE_def split: sum.split)

lemmas eval_congs = bindE_weak_cong case_prod_weak_cong let_weak_cong

subsection \<open>Lists\<close>

lemma find_unique:
  assumes "x \<in> set xs" and "P x" and "\<And>y. y \<in> set xs \<Longrightarrow> P y \<Longrightarrow> y = x"
  shows "find P xs = Some x"
  using assms
proof (induction xs)
  case Nil
  then show ?case by simp
next
  case (Cons a xs)
  show ?case
  proof (cases "P a")
    case True
    with Cons.prems(3) have "a = x" by simp
    with True show ?thesis by simp
  next
    case False
    with Cons.prems(1,2) have "x \<in> set xs" by auto
    with Cons.prems(2,3) have "find P xs = Some x" by (intro Cons.IH) auto
    with False show ?thesis by simp
  qed
qed

lemma find_SomeD: "find P xs = Some x \<Longrightarrow> x \<in> set xs \<and> P x"
  by (induction xs) (auto split: if_splits)

lemma find_NoneD: "find P xs = None \<Longrightarrow> y \<in> set xs \<Longrightarrow> \<not> P y"
  by (induction xs) (auto split: if_splits)

lemma find_first_of:
  "P x \<Longrightarrow> find P (x # xs) = Some x"
  by simp

lemma remove1_notin_distinct [simp]:
  "distinct xs \<Longrightarrow> x \<notin> set (remove1 x xs)"
  by simp

lemma set_remove1_distinct:
  "distinct xs \<Longrightarrow> set (remove1 x xs) = set xs - {x}"
  by (simp add: set_remove1_eq)

end
