(* ===== verification/Dom.thy ===== *)
theory Dom
  imports Prelude
begin

text \<open>
  The part of the browser's DOM that PcfDoomComponent (src/PcfDoomComponent/index.ts)
  uses, as an explicit store: a node is a record of the element's tag, id, class list,
  attributes, inline style, text, form value, listeners and its place in the tree
  (\<open>children\<close> and \<open>parent\<close>), and the document is a map from node references to
  nodes with a counter for fresh references (as \<open>document.createElement\<close> hands out new
  objects) and the document element at which \<open>getElementById\<close> starts. The tree walks
  (\<open>desc\<close> in tree order, \<open>anc\<close> along \<open>parentNode\<close>) carry fuel, bounded by the
  number of allocated nodes. \<open>appendChild\<close> and \<open>removeChild\<close> raise the DOM's
  HierarchyRequestError and NotFoundError as \<open>Inl\<close> values. The well-formedness
  predicate \<open>wf_dom\<close> says that parent pointers and child lists agree; the lemmas show
  that every operation keeps it and give the lookups their meaning.
\<close>

record 'h node =
  tag :: string
  html_id :: "string option"
  class_list :: "string list"
  attrs :: "string \<rightharpoonup> string"
  style :: "string \<rightharpoonup> string"
  text_content :: string
  form_value :: string
  read_only :: bool
  listeners :: "(string \<times> 'h) list"
  children :: "eid list"
  parent :: "eid option"

record 'h dom =
  nodes :: "eid \<Rightarrow> 'h node"
  next_eid :: eid
  doc_root :: eid

definition empty_node :: "'h node" where
  "empty_node = \<lparr>tag = [], html_id = None, class_list = [], attrs = Map.empty,
     style = Map.empty, text_content = [], form_value = [], read_only = False,
     listeners = [], children = [], parent = None\<rparr>"

definition upd_node :: "eid \<Rightarrow> ('h node \<Rightarrow> 'h node) \<Rightarrow> 'h dom \<Rightarrow> 'h dom" where
  "upd_node x f d = d\<lparr>nodes := (nodes d)(x := f (nodes d x))\<rparr>"

subsection \<open>Creating elements and setting their properties\<close>

definition create_element :: "string \<Rightarrow> 'h dom \<Rightarrow> eid \<times> 'h dom" where
  "create_element t d =
     (next_eid d,
      d\<lparr>nodes := (nodes d)(next_eid d := empty_node\<lparr>tag := t\<rparr>), next_eid := Suc (next_eid d)\<rparr>)"

definition set_style :: "eid \<Rightarrow> string \<Rightarrow> string \<Rightarrow> 'h dom \<Rightarrow> 'h dom" where
  "set_style x k v = upd_node x (\<lambda>n. n\<lparr>style := (style n)(k \<mapsto> v)\<rparr>)"

definition get_style :: "'h dom \<Rightarrow> eid \<Rightarrow> string \<Rightarrow> string option" where
  "get_style d x k = style (nodes d x) k"

text \<open>\<open>classList.add\<close>: a token already present is not added twice.\<close>

definition add_class :: "eid \<Rightarrow> string \<Rightarrow> 'h dom \<Rightarrow> 'h dom" where
  "add_class x c = upd_node x (\<lambda>n.
     if c \<in> set (class_list n) then n else n\<lparr>class_list := class_list n @ [c]\<rparr>)"

definition set_id :: "eid \<Rightarrow> string \<Rightarrow> 'h dom \<Rightarrow> 'h dom" where
  "set_id x i = upd_node x (\<lambda>n. n\<lparr>html_id := Some i\<rparr>)"

definition set_text :: "eid \<Rightarrow> string \<Rightarrow> 'h dom \<Rightarrow> 'h dom" where
  "set_text x s = upd_node x (\<lambda>n. n\<lparr>text_content := s\<rparr>)"

definition set_value :: "eid \<Rightarrow> string \<Rightarrow> 'h dom \<Rightarrow> 'h dom" where
  "set_value x s = upd_node x (\<lambda>n. n\<lparr>form_value := s\<rparr>)"

definition set_read_only :: "eid \<Rightarrow> bool \<Rightarrow> 'h dom \<Rightarrow> 'h dom" where
  "set_read_only x b = upd_node x (\<lambda>n. n\<lparr>read_only := b\<rparr>)"

definition add_event_listener :: "eid \<Rightarrow> string \<Rightarrow> 'h \<Rightarrow> 'h dom \<Rightarrow> 'h dom" where
  "add_event_listener x ev h = upd_node x (\<lambda>n. n\<lparr>listeners := listeners n @ [(ev, h)]\<rparr>)"

text \<open>
  The class attribute is split at ASCII whitespace into an ordered set of tokens, as
  \<open>setAttribute(''class'', v)\<close> does to the element's class list.
\<close>

definition is_ascii_ws :: "char \<Rightarrow> bool" where
  "is_ascii_ws c \<longleftrightarrow> c = CHR '' '' \<or> c = CHR 0x09 \<or> c = CHR 0x0A \<or> c = CHR 0x0C \<or> c = CHR 0x0D"

fun split_ws :: "string \<Rightarrow> string \<Rightarrow> string list" where
  "split_ws acc [] = (if acc = [] then [] else [rev acc])"
| "split_ws acc (c # cs) =
     (if is_ascii_ws c then (if acc = [] then split_ws [] cs else rev acc # split_ws [] cs)
      else split_ws (c # acc) cs)"

definition set_attribute :: "eid \<Rightarrow> string \<Rightarrow> string \<Rightarrow> 'h dom \<Rightarrow> 'h dom" where
  "set_attribute x k v = upd_node x (\<lambda>n.
     let n' = n\<lparr>attrs := (attrs n)(k \<mapsto> v)\<rparr> in
     if k = ''class'' then n'\<lparr>class_list := remdups (split_ws [] v)\<rparr>
     else if k = ''id'' then n'\<lparr>html_id := Some v\<rparr>
     else n')"

definition get_attribute :: "'h dom \<Rightarrow> eid \<Rightarrow> string \<Rightarrow> string option" where
  "get_attribute d x k = attrs (nodes d x) k"

subsection \<open>Tree walks\<close>

text \<open>The subtree of \<open>x\<close> in tree order (pre-order), \<open>x\<close> first.\<close>

fun desc :: "nat \<Rightarrow> 'h dom \<Rightarrow> eid \<Rightarrow> eid list" where
  "desc 0 d x = []"
| "desc (Suc n) d x = x # concat (map (desc n d) (children (nodes d x)))"

text \<open>The chain of \<open>parentNode\<close> links above \<open>x\<close>, nearest first.\<close>

fun anc :: "nat \<Rightarrow> 'h dom \<Rightarrow> eid \<Rightarrow> eid list" where
  "anc 0 d x = []"
| "anc (Suc n) d x = (case parent (nodes d x) of None \<Rightarrow> [] | Some p \<Rightarrow> p # anc n d p)"

definition tree_fuel :: "'h dom \<Rightarrow> nat" where
  "tree_fuel d = Suc (next_eid d)"

definition attached :: "'h dom \<Rightarrow> eid \<Rightarrow> bool" where
  "attached d x \<longleftrightarrow> x = doc_root d \<or> doc_root d \<in> set (anc (next_eid d) d x)"

text \<open>\<open>document.getElementById\<close>: the first element in tree order with that id.\<close>

definition get_element_by_id :: "'h dom \<Rightarrow> string \<Rightarrow> eid option" where
  "get_element_by_id d i =
     find (\<lambda>x. html_id (nodes d x) = Some i) (desc (tree_fuel d) d (doc_root d))"

text \<open>\<open>x.querySelector(''.c'')\<close>: the first proper descendant of \<open>x\<close> with class \<open>c\<close>.\<close>

definition query_selector_class :: "'h dom \<Rightarrow> eid \<Rightarrow> string \<Rightarrow> eid option" where
  "query_selector_class d x c =
     find (\<lambda>y. c \<in> set (class_list (nodes d y))) (tl (desc (tree_fuel d) d x))"

subsection \<open>Moving nodes\<close>

definition detach :: "eid \<Rightarrow> 'h dom \<Rightarrow> 'h dom" where
  "detach c d = (case parent (nodes d c) of
       None \<Rightarrow> d
     | Some q \<Rightarrow> upd_node c (\<lambda>n. n\<lparr>parent := None\<rparr>)
                  (upd_node q (\<lambda>n. n\<lparr>children := remove1 c (children n)\<rparr>) d))"

text \<open>
  \<open>p.appendChild(c)\<close>: HierarchyRequestError when \<open>c\<close> is an inclusive ancestor of
  \<open>p\<close>; otherwise \<open>c\<close> leaves its old parent and becomes the last child of \<open>p\<close>.
\<close>

definition append_child :: "eid \<Rightarrow> eid \<Rightarrow> 'h dom \<Rightarrow> js_error + 'h dom" where
  "append_child p c d =
     (if p \<in> set (desc (tree_fuel d) d c) then Inl HierarchyRequestError
      else Inr (upd_node c (\<lambda>n. n\<lparr>parent := Some p\<rparr>)
                 (upd_node p (\<lambda>n. n\<lparr>children := children n @ [c]\<rparr>) (detach c d))))"

text \<open>\<open>p.removeChild(c)\<close>: NotFoundError when \<open>c\<close> is not a child of \<open>p\<close>.\<close>

definition remove_child :: "eid \<Rightarrow> eid \<Rightarrow> 'h dom \<Rightarrow> js_error + 'h dom" where
  "remove_child p c d =
     (if parent (nodes d c) = Some p then Inr (detach c d) else Inl NotFoundError)"

subsection \<open>Well-formedness\<close>

definition wf_dom :: "'h dom \<Rightarrow> bool" where
  "wf_dom d \<longleftrightarrow>
     (\<forall>x\<in>{..<next_eid d}. \<forall>p\<in>{..<next_eid d}.
        parent (nodes d x) = Some p \<longleftrightarrow> x \<in> set (children (nodes d p))) \<and>
     (\<forall>x\<in>{..<next_eid d}. set (children (nodes d x)) \<subseteq> {..<next_eid d}) \<and>
     (\<forall>x\<in>{..<next_eid d}. case parent (nodes d x) of None \<Rightarrow> True | Some p \<Rightarrow> p < next_eid d) \<and>
     (\<forall>x\<in>{..<next_eid d}. distinct (children (nodes d x))) \<and>
     doc_root d < next_eid d \<and> parent (nodes d (doc_root d)) = None"

text \<open>Two documents with the same tree shape: only element contents differ.\<close>

definition same_tree :: "'h dom \<Rightarrow> 'h dom \<Rightarrow> bool" where
  "same_tree d' d \<longleftrightarrow> next_eid d' = next_eid d \<and> doc_root d' = doc_root d \<and>
     (\<forall>y. children (nodes d' y) = children (nodes d y) \<and> parent (nodes d' y) = parent (nodes d y))"

declare upd_node_def [dom_defs] set_style_def [dom_defs] add_class_def [dom_defs]
  set_id_def [dom_defs] set_text_def [dom_defs] set_value_def [dom_defs]
  set_read_only_def [dom_defs] add_event_listener_def [dom_defs] set_attribute_def [dom_defs]
  create_element_def [dom_defs] get_style_def [dom_defs] get_attribute_def [dom_defs]

subsection \<open>Tree walks and lookups\<close>

lemma desc_Suc_self: "x \<in> set (desc (Suc n) d x)"
  by simp

lemma desc_mono_Suc: "set (desc n d r) \<subseteq> set (desc (Suc n) d r)"
proof (induction n arbitrary: r)
  case 0
  then show ?case by simp
next
  case (Suc n)
  then show ?case by fastforce
qed

lemma desc_mono: "n \<le> m \<Longrightarrow> set (desc n d r) \<subseteq> set (desc m d r)"
proof (induction m)
  case 0
  then show ?case by simp
next
  case (Suc m)
  show ?case
  proof (cases "n = Suc m")
    case True
    then show ?thesis by simp
  next
    case False
    with Suc.prems have "n \<le> m" by simp
    then show ?thesis by (rule order_trans [OF Suc.IH desc_mono_Suc])
  qed
qed

lemma desc_child:
  "p \<in> set (desc n d r) \<Longrightarrow> x \<in> set (children (nodes d p)) \<Longrightarrow> x \<in> set (desc (Suc n) d r)"
proof (induction n arbitrary: r)
  case 0
  then show ?case by simp
next
  case (Suc n)
  show ?case
  proof (cases "p = r")
    case True
    with Suc.prems(2) show ?thesis
      by (auto intro!: bexI [of _ x])
  next
    case False
    with Suc.prems(1) obtain c where c: "c \<in> set (children (nodes d r))" and "p \<in> set (desc n d c)"
      by auto
    with Suc.IH Suc.prems(2) have "x \<in> set (desc (Suc n) d c)" by blast
    with c show ?thesis by auto
  qed
qed

lemma desc_leaf: "children (nodes d c) = [] \<Longrightarrow> desc (Suc n) d c = [c]"
  by simp

lemma wf_dom_parent_child:
  "wf_dom d \<Longrightarrow> x < next_eid d \<Longrightarrow> parent (nodes d x) = Some p \<Longrightarrow>
   x \<in> set (children (nodes d p)) \<and> p < next_eid d"
  unfolding wf_dom_def by (metis lessThan_iff option.simps(5))

lemma wf_dom_child_parent:
  "wf_dom d \<Longrightarrow> p < next_eid d \<Longrightarrow> x \<in> set (children (nodes d p)) \<Longrightarrow>
   parent (nodes d x) = Some p \<and> x < next_eid d"
  unfolding wf_dom_def by (meson lessThan_iff subsetD)

lemma wf_dom_distinct: "wf_dom d \<Longrightarrow> x < next_eid d \<Longrightarrow> distinct (children (nodes d x))"
  unfolding wf_dom_def by simp

lemma wf_dom_link:
  "wf_dom d \<Longrightarrow> x < next_eid d \<Longrightarrow> p < next_eid d \<Longrightarrow>
   parent (nodes d x) = Some p \<longleftrightarrow> x \<in> set (children (nodes d p))"
  unfolding wf_dom_def by blast

lemma anc_Suc_Some: "parent (nodes d x) = Some p \<Longrightarrow> anc (Suc n) d x = p # anc n d p"
  by simp

lemma anc_Suc_None: "parent (nodes d x) = None \<Longrightarrow> anc n d x = []"
  by (cases n) simp_all

lemma anc_mono_Suc: "set (anc n d x) \<subseteq> set (anc (Suc n) d x)"
proof (induction n arbitrary: x)
  case 0
  then show ?case by simp
next
  case (Suc n)
  show ?case
  proof (cases "parent (nodes d x)")
    case None
    then show ?thesis by (simp add: anc_Suc_None)
  next
    case (Some p)
    with Suc.IH [of p] show ?thesis by (auto simp del: anc.simps simp: anc_Suc_Some)
  qed
qed

lemma anc_mono: "n \<le> m \<Longrightarrow> set (anc n d x) \<subseteq> set (anc m d x)"
proof (induction m)
  case 0
  then show ?case by simp
next
  case (Suc m)
  show ?case
  proof (cases "n = Suc m")
    case True
    then show ?thesis by (simp del: anc.simps)
  next
    case False
    with Suc.prems have "n \<le> m" by simp
    from Suc.IH [OF this] anc_mono_Suc [of m d x] show ?thesis by (rule order_trans)
  qed
qed

lemma anc_frame:
  "(\<And>y. y \<in> insert x (set (anc n d x)) \<Longrightarrow> parent (nodes d' y) = parent (nodes d y)) \<Longrightarrow>
   anc n d' x = anc n d x"
proof (induction n arbitrary: x)
  case 0
  then show ?case by simp
next
  case (Suc n)
  have px: "parent (nodes d' x) = parent (nodes d x)" using Suc.prems by simp
  show ?case
  proof (cases "parent (nodes d x)")
    case None
    with px show ?thesis by simp
  next
    case (Some p)
    with Suc.prems have "anc n d' p = anc n d p" by (intro Suc.IH) auto
    with px Some show ?thesis by simp
  qed
qed

lemma anc_alloc: "wf_dom d \<Longrightarrow> x < next_eid d \<Longrightarrow> set (anc n d x) \<subseteq> {..<next_eid d}"
proof (induction n arbitrary: x)
  case 0
  then show ?case by simp
next
  case (Suc n)
  show ?case
  proof (cases "parent (nodes d x)")
    case None
    then show ?thesis by simp
  next
    case (Some p)
    with wf_dom_parent_child [OF Suc.prems] have "p < next_eid d" by blast
    with Suc.IH [OF Suc.prems(1)] Some show ?thesis by simp
  qed
qed

lemma desc_alloc: "wf_dom d \<Longrightarrow> r < next_eid d \<Longrightarrow> set (desc n d r) \<subseteq> {..<next_eid d}"
proof (induction n arbitrary: r)
  case 0
  then show ?case by simp
next
  case (Suc n)
  then show ?case
    by (auto dest: wf_dom_child_parent)
qed

lemma anc_desc:
  "wf_dom d \<Longrightarrow> x < next_eid d \<Longrightarrow> doc_root d \<in> set (anc n d x) \<Longrightarrow>
   x \<in> set (desc (Suc n) d (doc_root d))"
proof (induction n arbitrary: x)
  case 0
  then show ?case by simp
next
  case (Suc n)
  show ?case
  proof (cases "parent (nodes d x)")
    case None
    with Suc.prems(3) show ?thesis by simp
  next
    case (Some p)
    from wf_dom_parent_child [OF Suc.prems(1,2) Some]
    have xp: "x \<in> set (children (nodes d p))" and pn: "p < next_eid d" by auto
    from Suc.prems(3) Some have "doc_root d = p \<or> doc_root d \<in> set (anc n d p)" by simp
    then have "p \<in> set (desc (Suc n) d (doc_root d))"
    proof
      assume "doc_root d = p"
      then show ?thesis by (simp del: desc.simps add: desc_Suc_self)
    next
      assume "doc_root d \<in> set (anc n d p)"
      from Suc.IH [OF Suc.prems(1) pn this] show ?thesis .
    qed
    then show ?thesis using xp by (rule desc_child)
  qed
qed

lemma attached_desc:
  "wf_dom d \<Longrightarrow> x < next_eid d \<Longrightarrow> attached d x \<Longrightarrow>
   x \<in> set (desc (tree_fuel d) d (doc_root d))"
  unfolding attached_def tree_fuel_def
  by (auto simp del: desc.simps simp: desc_Suc_self anc_desc)

lemma attached_child:
  assumes "parent (nodes d x) = Some p" and "p = doc_root d \<or> doc_root d \<in> set (anc n d p)"
    and "Suc n \<le> next_eid d"
  shows "attached d x"
proof -
  from assms(1,2) have "doc_root d \<in> set (anc (Suc n) d x)" by auto
  then have "doc_root d \<in> set (anc (next_eid d) d x)" using anc_mono [OF assms(3), of d x] by blast
  then show ?thesis by (simp add: attached_def)
qed

lemma detached_child:
  assumes "parent (nodes d x) = Some c" and "parent (nodes d c) = None"
    and "x \<noteq> doc_root d" and "c \<noteq> doc_root d"
  shows "\<not> attached d x"
proof (cases "next_eid d")
  case 0
  with assms(3) show ?thesis by (simp add: attached_def)
next
  case (Suc k)
  with assms have "anc (next_eid d) d x = [c]" by (simp add: anc_Suc_None)
  with assms(3,4) show ?thesis by (simp add: attached_def)
qed

lemma detached_root:
  "parent (nodes d c) = None \<Longrightarrow> c \<noteq> doc_root d \<Longrightarrow> \<not> attached d c"
  by (simp add: attached_def anc_Suc_None)

theorem get_element_by_id_unique:
  assumes "wf_dom d" and "x < next_eid d" and "attached d x"
    and "html_id (nodes d x) = Some i"
    and "\<And>y. y < next_eid d \<Longrightarrow> html_id (nodes d y) = Some i \<Longrightarrow> y = x"
  shows "get_element_by_id d i = Some x"
proof -
  have root: "doc_root d < next_eid d" using assms(1) by (simp add: wf_dom_def)
  have "set (desc (tree_fuel d) d (doc_root d)) \<subseteq> {..<next_eid d}"
    by (rule desc_alloc [OF assms(1) root])
  then show ?thesis
    unfolding get_element_by_id_def
    using attached_desc [OF assms(1-3)] assms(4,5)
    by (intro find_unique) auto
qed

lemma get_element_by_id_None:
  assumes "wf_dom d" and "\<And>y. y < next_eid d \<Longrightarrow> html_id (nodes d y) \<noteq> Some i"
  shows "get_element_by_id d i = None"
proof -
  have root: "doc_root d < next_eid d" using assms(1) by (simp add: wf_dom_def)
  have "set (desc (tree_fuel d) d (doc_root d)) \<subseteq> {..<next_eid d}"
    by (rule desc_alloc [OF assms(1) root])
  then show ?thesis
    unfolding get_element_by_id_def using assms(2) by (auto simp: find_None_iff)
qed

lemma get_element_by_id_Some:
  "get_element_by_id d i = Some x \<Longrightarrow> html_id (nodes d x) = Some i"
  unfolding get_element_by_id_def by (auto dest: find_SomeD)

lemma query_selector_first_child:
  assumes "wf_dom d" and "children (nodes d c) = f # fs"
    and "cl \<in> set (class_list (nodes d f))"
  shows "query_selector_class d c cl = Some f"
proof -
  from assms(1) obtain k where "next_eid d = Suc k"
    by (cases "next_eid d") (auto simp: wf_dom_def)
  with assms(2,3) show ?thesis
    by (simp add: query_selector_class_def tree_fuel_def)
qed

lemma query_selector_no_children:
  "children (nodes d c) = [] \<Longrightarrow> query_selector_class d c cl = None"
  by (simp add: query_selector_class_def tree_fuel_def)

lemma same_tree_upd_node:
  "(\<And>n. children (f n) = children n) \<Longrightarrow> (\<And>n. parent (f n) = parent n) \<Longrightarrow>
   same_tree (upd_node x f d) d"
  by (simp add: same_tree_def upd_node_def)

lemma same_tree_ops:
  "same_tree (set_style x k v d) d" "same_tree (add_class x c d) d" "same_tree (set_id x i d) d"
  "same_tree (set_text x s d) d" "same_tree (set_value x s d) d" "same_tree (set_read_only x b d) d"
  "same_tree (add_event_listener x e h d) d" "same_tree (set_attribute x k v d) d"
  unfolding set_style_def add_class_def set_id_def set_text_def set_value_def
    set_read_only_def add_event_listener_def set_attribute_def
  by (rule same_tree_upd_node; simp add: Let_def)+

lemma same_tree_trans: "same_tree d2 d1 \<Longrightarrow> same_tree d1 d0 \<Longrightarrow> same_tree d2 d0"
  by (simp add: same_tree_def)

lemma same_tree_refl: "same_tree d d"
  by (simp add: same_tree_def)

lemma same_treeD:
  assumes "same_tree d' d"
  shows "children (nodes d' y) = children (nodes d y)" "parent (nodes d' y) = parent (nodes d y)"
    "next_eid d' = next_eid d" "doc_root d' = doc_root d"
  using assms by (simp_all add: same_tree_def)

lemma same_tree_desc: "same_tree d' d \<Longrightarrow> desc n d' = desc n d"
proof (induction n)
  case 0
  show ?case by (simp add: fun_eq_iff)
next
  case (Suc n)
  show ?case by (rule ext) (simp add: Suc.IH [OF Suc.prems] same_treeD [OF Suc.prems])
qed

lemma same_tree_anc: "same_tree d' d \<Longrightarrow> anc n d' x = anc n d x"
  by (rule anc_frame) (simp add: same_treeD)

lemma same_tree_attached: "same_tree d' d \<Longrightarrow> attached d' x = attached d x"
  by (simp add: attached_def same_tree_anc same_treeD)

lemma same_tree_wf:
  assumes "same_tree d' d"
  shows "wf_dom d' = wf_dom d"
  unfolding wf_dom_def same_treeD [OF assms] by (rule refl)

lemma same_tree_query:
  "same_tree d' d \<Longrightarrow> (\<And>y. class_list (nodes d' y) = class_list (nodes d y)) \<Longrightarrow>
   query_selector_class d' x c = query_selector_class d x c"
  by (simp add: query_selector_class_def same_tree_desc tree_fuel_def same_treeD)

lemma same_tree_get_element_by_id:
  "same_tree d' d \<Longrightarrow> (\<And>y. html_id (nodes d' y) = html_id (nodes d y)) \<Longrightarrow>
   get_element_by_id d' i = get_element_by_id d i"
  by (simp add: get_element_by_id_def same_tree_desc tree_fuel_def same_treeD)

lemma create_element_fresh:
  "create_element t d = (x, d') \<Longrightarrow>
   x = next_eid d \<and> next_eid d' = Suc (next_eid d) \<and> doc_root d' = doc_root d \<and>
   nodes d' = (nodes d)(x := empty_node\<lparr>tag := t\<rparr>)"
  by (auto simp: create_element_def)

lemma wf_domI:
  assumes "\<And>x p. x < next_eid d \<Longrightarrow> p < next_eid d \<Longrightarrow>
             parent (nodes d x) = Some p \<longleftrightarrow> x \<in> set (children (nodes d p))"
    and "\<And>x y. x < next_eid d \<Longrightarrow> y \<in> set (children (nodes d x)) \<Longrightarrow> y < next_eid d"
    and "\<And>x p. x < next_eid d \<Longrightarrow> parent (nodes d x) = Some p \<Longrightarrow> p < next_eid d"
    and "\<And>x. x < next_eid d \<Longrightarrow> distinct (children (nodes d x))"
    and "doc_root d < next_eid d" and "parent (nodes d (doc_root d)) = None"
  shows "wf_dom d"
  unfolding wf_dom_def
proof (intro conjI ballI subsetI)
  fix x p assume "x \<in> {..<next_eid d}" "p \<in> {..<next_eid d}"
  then show "parent (nodes d x) = Some p \<longleftrightarrow> x \<in> set (children (nodes d p))"
    using assms(1) by simp
next
  fix x y assume "x \<in> {..<next_eid d}" "y \<in> set (children (nodes d x))"
  then show "y \<in> {..<next_eid d}" using assms(2) by simp
next
  fix x assume x: "x \<in> {..<next_eid d}"
  show "case parent (nodes d x) of None \<Rightarrow> True | Some p \<Rightarrow> p < next_eid d"
    using assms(3) x by (cases "parent (nodes d x)") simp_all
next
  fix x assume "x \<in> {..<next_eid d}"
  then show "distinct (children (nodes d x))" using assms(4) by simp
qed (fact assms(5), fact assms(6))

lemma wf_dom_root: "wf_dom d \<Longrightarrow> doc_root d < next_eid d \<and> parent (nodes d (doc_root d)) = None"
  by (simp add: wf_dom_def)

lemma wf_dom_parent_alloc:
  "wf_dom d \<Longrightarrow> x < next_eid d \<Longrightarrow> parent (nodes d x) = Some p \<Longrightarrow> p < next_eid d"
  by (simp add: wf_dom_parent_child)

lemma wf_dom_child_alloc:
  "wf_dom d \<Longrightarrow> x < next_eid d \<Longrightarrow> y \<in> set (children (nodes d x)) \<Longrightarrow> y < next_eid d"
  by (simp add: wf_dom_child_parent)

lemma create_element_link:
  assumes wf: "wf_dom d" and y: "y < Suc (next_eid d)" and p: "p < Suc (next_eid d)"
    and nd: "\<And>y. nodes d' y = (if y = next_eid d then empty_node\<lparr>tag := t\<rparr> else nodes d y)"
  shows "parent (nodes d' y) = Some p \<longleftrightarrow> y \<in> set (children (nodes d' p))"
proof (cases "y = next_eid d")
  case True
  with p wf_dom_child_alloc [OF wf, of p] show ?thesis by (auto simp: nd empty_node_def less_Suc_eq)
next
  case False
  with y have y': "y < next_eid d" by simp
  show ?thesis
  proof (cases "p = next_eid d")
    case True
    with y' wf_dom_parent_alloc [OF wf y'] show ?thesis by (auto simp: nd empty_node_def)
  next
    case False
    with p have "p < next_eid d" by simp
    with y' wf_dom_link [OF wf y'] \<open>y \<noteq> next_eid d\<close> False show ?thesis by (simp add: nd)
  qed
qed

lemma wf_create_element:
  assumes wf: "wf_dom d" and c: "create_element t d = (x, d')"
  shows "wf_dom d'"
proof -
  from c have x: "x = next_eid d" and n: "next_eid d' = Suc (next_eid d)"
    and r: "doc_root d' = doc_root d"
    and nd: "\<And>y. nodes d' y = (if y = next_eid d then empty_node\<lparr>tag := t\<rparr> else nodes d y)"
    by (auto simp: create_element_def)
  show ?thesis
  proof (rule wf_domI)
    fix y p assume "y < next_eid d'" and "p < next_eid d'"
    then show "parent (nodes d' y) = Some p \<longleftrightarrow> y \<in> set (children (nodes d' p))"
      by (intro create_element_link [OF wf _ _ nd]) (simp_all add: n)
  next
    fix y z assume "y < next_eid d'" "z \<in> set (children (nodes d' y))"
    then show "z < next_eid d'"
      using wf_dom_child_alloc [OF wf, of y z]
      by (cases "y = next_eid d") (simp_all add: n nd empty_node_def)
  next
    fix y p assume "y < next_eid d'" "parent (nodes d' y) = Some p"
    then show "p < next_eid d'"
      using wf_dom_parent_alloc [OF wf, of y p]
      by (cases "y = next_eid d") (simp_all add: n nd empty_node_def)
  next
    fix y assume "y < next_eid d'"
    then show "distinct (children (nodes d' y))"
      using wf_dom_distinct [OF wf, of y]
      by (cases "y = next_eid d") (simp_all add: n nd empty_node_def)
  next
    show "doc_root d' < next_eid d'" using wf_dom_root [OF wf] by (simp add: n r)
  next
    show "parent (nodes d' (doc_root d')) = None" using wf_dom_root [OF wf] by (simp add: r nd)
  qed
qed

lemma wf_no_parent_not_child:
  "wf_dom d \<Longrightarrow> c < next_eid d \<Longrightarrow> y < next_eid d \<Longrightarrow> parent (nodes d c) = None \<Longrightarrow>
   c \<notin> set (children (nodes d y))"
  using wf_dom_child_parent by fastforce

lemma wf_other_parent_not_child:
  "wf_dom d \<Longrightarrow> c < next_eid d \<Longrightarrow> y < next_eid d \<Longrightarrow> parent (nodes d c) = Some q \<Longrightarrow>
   y \<noteq> q \<Longrightarrow> c \<notin> set (children (nodes d y))"
  using wf_dom_child_parent by fastforce

text \<open>The effect of \<open>detach\<close> field by field, in a well-formed document.\<close>

lemma detach_fields:
  assumes wf: "wf_dom d" and c: "c < next_eid d" and y: "y < next_eid d"
  shows "children (nodes (detach c d) y) = remove1 c (children (nodes d y))"
    and "parent (nodes (detach c d) y) = (if y = c then None else parent (nodes d y))"
proof -
  show "children (nodes (detach c d) y) = remove1 c (children (nodes d y))"
  proof (cases "parent (nodes d c)")
    case None
    with wf_no_parent_not_child [OF wf c y] show ?thesis by (simp add: detach_def remove1_idem)
  next
    case (Some q)
    with wf_other_parent_not_child [OF wf c y Some] show ?thesis
      by (auto simp: detach_def upd_node_def remove1_idem)
  qed
  show "parent (nodes (detach c d) y) = (if y = c then None else parent (nodes d y))"
    by (cases "parent (nodes d c)") (auto simp: detach_def upd_node_def)
qed

lemma detach_same:
  "next_eid (detach c d) = next_eid d" "doc_root (detach c d) = doc_root d"
  "html_id (nodes (detach c d) y) = html_id (nodes d y)"
  "class_list (nodes (detach c d) y) = class_list (nodes d y)"
  "style (nodes (detach c d) y) = style (nodes d y)"
  "attrs (nodes (detach c d) y) = attrs (nodes d y)"
  "listeners (nodes (detach c d) y) = listeners (nodes d y)"
  "tag (nodes (detach c d) y) = tag (nodes d y)"
  by (cases "parent (nodes d c)"; simp add: detach_def upd_node_def)+

text \<open>\<open>c.parentNode?.removeChild(c)\<close>: detach \<open>c\<close> if it has a parent.\<close>

lemma detach_other:
  "y \<noteq> c \<Longrightarrow> parent (nodes d c) \<noteq> Some y \<Longrightarrow> nodes (detach c d) y = nodes d y"
  by (cases "parent (nodes d c)") (simp_all add: detach_def upd_node_def)

lemma detach_old_parent:
  "parent (nodes d c) = Some q \<Longrightarrow> q \<noteq> c \<Longrightarrow>
   nodes (detach c d) q = (nodes d q)\<lparr>children := remove1 c (children (nodes d q))\<rparr>"
  by (simp add: detach_def upd_node_def)

lemma detach_parent_self: "parent (nodes (detach c d) c) = None"
  by (cases "parent (nodes d c)") (simp_all add: detach_def upd_node_def)

lemma remove_from_parent:
  "(case parent (nodes d c) of None \<Rightarrow> Inr d | Some p \<Rightarrow> remove_child p c d) = Inr (detach c d)"
  by (cases "parent (nodes d c)") (simp_all add: detach_def remove_child_def)

lemma wf_detach:
  assumes wf: "wf_dom d" and c: "c < next_eid d"
  shows "wf_dom (detach c d)"
proof (rule wf_domI)
  fix x p assume x: "x < next_eid (detach c d)" and p: "p < next_eid (detach c d)"
  then have x': "x < next_eid d" and p': "p < next_eid d" by (simp_all add: detach_same)
  note old = wf_dom_link [OF wf x' p']
  show "parent (nodes (detach c d) x) = Some p \<longleftrightarrow> x \<in> set (children (nodes (detach c d) p))"
    using old wf_dom_distinct [OF wf p']
    by (simp add: detach_fields [OF wf c x'] detach_fields [OF wf c p'] set_remove1_distinct)
next
  fix x y assume "x < next_eid (detach c d)" "y \<in> set (children (nodes (detach c d) x))"
  then show "y < next_eid (detach c d)"
    using wf_dom_child_alloc [OF wf] notin_set_remove1
    by (fastforce simp: detach_same detach_fields [OF wf c])
next
  fix x p assume "x < next_eid (detach c d)" "parent (nodes (detach c d) x) = Some p"
  then show "p < next_eid (detach c d)"
    using wf_dom_parent_alloc [OF wf]
    by (auto simp: detach_same detach_fields [OF wf c] split: if_splits)
next
  fix x assume "x < next_eid (detach c d)"
  then show "distinct (children (nodes (detach c d) x))"
    using wf_dom_distinct [OF wf] by (simp add: detach_same detach_fields [OF wf c])
next
  show "doc_root (detach c d) < next_eid (detach c d)"
    using wf_dom_root [OF wf] by (simp add: detach_same)
next
  show "parent (nodes (detach c d) (doc_root (detach c d))) = None"
    using wf_dom_root [OF wf] by (simp add: detach_same detach_fields [OF wf c])
qed

lemma append_child_Inr:
  "append_child p c d = Inr d' \<Longrightarrow>
   p \<noteq> c \<and> d' = upd_node c (\<lambda>n. n\<lparr>parent := Some p\<rparr>)
                  (upd_node p (\<lambda>n. n\<lparr>children := children n @ [c]\<rparr>) (detach c d))"
  by (auto simp: append_child_def tree_fuel_def split: if_splits)

lemma append_child_self: "append_child c c d = Inl HierarchyRequestError"
  by (simp add: append_child_def tree_fuel_def)

lemma append_child_leaf:
  assumes "children (nodes d c) = []" and "parent (nodes d c) = None" and "p \<noteq> c"
  shows "append_child p c d =
     Inr (upd_node c (\<lambda>n. n\<lparr>parent := Some p\<rparr>)
           (upd_node p (\<lambda>n. n\<lparr>children := children n @ [c]\<rparr>) d))"
  using assms by (simp add: append_child_def tree_fuel_def detach_def)

lemma append_fields:
  assumes wf: "wf_dom d" and c: "c < next_eid d" and y: "y < next_eid d"
    and a: "append_child p c d = Inr d'"
  shows "children (nodes d' y) =
           (if y = p then remove1 c (children (nodes d y)) @ [c] else remove1 c (children (nodes d y)))"
    and "parent (nodes d' y) = (if y = c then Some p else parent (nodes d y))"
    and "next_eid d' = next_eid d" and "doc_root d' = doc_root d"
    and "html_id (nodes d' y) = html_id (nodes d y)"
    and "class_list (nodes d' y) = class_list (nodes d y)"
    and "style (nodes d' y) = style (nodes d y)"
    and "attrs (nodes d' y) = attrs (nodes d y)"
  using append_child_Inr [OF a] detach_fields [OF wf c y] detach_same [of c d]
  by (auto simp: upd_node_def)

lemma wf_append_child:
  assumes wf: "wf_dom d" and p: "p < next_eid d" and c: "c < next_eid d"
    and root: "c \<noteq> doc_root d" and a: "append_child p c d = Inr d'"
  shows "wf_dom d'"
proof -
  note f = append_fields [OF wf c _ a]
  have n: "next_eid d' = next_eid d" and r: "doc_root d' = doc_root d"
    using f(3,4) [OF c] by simp_all
  show ?thesis
  proof (rule wf_domI)
    fix x q assume x: "x < next_eid d'" and q: "q < next_eid d'"
    then have x': "x < next_eid d" and q': "q < next_eid d" by (simp_all add: n)
    note old = wf_dom_link [OF wf x' q']
    show "parent (nodes d' x) = Some q \<longleftrightarrow> x \<in> set (children (nodes d' q))"
      using old wf_dom_distinct [OF wf q']
      by (auto simp: f(1) [OF q'] f(2) [OF x'] set_remove1_distinct)
  next
    fix x y assume "x < next_eid d'" "y \<in> set (children (nodes d' x))"
    then show "y < next_eid d'"
      using wf_dom_child_alloc [OF wf] notin_set_remove1 c
      by (fastforce simp: f(1) n split: if_splits)
  next
    fix x q assume "x < next_eid d'" "parent (nodes d' x) = Some q"
    then show "q < next_eid d'"
      using wf_dom_parent_alloc [OF wf] p by (auto simp: f(2) n split: if_splits)
  next
    fix x assume "x < next_eid d'"
    then show "distinct (children (nodes d' x))"
      using wf_dom_distinct [OF wf] by (simp add: f(1) n)
  next
    show "doc_root d' < next_eid d'" using wf_dom_root [OF wf] by (simp add: n r)
  next
    show "parent (nodes d' (doc_root d')) = None"
      using wf_dom_root [OF wf] root by (simp add: f(2) r)
  qed
qed

lemma remove_child_parent: "parent (nodes d c) = Some p \<Longrightarrow> remove_child p c d = Inr (detach c d)"
  by (simp add: remove_child_def)

lemma remove_child_not_child:
  "parent (nodes d c) \<noteq> Some p \<Longrightarrow> remove_child p c d = Inl NotFoundError"
  by (simp add: remove_child_def)

lemma wf_remove_child:
  "wf_dom d \<Longrightarrow> c < next_eid d \<Longrightarrow> remove_child p c d = Inr d' \<Longrightarrow> wf_dom d'"
  by (auto simp: remove_child_def wf_detach split: if_splits)


lemma set_style_nodes:
  "nodes (set_style x k v d) y =
     (if y = x then (nodes d x)\<lparr>style := (style (nodes d x))(k \<mapsto> v)\<rparr> else nodes d y)"
  "next_eid (set_style x k v d) = next_eid d" "doc_root (set_style x k v d) = doc_root d"
  by (simp_all add: set_style_def upd_node_def)

lemma set_style_other_key:
  "k' \<noteq> k \<Longrightarrow> style (nodes (set_style x k v d) y) k' = style (nodes d y) k'"
  by (simp add: set_style_nodes)

end
