(* ===== verification/Timers.thy ===== *)
theory Timers
  imports Prelude
begin

text \<open>
  The browser's timer queue as the widget uses it through \<open>setTimeout\<close>
  (src/PcfDoomComponent/index.ts lines 94, 134 and 138). The queue is generic in the
  type \<open>'a\<close> of callbacks, so that the widget supplies its own closures as a datatype.
  A timer is due at the clock value when it was set plus its delay; the event loop runs
  the timer with the smallest due time, and of those the one set first (the HTML
  standard's ordering of timers with equal timeouts), and moves the clock to its due
  time. Time passes only up to the earliest due time, so no timer is skipped.
\<close>

record 'a timers =
  clock :: ms
  queue :: "(ms \<times> 'a) list"

definition set_timeout :: "ms \<Rightarrow> 'a \<Rightarrow> 'a timers \<Rightarrow> 'a timers" where
  "set_timeout delay a t = t\<lparr>queue := queue t @ [(clock t + delay, a)]\<rparr>"

primrec earliest :: "(ms \<times> 'a) list \<Rightarrow> ms option" where
  "earliest [] = None"
| "earliest (e # q) = Some (case earliest q of None \<Rightarrow> fst e | Some m \<Rightarrow> min (fst e) m)"

text \<open>Take out the first entry due at \<open>m\<close>, keeping the others in order.\<close>

fun pop_due :: "ms \<Rightarrow> (ms \<times> 'a) list \<Rightarrow> ('a \<times> (ms \<times> 'a) list) option" where
  "pop_due m [] = None"
| "pop_due m ((d, a) # q) =
     (if d = m then Some (a, q)
      else (case pop_due m q of None \<Rightarrow> None | Some (b, q') \<Rightarrow> Some (b, (d, a) # q')))"

definition next_timer :: "'a timers \<Rightarrow> ('a \<times> 'a timers) option" where
  "next_timer t =
     (case earliest (queue t) of
        None \<Rightarrow> None
      | Some m \<Rightarrow>
          (case pop_due m (queue t) of
             None \<Rightarrow> None
           | Some (a, q) \<Rightarrow> Some (a, t\<lparr>clock := max (clock t) m, queue := q\<rparr>)))"

definition can_wait :: "ms \<Rightarrow> 'a timers \<Rightarrow> bool" where
  "can_wait k t \<longleftrightarrow> list_all (\<lambda>(m, a). clock t + k \<le> m) (queue t)"

definition wait :: "ms \<Rightarrow> 'a timers \<Rightarrow> 'a timers" where
  "wait k t = t\<lparr>clock := clock t + k\<rparr>"

lemma earliest_None_iff [simp]: "earliest q = None \<longleftrightarrow> q = []"
  by (cases q) simp_all

lemma earliest_Some:
  "earliest q = Some m \<Longrightarrow> (\<exists>a. (m, a) \<in> set q) \<and> (\<forall>(d, b)\<in>set q. m \<le> d)"
proof (induction q arbitrary: m)
  case Nil
  then show ?case by simp
next
  case (Cons e q)
  obtain d a where e: "e = (d, a)" by (cases e)
  show ?case
  proof (cases "earliest q")
    case None
    with Cons.prems e show ?thesis by simp
  next
    case (Some m')
    with Cons.IH [OF Some] Cons.prems e show ?thesis
      by (auto simp: min_def split: if_splits)
  qed
qed

lemma pop_due_exists: "(m, a) \<in> set q \<Longrightarrow> \<exists>b q'. pop_due m q = Some (b, q')"
proof (induction q)
  case Nil
  then show ?case by simp
next
  case (Cons e q)
  obtain d c where e: "e = (d, c)" by (cases e)
  show ?case
  proof (cases "d = m")
    case True
    with e show ?thesis by simp
  next
    case False
    with Cons.prems e have "(m, a) \<in> set q" by auto
    with Cons.IH obtain b q' where "pop_due m q = Some (b, q')" by blast
    with False e show ?thesis by simp
  qed
qed

text \<open>The entry taken out is the first one due at \<open>m\<close>; the rest keep their order.\<close>

lemma pop_due_split:
  "pop_due m q = Some (a, q') \<Longrightarrow>
   \<exists>xs ys. q = xs @ (m, a) # ys \<and> q' = xs @ ys \<and> (\<forall>(d, b)\<in>set xs. d \<noteq> m)"
proof (induction m q arbitrary: q' rule: pop_due.induct)
  case (1 m)
  then show ?case by simp
next
  case (2 m d b q)
  show ?case
  proof (cases "d = m")
    case True
    with "2.prems" have "a = b" "q' = q" by simp_all
    with True show ?thesis by (intro exI [of _ "[]"] exI [of _ q]) simp
  next
    case False
    with "2.prems" obtain q'' where p: "pop_due m q = Some (a, q'')" and q': "q' = (d, b) # q''"
      by (auto split: option.splits)
    from "2.IH" [OF False p] obtain xs ys where
      "q = xs @ (m, a) # ys" "q'' = xs @ ys" "\<forall>(d, b)\<in>set xs. d \<noteq> m" by blast
    with False q' show ?thesis by (intro exI [of _ "(d, b) # xs"] exI [of _ ys]) auto
  qed
qed

lemma next_timer_exists: "queue t \<noteq> [] \<Longrightarrow> \<exists>a t'. next_timer t = Some (a, t')"
proof -
  assume "queue t \<noteq> []"
  then obtain m where m: "earliest (queue t) = Some m" by (cases "earliest (queue t)") auto
  from earliest_Some [OF m] obtain a where "(m, a) \<in> set (queue t)" by blast
  from pop_due_exists [OF this] obtain b q' where "pop_due m (queue t) = Some (b, q')" by blast
  with m show ?thesis by (simp add: next_timer_def)
qed

lemma next_timer_None: "queue t = [] \<Longrightarrow> next_timer t = None"
  by (simp add: next_timer_def)

text \<open>
  The timer that runs is due no later than any other, and every timer set before it
  is due strictly later: equal timeouts run in the order they were set.
\<close>

theorem next_timer_order:
  assumes nt: "next_timer t = Some (a, t')"
  shows "\<exists>xs ys m. queue t = xs @ (m, a) # ys \<and> queue t' = xs @ ys \<and>
           (\<forall>(d, b)\<in>set xs. m < d) \<and> (\<forall>(d, b)\<in>set ys. m \<le> d) \<and>
           clock t' = max (clock t) m"
proof -
  obtain m where m: "earliest (queue t) = Some m"
    using nt by (cases "earliest (queue t)") (simp_all add: next_timer_def)
  obtain q where p: "pop_due m (queue t) = Some (a, q)"
    and t': "t' = t\<lparr>clock := max (clock t) m, queue := q\<rparr>"
    using nt m by (cases "pop_due m (queue t)") (auto simp: next_timer_def)
  from pop_due_split [OF p] obtain xs ys where
    q: "queue t = xs @ (m, a) # ys" "q = xs @ ys" and ne: "\<forall>(d, b)\<in>set xs. d \<noteq> m" by blast
  from earliest_Some [OF m] have le: "\<forall>(d, b)\<in>set (queue t). m \<le> d" by blast
  have lt: "m < d" if "(d, b) \<in> set xs" for d b
  proof -
    from that q(1) le have "m \<le> d" by auto
    moreover from that ne have "d \<noteq> m" by auto
    ultimately show ?thesis by simp
  qed
  have ge: "m \<le> d" if "(d, b) \<in> set ys" for d b
    using that q(1) le by auto
  have "queue t' = xs @ ys" "clock t' = max (clock t) m" using t' q(2) by simp_all
  with q(1) lt ge show ?thesis by blast
qed

lemma next_timer_in_queue:
  assumes "next_timer t = Some (a, t')"
  shows "set (queue t') \<subseteq> set (queue t) \<and> (\<exists>m. (m, a) \<in> set (queue t))"
proof -
  from next_timer_order [OF assms] obtain xs ys m
    where "queue t = xs @ (m, a) # ys" "queue t' = xs @ ys" by blast
  then show ?thesis by auto
qed

lemma next_timer_length:
  assumes "next_timer t = Some (a, t')"
  shows "length (queue t') < length (queue t)"
proof -
  from next_timer_order [OF assms] obtain xs ys m
    where "queue t = xs @ (m, a) # ys" "queue t' = xs @ ys" by blast
  then show ?thesis by simp
qed

lemma set_timeout_queue [simp]:
  "queue (set_timeout k a t) = queue t @ [(clock t + k, a)]" "clock (set_timeout k a t) = clock t"
  by (simp_all add: set_timeout_def)

lemma wait_queue [simp]: "queue (wait k t) = queue t" "clock (wait k t) = clock t + k"
  by (simp_all add: wait_def)

text \<open>A timer set on an empty queue is the next to run, at its due time.\<close>

lemma set_timeout_next_timer:
  "queue t = [] \<Longrightarrow>
   next_timer (set_timeout k a t) = Some (a, t\<lparr>clock := clock t + k\<rparr>)"
  by (simp add: next_timer_def set_timeout_def)

end
