(* ===== verification/Widget.thy ===== *)
theory Widget
  imports Dom Timers
begin

text \<open>
  The class PcfDoomComponent of src/PcfDoomComponent/index.ts, one definition per
  method, each taking the world (document, timer queue and the instance's fields) and
  returning the updated world or the JavaScript exception that escapes the method.
  The instance's private fields are the record \<open>widget\<close>; the click handler bound in
  \<open>init\<close> is the constructor \<open>OnBossKeyClick\<close> of \<open>handler\<close>, stored in the boss key's
  listener list; the three arrow functions passed to \<open>setTimeout\<close> are the
  constructors of \<open>action\<close>, with the values they capture (\<open>FlyOut f\<close> captures the
  local \<open>iframe\<close>; the others read \<open>this\<close> when they run), and \<open>run_action\<close> is their
  bodies. Inline style properties are keyed by their JavaScript names
  (\<open>fontSize\<close>, \<open>borderRadius\<close>), as the code writes them.
\<close>

datatype handler = OnBossKeyClick

datatype action =
    AnimateIn        \<comment> \<open>renderDoomIframe's timer, lines 94--98\<close>
  | FlyOut eid       \<comment> \<open>onBossKeyClick's outer timer, lines 134--148\<close>
  | RemoveContainer  \<comment> \<open>onBossKeyClick's inner timer, lines 138--147\<close>

text \<open>\<open>context.parameters.DoomEnablerOptionSet.raw\<close>: a number or null.\<close>

record ctx =
  doom_raw :: "int option"

record widget =
  wcontext :: ctx
  root_container :: eid
  container :: eid
  boss_key :: eid
  control_view_rendered :: bool
  doom_iframe :: "eid option"

record world =
  wdom :: "handler dom"
  wtimers :: "action timers"
  inst :: widget

definition serious_id :: string where
  "serious_id = ''seriousTextArea''"

definition iframe_class :: string where
  "iframe_class = ''PcfDoomComponent_IFrame''"

definition doom_src :: string where
  "doom_src = ''/WebResources/cc_doomcrt''"

subsection \<open>init (lines 20--54)\<close>

definition init :: "ctx \<Rightarrow> eid \<Rightarrow> world \<Rightarrow> js_error + world" where
  "init context root w =
     (let (c, d) = create_element ''div'' (wdom w);
          d = add_class c ''iframe-wrapper'' d;
          (b, d) = create_element ''button'' d;
          d = set_text b ''BOSS KEY'' d;
          d = add_class b ''bossKey'' d;
          d = add_event_listener b ''click'' OnBossKeyClick d;
          (t, d) = create_element ''textarea'' d;
          d = set_id t serious_id d;
          d = set_value t ''We are currently working on the TPS report for this customer '' d;
          d = set_style t ''font'' ''Segoe UI'' d;
          d = set_style t ''width'' ''95%'' d;
          d = set_style t ''height'' ''60%'' d;
          d = set_style t ''fontSize'' ''14px'' d;
          d = set_style t ''padding'' ''10px'' d;
          d = set_style t ''border'' ''1px solid #ccc'' d;
          d = set_style t ''borderRadius'' ''4px'' d;
          d = set_read_only t False d
      in bindE (append_child root t d) (\<lambda>d.
         bindE (append_child root c d) (\<lambda>d.
         Inr (w\<lparr>wdom := d,
                 inst := (inst w)\<lparr>wcontext := context, root_container := root, container := c,
                                  boss_key := b, control_view_rendered := False\<rparr>\<rparr>))))"

subsection \<open>renderDoomIframe and createIFrameElement (lines 74--105)\<close>

definition create_iframe_element :: "handler dom \<Rightarrow> eid \<times> handler dom" where
  "create_iframe_element d =
     (let (f, d) = create_element ''iframe'' d in (f, set_attribute f ''class'' iframe_class d))"

definition render_doom_iframe :: "world \<Rightarrow> js_error + world" where
  "render_doom_iframe w =
     (let (f, d) = create_iframe_element (wdom w);
          i = (inst w)\<lparr>doom_iframe := Some f\<rparr>;
          d = set_style f ''position'' ''relative'' d;
          d = set_style f ''top'' ''100vh'' d;
          d = set_style f ''opacity'' ''0'' d;
          d = set_style f ''transform'' ''scale(0.5) rotate(-10deg)'' d;
          d = set_style f ''transition'' ''all 0.8s cubic-bezier(0.2, 0.8, 0.2, 1)'' d
      in bindE (append_child (container i) f d) (\<lambda>d.
         bindE (append_child (container i) (boss_key i) d) (\<lambda>d.
         Inr (w\<lparr>wdom := set_attribute f ''src'' doom_src d, inst := i,
                 wtimers := set_timeout 100 AnimateIn (wtimers w)\<rparr>))))"

subsection \<open>updateView (lines 60--73)\<close>

definition update_view :: "ctx \<Rightarrow> world \<Rightarrow> js_error + world" where
  "update_view context w =
     (let option_set_value = doom_raw context in
      if \<not> control_view_rendered (inst w) \<and> option_set_value = Some 5 then
        (let w = w\<lparr>inst := (inst w)\<lparr>control_view_rendered := True\<rparr>\<rparr>;
             d = (case get_element_by_id (wdom w) serious_id of
                    None \<Rightarrow> wdom w
                  | Some t \<Rightarrow> set_style t ''display'' ''none'' (wdom w))
         in render_doom_iframe (w\<lparr>wdom := d\<rparr>))
      else Inr w)"

subsection \<open>getOutputs and destroy (lines 111--121)\<close>

definition get_outputs :: "world \<Rightarrow> (string \<times> string) list" where
  "get_outputs w = []"

definition destroy :: "world \<Rightarrow> world" where
  "destroy w = w"

subsection \<open>onBossKeyClick (lines 122--154)\<close>

definition on_boss_key_click :: "world \<Rightarrow> js_error + world" where
  "on_boss_key_click w =
     (let c = container (inst w); d = wdom w in
      case parent (nodes d c) of
        None \<Rightarrow> Inr w
      | Some p \<Rightarrow>
          (case query_selector_class d c iframe_class of
             Some f \<Rightarrow>
               (let d = set_style f ''position'' ''relative'' d;
                    d = set_style f ''left'' ''0'' d;
                    d = set_style f ''transition'' ''left 0.5s ease-in'' d
                in Inr (w\<lparr>wdom := d, wtimers := set_timeout 10 (FlyOut f) (wtimers w)\<rparr>))
           | None \<Rightarrow> bindE (remove_child p c d) (\<lambda>d. Inr (w\<lparr>wdom := d\<rparr>))))"

subsection \<open>The timer callbacks\<close>

text \<open>The callback of renderDoomIframe's setTimeout (lines 94--98).\<close>

definition animate_in :: "world \<Rightarrow> js_error + world" where
  "animate_in w =
     (case doom_iframe (inst w) of
        None \<Rightarrow> Inl TypeError
      | Some f \<Rightarrow>
          Inr (w\<lparr>wdom := set_style f ''transform'' ''scale(1) rotate(0deg)''
                          (set_style f ''opacity'' ''1'' (set_style f ''top'' ''0'' (wdom w)))\<rparr>))"

text \<open>The outer callback of onBossKeyClick (lines 134--148); \<open>f\<close> is the captured iframe.\<close>

definition fly_out :: "eid \<Rightarrow> world \<Rightarrow> js_error + world" where
  "fly_out f w =
     Inr (w\<lparr>wdom := set_style f ''left'' ''-100vw'' (wdom w),
            wtimers := set_timeout 500 RemoveContainer (wtimers w)\<rparr>)"

text \<open>The inner callback of onBossKeyClick (lines 138--147).\<close>

definition remove_container :: "world \<Rightarrow> js_error + world" where
  "remove_container w =
     (let c = container (inst w) in
      bindE (case parent (nodes (wdom w) c) of
               None \<Rightarrow> Inr (wdom w)
             | Some p \<Rightarrow> remove_child p c (wdom w)) (\<lambda>d.
      Inr (w\<lparr>wdom := (case get_element_by_id d serious_id of
                         None \<Rightarrow> d
                       | Some t \<Rightarrow> set_style t ''display'' ''block'' d)\<rparr>)))"

fun run_action :: "action \<Rightarrow> world \<Rightarrow> js_error + world" where
  "run_action AnimateIn w = animate_in w"
| "run_action (FlyOut f) w = fly_out f w"
| "run_action RemoveContainer w = remove_container w"

text \<open>
  A click on an element runs the click listeners registered on it, in the order they
  were added; the widget's only handler is the bound \<open>onBossKeyClick\<close>.
\<close>

fun run_handler :: "handler \<Rightarrow> world \<Rightarrow> js_error + world" where
  "run_handler OnBossKeyClick w = on_boss_key_click w"

fun run_listeners :: "(string \<times> handler) list \<Rightarrow> world \<Rightarrow> js_error + world" where
  "run_listeners [] w = Inr w"
| "run_listeners ((ev, h) # hs) w =
     (if ev = ''click'' then bindE (run_handler h w) (run_listeners hs) else run_listeners hs w)"

definition dispatch_click :: "eid \<Rightarrow> world \<Rightarrow> js_error + world" where
  "dispatch_click x w = run_listeners (listeners (nodes (wdom w) x)) w"

text \<open>The iframe element renderDoomIframe builds, once it is in the container \<open>c\<close>.\<close>

definition iframe_node :: "eid \<Rightarrow> handler node" where
  "iframe_node c = \<lparr>tag = ''iframe'', html_id = None, class_list = [iframe_class],
     attrs = [''class'' \<mapsto> iframe_class, ''src'' \<mapsto> doom_src],
     style = [''position'' \<mapsto> ''relative'', ''top'' \<mapsto> ''100vh'', ''opacity'' \<mapsto> ''0'',
              ''transform'' \<mapsto> ''scale(0.5) rotate(-10deg)'',
              ''transition'' \<mapsto> ''all 0.8s cubic-bezier(0.2, 0.8, 0.2, 1)''],
     text_content = [], form_value = [], read_only = False, listeners = [], children = [],
     parent = Some c\<rparr>"

declare init_def [widget_defs] create_iframe_element_def [widget_defs]
  render_doom_iframe_def [widget_defs] update_view_def [widget_defs]
  on_boss_key_click_def [widget_defs] dispatch_click_def [widget_defs]
  animate_in_def [widget_defs] fly_out_def [widget_defs] remove_container_def [widget_defs]

subsection \<open>The effect of init\<close>

lemma iframe_class_tokens: "remdups (split_ws [] iframe_class) = [iframe_class]"
  by (simp add: iframe_class_def is_ascii_ws_def)

lemma init_Inr_nodes:
  assumes r: "r < next_eid (wdom w)" and i: "init ctx r w = Inr w'"
  defines "N \<equiv> next_eid (wdom w)"
  shows "next_eid (wdom w') = N + 3" "doc_root (wdom w') = doc_root (wdom w)"
    "inst w' = (inst w)\<lparr>wcontext := ctx, root_container := r, container := N,
                  boss_key := Suc N, control_view_rendered := False\<rparr>"
    "wtimers w' = wtimers w"
    "nodes (wdom w') = (nodes (wdom w))
        (Suc N := \<lparr>tag = ''button'', html_id = None, class_list = [''bossKey''],
                   attrs = Map.empty, style = Map.empty, text_content = ''BOSS KEY'',
                   form_value = [], read_only = False,
                   listeners = [(''click'', OnBossKeyClick)], children = [], parent = None\<rparr>,
         Suc (Suc N) := \<lparr>tag = ''textarea'', html_id = Some serious_id, class_list = [],
                   attrs = Map.empty,
                   style = [''font'' \<mapsto> ''Segoe UI'', ''width'' \<mapsto> ''95%'',
                            ''height'' \<mapsto> ''60%'', ''fontSize'' \<mapsto> ''14px'',
                            ''padding'' \<mapsto> ''10px'', ''border'' \<mapsto> ''1px solid #ccc'',
                            ''borderRadius'' \<mapsto> ''4px''],
                   text_content = [],
                   form_value = ''We are currently working on the TPS report for this customer '',
                   read_only = False, listeners = [], children = [], parent = Some r\<rparr>,
         r := nodes (wdom w) r\<lparr>children := children (nodes (wdom w) r) @ [Suc (Suc N), N]\<rparr>,
         N := \<lparr>tag = ''div'', html_id = None, class_list = [''iframe-wrapper''],
                attrs = Map.empty, style = Map.empty, text_content = [], form_value = [],
                read_only = False, listeners = [], children = [], parent = Some r\<rparr>)"
  using i r unfolding N_def
  by (auto simp: init_def Let_def append_child_leaf dom_defs empty_node_def cong: eval_congs)

lemma wf_init:
  assumes wf: "wf_dom (wdom w)" and r: "r < next_eid (wdom w)" and i: "init ctx r w = Inr w'"
  shows "wf_dom (wdom w')"
proof -
  let ?d = "wdom w" and ?N = "next_eid (wdom w)"
  note e = init_Inr_nodes [OF r i]
  note old = wf_dom_link [OF wf] and ca = wf_dom_child_alloc [OF wf]
    and pa = wf_dom_parent_alloc [OF wf]
  show ?thesis
  proof (rule wf_domI)
    fix x p assume x: "x < next_eid (wdom w')" and p: "p < next_eid (wdom w')"
    then have "x < ?N + 3" "p < ?N + 3" by (simp_all add: e)
    then show "parent (nodes (wdom w') x) = Some p \<longleftrightarrow> x \<in> set (children (nodes (wdom w') p))"
      using old [of x p] ca [of p x] pa [of x p] r
      by (auto simp: e(5) eval_nat_numeral less_Suc_eq)
  next
    fix x y assume "x < next_eid (wdom w')" "y \<in> set (children (nodes (wdom w') x))"
    then show "y < next_eid (wdom w')"
      using ca [of x y] r by (auto simp: e(1,5) eval_nat_numeral less_Suc_eq split: if_splits)
  next
    fix x p assume "x < next_eid (wdom w')" "parent (nodes (wdom w') x) = Some p"
    then show "p < next_eid (wdom w')"
      using pa [of x p] r by (auto simp: e(1,5) eval_nat_numeral less_Suc_eq split: if_splits)
  next
    fix x assume "x < next_eid (wdom w')"
    then show "distinct (children (nodes (wdom w') x))"
    proof -
      have "Suc (Suc ?N) \<notin> set (children (nodes ?d r))" "?N \<notin> set (children (nodes ?d r))"
        using ca [OF r] by fastforce+
      with \<open>x < next_eid (wdom w')\<close> show ?thesis
        using wf_dom_distinct [OF wf, of x] wf_dom_distinct [OF wf r]
        by (auto simp: e(1,5) eval_nat_numeral less_Suc_eq)
    qed
  next
    show "doc_root (wdom w') < next_eid (wdom w')"
      using wf_dom_root [OF wf] by (simp add: e)
  next
    show "parent (nodes (wdom w') (doc_root (wdom w'))) = None"
      using wf_dom_root [OF wf] r by (auto simp: e(2,5))
  qed
qed

lemma init_succeeds: "r < next_eid (wdom w) \<Longrightarrow> \<exists>w'. init ctx r w = Inr w'"
  by (simp add: init_def Let_def append_child_leaf dom_defs empty_node_def cong: eval_congs)

subsection \<open>The effect of renderDoomIframe\<close>

lemma render_eq:
  assumes "container (inst w) < next_eid (wdom w)" "boss_key (inst w) < next_eid (wdom w)"
    "children (nodes (wdom w) (boss_key (inst w))) = []"
    "parent (nodes (wdom w) (boss_key (inst w))) = None"
    "container (inst w) \<noteq> boss_key (inst w)"
  shows "render_doom_iframe w =
    Inr (w\<lparr>wdom := (wdom w)\<lparr>next_eid := Suc (next_eid (wdom w)),
           nodes := (nodes (wdom w))
             (container (inst w) := nodes (wdom w) (container (inst w))
                \<lparr>children := children (nodes (wdom w) (container (inst w))) @
                               [next_eid (wdom w), boss_key (inst w)]\<rparr>,
              boss_key (inst w) := nodes (wdom w) (boss_key (inst w))\<lparr>parent := Some (container (inst w))\<rparr>,
              next_eid (wdom w) := iframe_node (container (inst w)))\<rparr>,
         inst := (inst w)\<lparr>doom_iframe := Some (next_eid (wdom w))\<rparr>,
         wtimers := set_timeout 100 AnimateIn (wtimers w)\<rparr>)"
  using assms
  by (simp add: render_doom_iframe_def create_iframe_element_def Let_def append_child_leaf dom_defs
      empty_node_def iframe_node_def iframe_class_tokens cong: eval_congs)

lemma wf_render:
  assumes wf: "wf_dom d" and c: "c < next_eid d" and b: "b < next_eid d" and cb: "c \<noteq> b"
    and pb: "parent (nodes d b) = None" and rb: "doc_root d \<noteq> b"
  defines "D \<equiv> d\<lparr>next_eid := Suc (next_eid d),
           nodes := (nodes d)
             (c := nodes d c\<lparr>children := children (nodes d c) @ [next_eid d, b]\<rparr>,
              b := nodes d b\<lparr>parent := Some c\<rparr>,
              next_eid d := iframe_node c)\<rparr>"
  shows "wf_dom D"
proof -
  let ?N = "next_eid d"
  note old = wf_dom_link [OF wf] and ca = wf_dom_child_alloc [OF wf]
    and pa = wf_dom_parent_alloc [OF wf]
  have bnot: "b \<notin> set (children (nodes d p))" if "p < ?N" for p
    using old [OF b that] pb by simp
  have Nnot: "?N \<notin> set (children (nodes d p))" if "p < ?N" for p
    using ca [OF that] by blast
  have nd: "nodes D y = (if y = ?N then iframe_node c else if y = b then nodes d b\<lparr>parent := Some c\<rparr>
      else if y = c then nodes d c\<lparr>children := children (nodes d c) @ [?N, b]\<rparr> else nodes d y)" for y
    using c b cb by (simp add: D_def)
  have n: "next_eid D = Suc ?N" and r: "doc_root D = doc_root d" by (simp_all add: D_def)
  show ?thesis
  proof (rule wf_domI)
    fix x p assume "x < next_eid D" "p < next_eid D"
    then have x: "x < Suc ?N" and p: "p < Suc ?N" by (simp_all add: n)
    show "parent (nodes D x) = Some p \<longleftrightarrow> x \<in> set (children (nodes D p))"
      using x p old [of x p] bnot [of p] Nnot [of p] pa [of x p] c b cb
      by (auto simp: nd iframe_node_def less_Suc_eq)
  next
    fix x y assume "x < next_eid D" "y \<in> set (children (nodes D x))"
    then show "y < next_eid D"
      using ca [of x y] c b by (auto simp: nd n iframe_node_def less_Suc_eq split: if_splits)
  next
    fix x p assume "x < next_eid D" "parent (nodes D x) = Some p"
    then show "p < next_eid D"
      using pa [of x p] c by (auto simp: nd n iframe_node_def less_Suc_eq split: if_splits)
  next
    fix x assume "x < next_eid D"
    then show "distinct (children (nodes D x))"
      using wf_dom_distinct [OF wf, of x] wf_dom_distinct [OF wf c] bnot [OF c] Nnot [OF c] b
      by (auto simp: nd n iframe_node_def less_Suc_eq)
  next
    show "doc_root D < next_eid D" using wf_dom_root [OF wf] by (simp add: n r)
  next
    show "parent (nodes D (doc_root D)) = None"
      using wf_dom_root [OF wf] rb c by (auto simp: nd r iframe_node_def)
  qed
qed


lemma render_keeps_flag:
  "render_doom_iframe w = Inr w' \<Longrightarrow> control_view_rendered (inst w') = control_view_rendered (inst w)"
  by (auto simp: render_doom_iframe_def create_iframe_element_def Let_def bindE_eq_Inr
      split: prod.splits)

end
