(* ===== verification/Lifecycle.thy ===== *)
theory Lifecycle
  imports Widget
begin

text \<open>
  The host framework's contract (spec section 6) and the browser's event loop, as a
  step function on the whole system: the framework calls \<open>init\<close> once with a container
  element already in the page, then \<open>updateView\<close> and \<open>getOutputs\<close> any number of times,
  then \<open>destroy\<close>; the user may click the boss key while it is in the document; the
  event loop runs the earliest due timer, or lets time pass up to it. These calls and
  events interleave in any order, so the reachable states are an inductive predicate
  over every enabled event. The widget invariant \<open>widget_inv\<close> records how the
  instance's fields, the document and the timer queue agree; every step keeps it, and
  with it no handler and no timer callback ever raises.
\<close>

datatype phase = Constructed | Live | Destroyed

record sys =
  wld :: world
  phase :: phase

datatype event =
    EvInit ctx eid      \<comment> \<open>the framework calls init with its container element\<close>
  | EvUpdate ctx        \<comment> \<open>the framework calls updateView\<close>
  | EvOutputs           \<comment> \<open>the framework calls getOutputs\<close>
  | EvDestroy           \<comment> \<open>the framework calls destroy\<close>
  | EvClick             \<comment> \<open>the user clicks the boss key\<close>
  | EvTimer             \<comment> \<open>the event loop runs the next due timer\<close>
  | EvWait ms           \<comment> \<open>time passes without a timer becoming due\<close>

definition timer_step :: "world \<Rightarrow> js_error + world" where
  "timer_step w =
     (case next_timer (wtimers w) of
        None \<Rightarrow> Inr w
      | Some (a, t) \<Rightarrow> run_action a (w\<lparr>wtimers := t\<rparr>))"

fun step :: "event \<Rightarrow> sys \<Rightarrow> js_error + sys" where
  "step (EvInit c r) s = map_sum id (\<lambda>w. \<lparr>wld = w, phase = Live\<rparr>) (init c r (wld s))"
| "step (EvUpdate c) s = map_sum id (\<lambda>w. s\<lparr>wld := w\<rparr>) (update_view c (wld s))"
| "step EvOutputs s = (let outputs = get_outputs (wld s) in Inr s)"
| "step EvDestroy s = Inr \<lparr>wld = destroy (wld s), phase = Destroyed\<rparr>"
| "step EvClick s =
     map_sum id (\<lambda>w. s\<lparr>wld := w\<rparr>) (dispatch_click (boss_key (inst (wld s))) (wld s))"
| "step EvTimer s = map_sum id (\<lambda>w. s\<lparr>wld := w\<rparr>) (timer_step (wld s))"
| "step (EvWait k) s = Inr (s\<lparr>wld := (wld s)\<lparr>wtimers := wait k (wtimers (wld s))\<rparr>\<rparr>)"

fun enabled :: "sys \<Rightarrow> event \<Rightarrow> bool" where
  "enabled s (EvInit c r) \<longleftrightarrow>
     phase s = Constructed \<and> r < next_eid (wdom (wld s)) \<and> attached (wdom (wld s)) r"
| "enabled s (EvUpdate c) \<longleftrightarrow> phase s = Live"
| "enabled s EvOutputs \<longleftrightarrow> phase s = Live"
| "enabled s EvDestroy \<longleftrightarrow> phase s = Live"
| "enabled s EvClick \<longleftrightarrow> phase s = Live \<and> attached (wdom (wld s)) (boss_key (inst (wld s)))"
| "enabled s EvTimer \<longleftrightarrow> queue (wtimers (wld s)) \<noteq> []"
| "enabled s (EvWait k) \<longleftrightarrow> can_wait k (wtimers (wld s))"

text \<open>
  The page the widget is put into: any well-formed document in which no element has
  the id the widget's textarea takes. The instance's fields are undefined before
  \<open>init\<close>; \<open>undefined_widget\<close> stands for that.
\<close>

definition page_ok :: "handler dom \<Rightarrow> bool" where
  "page_ok d \<longleftrightarrow> wf_dom d \<and> (\<forall>y\<in>{..<next_eid d}. html_id (nodes d y) \<noteq> Some serious_id)"

definition undefined_widget :: widget where
  "undefined_widget = \<lparr>wcontext = \<lparr>doom_raw = None\<rparr>, root_container = 0, container = 0,
     boss_key = 0, control_view_rendered = False, doom_iframe = None\<rparr>"

definition start :: "handler dom \<Rightarrow> sys" where
  "start d = \<lparr>wld = \<lparr>wdom = d, wtimers = \<lparr>clock = 0, queue = []\<rparr>, inst = undefined_widget\<rparr>,
              phase = Constructed\<rparr>"

inductive reach :: "handler dom \<Rightarrow> sys \<Rightarrow> bool" for d0 where
  reach_start: "page_ok d0 \<Longrightarrow> reach d0 (start d0)"
| reach_step: "reach d0 s \<Longrightarrow> enabled s e \<Longrightarrow> step e s = Inr s' \<Longrightarrow> reach d0 s'"

subsection \<open>The widget invariant\<close>

text \<open>
  Names for the nodes the instance owns: \<open>init\<close> creates the container, the boss key
  and the textarea in this order, so the textarea is the node after the boss key.
\<close>

definition textarea_of :: "world \<Rightarrow> eid" where
  "textarea_of w = Suc (boss_key (inst w))"

text \<open>The host's part of the page: the root container stays where the host put it.\<close>

definition host_ok :: "world \<Rightarrow> bool" where
  "host_ok w \<longleftrightarrow>
     (let d = wdom w; r = root_container (inst w); c = container (inst w) in
      wf_dom d \<and> r < c \<and> doc_root d < c \<and>
      (r = doc_root d \<or> doc_root d \<in> set (anc c d r)) \<and> set (anc c d r) \<subseteq> {..<c})"

text \<open>The decoy textarea and the boss key, as \<open>init\<close> leaves them.\<close>

definition decoy_ok :: "world \<Rightarrow> bool" where
  "decoy_ok w \<longleftrightarrow>
     (let d = wdom w; i = inst w; t = textarea_of w in
      boss_key i = Suc (container i) \<and> t < next_eid d \<and>
      parent (nodes d t) = Some (root_container i) \<and> children (nodes d t) = [] \<and>
      html_id (nodes d t) = Some serious_id \<and>
      (\<forall>y\<in>{..<next_eid d}. html_id (nodes d y) = Some serious_id \<longrightarrow> y = t) \<and>
      children (nodes d (boss_key i)) = [] \<and>
      listeners (nodes d (boss_key i)) = [(''click'', OnBossKeyClick)])"

text \<open>Before the trigger value arrives: nothing rendered, nothing scheduled.\<close>

definition pre_render_ok :: "world \<Rightarrow> bool" where
  "pre_render_ok w \<longleftrightarrow>
     (let d = wdom w; i = inst w; c = container i in
      parent (nodes d c) = Some (root_container i) \<and> children (nodes d c) = [] \<and>
      parent (nodes d (boss_key i)) = None \<and> doom_iframe i = None \<and>
      style (nodes d (textarea_of w)) ''display'' = None \<and> queue (wtimers w) = [])"

text \<open>
  After it: the frame and the boss key are the container's children; either the
  container is in the page and the textarea hidden, or the container has been removed
  and the textarea shown again; only the three callbacks of this frame are pending.
\<close>

definition post_render_ok :: "world \<Rightarrow> bool" where
  "post_render_ok w \<longleftrightarrow>
     (let d = wdom w; i = inst w; c = container i; t = textarea_of w in
      case doom_iframe i of
        None \<Rightarrow> False
      | Some f \<Rightarrow>
          t < f \<and> f < next_eid d \<and> children (nodes d c) = [f, boss_key i] \<and>
          parent (nodes d f) = Some c \<and> parent (nodes d (boss_key i)) = Some c \<and>
          children (nodes d f) = [] \<and> iframe_class \<in> set (class_list (nodes d f)) \<and>
          attrs (nodes d f) ''src'' = Some doom_src \<and>
          ((parent (nodes d c) = Some (root_container i) \<and> style (nodes d t) ''display'' = Some ''none'') \<or>
           (parent (nodes d c) = None \<and> style (nodes d t) ''display'' = Some ''block'')) \<and>
          list_all (\<lambda>(m, a). a = AnimateIn \<or> a = FlyOut f \<or> a = RemoveContainer) (queue (wtimers w)))"

definition widget_inv :: "world \<Rightarrow> bool" where
  "widget_inv w \<longleftrightarrow> host_ok w \<and> decoy_ok w \<and>
     (if control_view_rendered (inst w) then post_render_ok w else pre_render_ok w)"

definition sys_inv :: "sys \<Rightarrow> bool" where
  "sys_inv s \<longleftrightarrow>
     (if phase s = Constructed
      then page_ok (wdom (wld s)) \<and> queue (wtimers (wld s)) = [] \<and> doom_iframe (inst (wld s)) = None
      else widget_inv (wld s))"

subsection \<open>Establishing the invariant\<close>

lemma host_ok_frame:
  assumes h: "host_ok w" and wf: "wf_dom (wdom w')"
    and r: "root_container (inst w') = root_container (inst w)"
    and c: "container (inst w') = container (inst w)"
    and dr: "doc_root (wdom w') = doc_root (wdom w)"
    and par: "\<And>y. y < container (inst w) \<Longrightarrow> parent (nodes (wdom w') y) = parent (nodes (wdom w) y)"
  shows "host_ok w'"
proof -
  let ?d = "wdom w" and ?r = "root_container (inst w)" and ?c = "container (inst w)"
  from h have below: "?r < ?c" "set (anc ?c ?d ?r) \<subseteq> {..<?c}"
    by (simp_all add: host_ok_def Let_def)
  have "anc ?c (wdom w') ?r = anc ?c ?d ?r"
    by (rule anc_frame) (use below par in auto)
  with h wf show ?thesis by (simp add: host_ok_def Let_def r c dr)
qed

lemma inv_init:
  assumes p: "page_ok (wdom w)" and q: "queue (wtimers w) = []" and n: "doom_iframe (inst w) = None"
    and r: "r < next_eid (wdom w)" and a: "attached (wdom w) r"
    and i: "init ctx r w = Inr w'"
  shows "widget_inv w'"
proof -
  let ?d = "wdom w" and ?N = "next_eid (wdom w)"
  note e = init_Inr_nodes [OF r i]
  from p have wf: "wf_dom ?d" and fresh: "\<And>y. y < ?N \<Longrightarrow> html_id (nodes ?d y) \<noteq> Some serious_id"
    by (auto simp: page_ok_def)
  have wf': "wf_dom (wdom w')" by (rule wf_init [OF wf r i])
  have chain: "set (anc ?N ?d r) \<subseteq> {..<?N}" by (rule anc_alloc [OF wf r])
  have same_anc: "anc ?N (wdom w') r = anc ?N ?d r"
    by (rule anc_frame) (use chain r in \<open>auto simp: e(5)\<close>)
  have root: "doc_root ?d < ?N" using wf_dom_root [OF wf] by simp
  have host: "host_ok w'"
    using wf' r root a chain same_anc by (simp add: host_ok_def attached_def e)
  have decoy: "decoy_ok w'"
    using fresh r by (auto simp: decoy_ok_def textarea_of_def e eval_nat_numeral less_Suc_eq)
  have pre: "pre_render_ok w'"
    using q n r by (simp add: pre_render_ok_def textarea_of_def e)
  from host decoy pre show ?thesis by (simp add: widget_inv_def e)
qed

subsection \<open>The decoy textarea\<close>

lemma textarea_attached:
  assumes h: "host_ok w" and t: "decoy_ok w"
  shows "attached (wdom w) (textarea_of w)"
proof -
  let ?d = "wdom w" and ?r = "root_container (inst w)" and ?c = "container (inst w)"
  from t have pt: "parent (nodes ?d (textarea_of w)) = Some ?r"
    and lt: "textarea_of w < next_eid ?d" and b: "boss_key (inst w) = Suc ?c"
    by (simp_all add: decoy_ok_def Let_def)
  then obtain k where k: "next_eid ?d = Suc k" and ck: "?c \<le> k"
    by (cases "next_eid ?d") (auto simp: textarea_of_def)
  from h have "?r = doc_root ?d \<or> doc_root ?d \<in> set (anc ?c ?d ?r)"
    by (simp add: host_ok_def Let_def)
  then have "?r = doc_root ?d \<or> doc_root ?d \<in> set (anc k ?d ?r)"
    using anc_mono [OF ck] by blast
  with pt k show ?thesis by (auto simp: attached_def)
qed

lemma textarea_found:
  assumes h: "host_ok w" and t: "decoy_ok w"
  shows "get_element_by_id (wdom w) serious_id = Some (textarea_of w)"
proof -
  from h have wf: "wf_dom (wdom w)" by (simp add: host_ok_def Let_def)
  from t have "textarea_of w < next_eid (wdom w)"
    "html_id (nodes (wdom w) (textarea_of w)) = Some serious_id"
    "\<And>y. y < next_eid (wdom w) \<Longrightarrow> html_id (nodes (wdom w) y) = Some serious_id \<Longrightarrow> y = textarea_of w"
    by (simp_all add: decoy_ok_def Let_def)
  with wf textarea_attached [OF h t] show ?thesis by (intro get_element_by_id_unique)
qed

lemma widget_inv_textarea:
  "widget_inv w \<Longrightarrow> get_element_by_id (wdom w) serious_id = Some (textarea_of w)"
  by (simp add: widget_inv_def textarea_found)

subsection \<open>updateView keeps the invariant\<close>

lemma widget_invD:
  assumes "widget_inv w"
  shows "wf_dom (wdom w)" "root_container (inst w) < container (inst w)"
    "doc_root (wdom w) < container (inst w)"
    "boss_key (inst w) = Suc (container (inst w))" "textarea_of w = Suc (Suc (container (inst w)))"
    "textarea_of w < next_eid (wdom w)"
    "parent (nodes (wdom w) (textarea_of w)) = Some (root_container (inst w))"
    "children (nodes (wdom w) (boss_key (inst w))) = []"
    "get_element_by_id (wdom w) serious_id = Some (textarea_of w)"
proof -
  from assms have h: "host_ok w" and dk: "decoy_ok w" by (simp_all add: widget_inv_def)
  from h show "wf_dom (wdom w)" "root_container (inst w) < container (inst w)"
    "doc_root (wdom w) < container (inst w)" by (simp_all add: host_ok_def Let_def)
  from dk show b: "boss_key (inst w) = Suc (container (inst w))"
    and "textarea_of w < next_eid (wdom w)"
    and "parent (nodes (wdom w) (textarea_of w)) = Some (root_container (inst w))"
    and "children (nodes (wdom w) (boss_key (inst w))) = []"
    unfolding decoy_ok_def Let_def by blast+
  from b show "textarea_of w = Suc (Suc (container (inst w)))" by (simp add: textarea_of_def)
  from h dk show "get_element_by_id (wdom w) serious_id = Some (textarea_of w)" by (rule textarea_found)
qed

lemma decoy_okD:
  assumes "decoy_ok w"
  shows "boss_key (inst w) = Suc (container (inst w))"
    and "textarea_of w < next_eid (wdom w)"
    and "parent (nodes (wdom w) (textarea_of w)) = Some (root_container (inst w))"
    and "children (nodes (wdom w) (textarea_of w)) = []"
    and "html_id (nodes (wdom w) (textarea_of w)) = Some serious_id"
    and "\<forall>y\<in>{..<next_eid (wdom w)}. html_id (nodes (wdom w) y) = Some serious_id \<longrightarrow> y = textarea_of w"
    and "children (nodes (wdom w) (boss_key (inst w))) = []"
    and "listeners (nodes (wdom w) (boss_key (inst w))) = [(''click'', OnBossKeyClick)]"
  using assms unfolding decoy_ok_def Let_def by blast+

lemma reveal_render:
  assumes nr: "\<not> control_view_rendered (inst w)" and five: "doom_raw ctx = Some 5"
    and found: "get_element_by_id (wdom w) serious_id = Some t"
    and lt: "container (inst w) < next_eid (wdom w)" "boss_key (inst w) < next_eid (wdom w)"
      "t < next_eid (wdom w)"
    and ne: "container (inst w) \<noteq> boss_key (inst w)" "t \<noteq> container (inst w)" "t \<noteq> boss_key (inst w)"
    and bk: "children (nodes (wdom w) (boss_key (inst w))) = []" "parent (nodes (wdom w) (boss_key (inst w))) = None"
  obtains w' where "update_view ctx w = Inr w'"
    "inst w' = (inst w)\<lparr>control_view_rendered := True, doom_iframe := Some (next_eid (wdom w))\<rparr>"
    "doc_root (wdom w') = doc_root (wdom w)" "next_eid (wdom w') = Suc (next_eid (wdom w))"
    "wtimers w' = set_timeout 100 AnimateIn (wtimers w)"
    "\<And>y. nodes (wdom w') y =
       (if y = next_eid (wdom w) then iframe_node (container (inst w))
        else if y = boss_key (inst w) then nodes (wdom w) y\<lparr>parent := Some (container (inst w))\<rparr>
        else if y = container (inst w) then nodes (wdom w) y\<lparr>children :=
               children (nodes (wdom w) y) @ [next_eid (wdom w), boss_key (inst w)]\<rparr>
        else if y = t then (nodes (wdom w) y)\<lparr>style := (style (nodes (wdom w) y))(''display'' \<mapsto> ''none'')\<rparr>
        else nodes (wdom w) y)"
proof -
  let ?d = "wdom w" and ?c = "container (inst w)" and ?b = "boss_key (inst w)" and ?N = "next_eid (wdom w)"
  define w1 where "w1 = w\<lparr>inst := (inst w)\<lparr>control_view_rendered := True\<rparr>,
                            wdom := set_style t ''display'' ''none'' ?d\<rparr>"
  have uv: "update_view ctx w = render_doom_iframe w1"
    using nr five found by (simp add: update_view_def w1_def)
  have fw1: "container (inst w1) = ?c" "boss_key (inst w1) = ?b" "next_eid (wdom w1) = ?N"
    by (simp_all add: w1_def set_style_nodes)
  have "children (nodes (wdom w1) ?b) = []" "parent (nodes (wdom w1) ?b) = None"
    using bk ne by (simp_all add: w1_def set_style_nodes)
  with render_eq [of w1] lt ne uv fw1 have "update_view ctx w = Inr (w1\<lparr>wdom := (wdom w1)\<lparr>next_eid := Suc ?N,
           nodes := (nodes (wdom w1))
             (?c := nodes (wdom w1) ?c\<lparr>children := children (nodes (wdom w1) ?c) @ [?N, ?b]\<rparr>,
              ?b := nodes (wdom w1) ?b\<lparr>parent := Some ?c\<rparr>,
              ?N := iframe_node ?c)\<rparr>,
         inst := (inst w1)\<lparr>doom_iframe := Some ?N\<rparr>,
         wtimers := set_timeout 100 AnimateIn (wtimers w1)\<rparr>)" by simp
  then show ?thesis
    using that lt ne by (simp add: w1_def set_style_nodes)
qed

lemma reveal_step:
  assumes inv: "widget_inv w" and rv: "\<not> control_view_rendered (inst w)" "doom_raw ctx = Some 5"
  obtains w' where "update_view ctx w = Inr w'"
    "inst w' = (inst w)\<lparr>control_view_rendered := True, doom_iframe := Some (next_eid (wdom w))\<rparr>"
    "doc_root (wdom w') = doc_root (wdom w)" "next_eid (wdom w') = Suc (next_eid (wdom w))"
    "wtimers w' = set_timeout 100 AnimateIn (wtimers w)" "wf_dom (wdom w')"
    "\<And>y. nodes (wdom w') y =
       (if y = next_eid (wdom w) then iframe_node (container (inst w))
        else if y = boss_key (inst w) then nodes (wdom w) y\<lparr>parent := Some (container (inst w))\<rparr>
        else if y = container (inst w) then nodes (wdom w) y\<lparr>children := [next_eid (wdom w), boss_key (inst w)]\<rparr>
        else if y = textarea_of w then (nodes (wdom w) y)\<lparr>style := (style (nodes (wdom w) y))(''display'' \<mapsto> ''none'')\<rparr>
        else nodes (wdom w) y)"
proof -
  let ?d = "wdom w" and ?c = "container (inst w)" and ?b = "boss_key (inst w)"
    and ?t = "textarea_of w" and ?N = "next_eid (wdom w)"
  note I = widget_invD [OF inv]
  from inv rv have cc: "children (nodes ?d ?c) = []" and pb: "parent (nodes ?d ?b) = None"
    by (simp_all add: widget_inv_def pre_render_ok_def Let_def)
  obtain w' where uv: "update_view ctx w = Inr w'"
    and i': "inst w' = (inst w)\<lparr>control_view_rendered := True, doom_iframe := Some ?N\<rparr>"
    and dn: "doc_root (wdom w') = doc_root ?d" "next_eid (wdom w') = Suc ?N"
    and tm: "wtimers w' = set_timeout 100 AnimateIn (wtimers w)"
    and nd: "\<And>y. nodes (wdom w') y =
       (if y = ?N then iframe_node ?c else if y = ?b then nodes ?d y\<lparr>parent := Some ?c\<rparr>
        else if y = ?c then nodes ?d y\<lparr>children := children (nodes ?d y) @ [?N, ?b]\<rparr>
        else if y = ?t then (nodes ?d y)\<lparr>style := (style (nodes ?d y))(''display'' \<mapsto> ''none'')\<rparr>
        else nodes ?d y)"
    by (rule reveal_render [OF rv I(9)]) (use I(4-6,8) pb in simp_all)
  have wf': "wf_dom (wdom w')"
  proof -
    have wf1: "wf_dom (set_style ?t ''display'' ''none'' ?d)" by (simp add: same_tree_wf [OF same_tree_ops(1)] I(1))
    have "wdom w' = (set_style ?t ''display'' ''none'' ?d)\<lparr>next_eid := Suc ?N,
           nodes := (nodes (set_style ?t ''display'' ''none'' ?d))
             (?c := nodes (set_style ?t ''display'' ''none'' ?d) ?c\<lparr>children := children (nodes ?d ?c) @ [?N, ?b]\<rparr>,
              ?b := nodes (set_style ?t ''display'' ''none'' ?d) ?b\<lparr>parent := Some ?c\<rparr>,
              ?N := iframe_node ?c)\<rparr>"
      using I(4-6) dn by (intro dom.equality) (auto simp: nd set_style_nodes)
    then show ?thesis using wf_render [OF wf1, of ?c ?b] I(3-6) pb by (simp add: set_style_nodes)
  qed
  from that [OF uv i' dn tm wf'] nd cc show ?thesis by simp
qed
lemma reveal_fields:
  assumes inv: "widget_inv w" and rv: "\<not> control_view_rendered (inst w)"
  defines "c \<equiv> container (inst w)" and "b \<equiv> boss_key (inst w)" and "t \<equiv> textarea_of w"
    and "N \<equiv> next_eid (wdom w)"
  assumes nd: "\<And>y. nodes d' y =
       (if y = N then iframe_node c else if y = b then nodes (wdom w) y\<lparr>parent := Some c\<rparr>
        else if y = c then nodes (wdom w) y\<lparr>children := [N, b]\<rparr>
        else if y = t then (nodes (wdom w) y)\<lparr>style := (style (nodes (wdom w) y))(''display'' \<mapsto> ''none'')\<rparr>
        else nodes (wdom w) y)"
  shows "parent (nodes d' y) = (if y = N \<or> y = b then Some c else parent (nodes (wdom w) y))"
    and "children (nodes d' y) = (if y = N then [] else if y = c then [N, b] else children (nodes (wdom w) y))"
    and "html_id (nodes d' y) = (if y = N then None else html_id (nodes (wdom w) y))"
    and "listeners (nodes d' y) = (if y = N then [] else listeners (nodes (wdom w) y))"
    and "style (nodes d' t) ''display'' = Some ''none''"
    and "iframe_class \<in> set (class_list (nodes d' N))" "attrs (nodes d' N) ''src'' = Some doom_src"
proof -
  note I = widget_invD [OF inv]
  have dist: "c < b" "b < t" "t < N" using I(4-6) by (simp_all add: c_def b_def t_def N_def)
  from dist show "parent (nodes d' y) = (if y = N \<or> y = b then Some c else parent (nodes (wdom w) y))"
    and "children (nodes d' y) = (if y = N then [] else if y = c then [N, b] else children (nodes (wdom w) y))"
    and "html_id (nodes d' y) = (if y = N then None else html_id (nodes (wdom w) y))"
    and "listeners (nodes d' y) = (if y = N then [] else listeners (nodes (wdom w) y))"
    and "style (nodes d' t) ''display'' = Some ''none''"
    and "iframe_class \<in> set (class_list (nodes d' N))" "attrs (nodes d' N) ''src'' = Some doom_src"
    by (simp_all add: nd iframe_node_def)
qed

lemma reveal_inv:
  assumes inv: "widget_inv w" and rv: "\<not> control_view_rendered (inst w)" "doom_raw ctx = Some 5"
  shows "\<exists>w'. update_view ctx w = Inr w' \<and> widget_inv w'"
proof -
  let ?d = "wdom w" and ?c = "container (inst w)" and ?b = "boss_key (inst w)"
    and ?t = "textarea_of w" and ?r = "root_container (inst w)" and ?N = "next_eid (wdom w)"
  note I = widget_invD [OF inv]
  from inv rv have h: "host_ok w" and dk: "decoy_ok w" and pre: "pre_render_ok w"
    by (simp_all add: widget_inv_def)
  from pre have pc: "parent (nodes ?d ?c) = Some ?r" and cc: "children (nodes ?d ?c) = []"
    and pb: "parent (nodes ?d ?b) = None" and q: "queue (wtimers w) = []"
    by (simp_all add: pre_render_ok_def Let_def)
  obtain w' where uv: "update_view ctx w = Inr w'"
    and i': "inst w' = (inst w)\<lparr>control_view_rendered := True, doom_iframe := Some ?N\<rparr>"
    and dn': "doc_root (wdom w') = doc_root ?d" "next_eid (wdom w') = Suc ?N"
    and tm': "wtimers w' = set_timeout 100 AnimateIn (wtimers w)" and wf': "wf_dom (wdom w')"
    and nd: "\<And>y. nodes (wdom w') y =
       (if y = ?N then iframe_node ?c else if y = ?b then nodes ?d y\<lparr>parent := Some ?c\<rparr>
        else if y = ?c then nodes ?d y\<lparr>children := [?N, ?b]\<rparr>
        else if y = ?t then (nodes ?d y)\<lparr>style := (style (nodes ?d y))(''display'' \<mapsto> ''none'')\<rparr>
        else nodes ?d y)"
    by (rule reveal_step [OF inv rv]) blast
  have same: "root_container (inst w') = ?r" "container (inst w') = ?c" "boss_key (inst w') = ?b"
    "textarea_of w' = ?t" "doom_iframe (inst w') = Some ?N" "control_view_rendered (inst w')"
    "queue (wtimers w') = [(clock (wtimers w) + 100, AnimateIn)]"
    using q i' tm' by (simp_all add: textarea_of_def)
  have dist: "?c < ?b" "?b < ?t" "?t < ?N" "?r < ?c" using I(2,4-6) by simp_all
  note F = reveal_fields [OF inv rv(1) nd]
  have host: "host_ok w'"
  proof (rule host_ok_frame [OF h])
    show "wf_dom (wdom w')" using wf' by simp
    fix y assume "y < ?c"
    with dist show "parent (nodes (wdom w') y) = parent (nodes ?d y)" by (simp add: F(1))
  qed (simp_all add: same dn')
  have decoy: "decoy_ok w'"
  proof -
    have uniq: "\<forall>y\<in>{..<next_eid (wdom w')}. html_id (nodes (wdom w') y) = Some serious_id \<longrightarrow> y = ?t"
      using decoy_okD(6) [OF dk] dn' by (auto simp: F(3) less_Suc_eq)
    show ?thesis
      unfolding decoy_ok_def Let_def same
      using uniq dist decoy_okD(1-5,7,8) [OF dk] dn' by (simp add: same F(1) F(2) F(3) F(4))
  qed
  have post: "post_render_ok w'"
    using dist pc dn' by (simp add: post_render_ok_def Let_def same F(1) F(2) F(5) F(6,7))
  from host decoy post same(6) have "widget_inv w'" by (simp add: widget_inv_def)
  with uv show ?thesis by blast
qed

lemma update_view_inv:
  assumes inv: "widget_inv w"
  shows "\<exists>w'. update_view ctx w = Inr w' \<and> widget_inv w'"
proof (cases "\<not> control_view_rendered (inst w) \<and> doom_raw ctx = Some 5")
  case False
  then have "update_view ctx w = Inr w" by (auto simp: update_view_def)
  with inv show ?thesis by blast
next
  case True
  then show ?thesis using reveal_inv [OF inv] by blast
qed


subsection \<open>The click handler and the timer callbacks keep the invariant\<close>

lemma host_ok_restyle:
  assumes "host_ok w"
  shows "host_ok (w\<lparr>wdom := set_style x k v (wdom w)\<rparr>)"
proof (rule host_ok_frame [OF assms])
  show "wf_dom (wdom (w\<lparr>wdom := set_style x k v (wdom w)\<rparr>))"
    using assms by (simp add: host_ok_def Let_def same_tree_wf [OF same_tree_ops(1)])
next
  fix y
  show "parent (nodes (wdom (w\<lparr>wdom := set_style x k v (wdom w)\<rparr>)) y) = parent (nodes (wdom w) y)"
    by (simp add: set_style_nodes)
qed (simp_all add: set_style_nodes)

lemma decoy_ok_frame:
  assumes dk: "decoy_ok w" and i: "inst w' = inst w" and n: "next_eid (wdom w') = next_eid (wdom w)"
    and pt: "parent (nodes (wdom w') (textarea_of w)) = parent (nodes (wdom w) (textarea_of w))"
    and ct: "children (nodes (wdom w') (textarea_of w)) = children (nodes (wdom w) (textarea_of w))"
    and cb: "children (nodes (wdom w') (boss_key (inst w))) = children (nodes (wdom w) (boss_key (inst w)))"
    and lb: "listeners (nodes (wdom w') (boss_key (inst w))) = listeners (nodes (wdom w) (boss_key (inst w)))"
    and hid: "\<And>y. html_id (nodes (wdom w') y) = html_id (nodes (wdom w) y)"
  shows "decoy_ok w'"
proof -
  have t: "textarea_of w' = textarea_of w" using i by (simp add: textarea_of_def)
  show ?thesis
    using dk unfolding decoy_ok_def Let_def t i n pt ct cb lb hid .
qed

lemma decoy_ok_restyle:
  "decoy_ok w \<Longrightarrow> decoy_ok (w\<lparr>wdom := set_style x k v (wdom w)\<rparr>)"
  by (rule decoy_ok_frame) (auto simp: set_style_nodes)

lemma post_render_ok_restyle:
  "post_render_ok w \<Longrightarrow> x \<noteq> textarea_of w \<Longrightarrow> post_render_ok (w\<lparr>wdom := set_style x k v (wdom w)\<rparr>)"
  unfolding post_render_ok_def Let_def textarea_of_def
  by (auto simp: set_style_nodes split: option.splits)

lemma widget_inv_restyle:
  assumes "widget_inv w" "control_view_rendered (inst w)" "x \<noteq> textarea_of w"
  shows "widget_inv (w\<lparr>wdom := set_style x k v (wdom w)\<rparr>)"
  using assms host_ok_restyle decoy_ok_restyle post_render_ok_restyle
  by (simp add: widget_inv_def)

lemma widget_inv_timers:
  assumes "widget_inv w" "control_view_rendered (inst w)" "doom_iframe (inst w) = Some f"
    and "list_all (\<lambda>(m, a). a = AnimateIn \<or> a = FlyOut f \<or> a = RemoveContainer) (queue t)"
  shows "widget_inv (w\<lparr>wtimers := t\<rparr>)"
proof -
  have "host_ok (w\<lparr>wtimers := t\<rparr>) = host_ok w" "decoy_ok (w\<lparr>wtimers := t\<rparr>) = decoy_ok w"
    by (simp_all add: host_ok_def decoy_ok_def textarea_of_def)
  moreover have "post_render_ok (w\<lparr>wtimers := t\<rparr>)"
    using assms by (simp add: widget_inv_def post_render_ok_def textarea_of_def Let_def)
  ultimately show ?thesis using assms(1,2) by (simp add: widget_inv_def)
qed

lemma textarea_of_upd [simp]:
  "textarea_of (w\<lparr>wdom := d\<rparr>) = textarea_of w" "textarea_of (w\<lparr>wtimers := t\<rparr>) = textarea_of w"
  by (simp_all add: textarea_of_def)

lemma boss_key_attached:
  assumes inv: "widget_inv w" and att: "attached (wdom w) (boss_key (inst w))"
  shows "control_view_rendered (inst w) \<and>
         parent (nodes (wdom w) (container (inst w))) = Some (root_container (inst w))"
proof -
  let ?d = "wdom w" and ?b = "boss_key (inst w)" and ?c = "container (inst w)"
  note I = widget_invD [OF inv]
  have lt: "doc_root ?d < ?c" "?c < ?b" "?b < next_eid ?d" using I(3-6) by simp_all
  then obtain k where k: "next_eid ?d = Suc k" by (cases "next_eid ?d") simp_all
  from att lt have root_in: "doc_root ?d \<in> set (anc (Suc k) ?d ?b)" by (simp add: attached_def k)
  show ?thesis
  proof (cases "control_view_rendered (inst w)")
    case False
    with inv have "parent (nodes ?d ?b) = None" by (simp add: widget_inv_def pre_render_ok_def Let_def)
    with root_in show ?thesis by simp
  next
    case True
    with inv have pb: "parent (nodes ?d ?b) = Some ?c"
      and pc: "parent (nodes ?d ?c) = Some (root_container (inst w)) \<or> parent (nodes ?d ?c) = None"
      by (auto simp: widget_inv_def post_render_ok_def Let_def split: option.splits)
    have "parent (nodes ?d ?c) \<noteq> None"
    proof
      assume "parent (nodes ?d ?c) = None"
      with pb have an: "anc (Suc k) ?d ?b = [?c]" by (cases k) simp_all
      from root_in lt show False unfolding an by simp
    qed
    with pc True show ?thesis by simp
  qed
qed

lemma click_inv:
  assumes inv: "widget_inv w" and att: "attached (wdom w) (boss_key (inst w))"
  shows "\<exists>w' f. dispatch_click (boss_key (inst w)) w = Inr w' \<and> widget_inv w' \<and>
           inst w' = inst w \<and> doom_iframe (inst w) = Some f \<and>
           queue (wtimers w') = queue (wtimers w) @ [(clock (wtimers w) + 10, FlyOut f)] \<and>
           same_tree (wdom w') (wdom w) \<and>
           style (nodes (wdom w') (textarea_of w)) = style (nodes (wdom w) (textarea_of w)) \<and>
           (\<forall>k. k \<notin> {''position'', ''left'', ''transition''} \<longrightarrow>
              style (nodes (wdom w') f) k = style (nodes (wdom w) f) k) \<and>
           textarea_of w < f \<and> (\<forall>y. y \<noteq> f \<longrightarrow> nodes (wdom w') y = nodes (wdom w) y)"
proof -
  let ?d = "wdom w" and ?b = "boss_key (inst w)" and ?c = "container (inst w)"
  note I = widget_invD [OF inv]
  from boss_key_attached [OF inv att] have rd: "control_view_rendered (inst w)"
    and pc: "parent (nodes ?d ?c) = Some (root_container (inst w))" by simp_all
  from inv rd have post: "post_render_ok w" by (simp add: widget_inv_def)
  then obtain f where fi: "doom_iframe (inst w) = Some f"
    by (auto simp: post_render_ok_def Let_def split: option.splits)
  from post fi have cc: "children (nodes ?d ?c) = [f, ?b]" and tf: "textarea_of w < f"
    and cl: "iframe_class \<in> set (class_list (nodes ?d f))"
    and q: "list_all (\<lambda>(m, a). a = AnimateIn \<or> a = FlyOut f \<or> a = RemoveContainer) (queue (wtimers w))"
    by (simp_all add: post_render_ok_def Let_def)
  have qs: "query_selector_class ?d ?c iframe_class = Some f"
    by (rule query_selector_first_child [OF I(1) cc cl])
  have lis: "listeners (nodes ?d ?b) = [(''click'', OnBossKeyClick)]"
    using decoy_okD(8) inv by (simp add: widget_inv_def)
  define w1 where "w1 = w\<lparr>wdom := set_style f ''position'' ''relative'' ?d\<rparr>"
  define w2 where "w2 = w1\<lparr>wdom := set_style f ''left'' ''0'' (wdom w1)\<rparr>"
  define w3 where "w3 = w2\<lparr>wdom := set_style f ''transition'' ''left 0.5s ease-in'' (wdom w2)\<rparr>"
  have "widget_inv w3"
    unfolding w3_def w2_def w1_def using inv rd tf
    by (intro widget_inv_restyle) (simp_all add: textarea_of_def)
  then have inv': "widget_inv (w3\<lparr>wtimers := set_timeout 10 (FlyOut f) (wtimers w3)\<rparr>)"
    using rd fi q by (intro widget_inv_timers) (simp_all add: w3_def w2_def w1_def)
  have "dispatch_click ?b w = Inr (w3\<lparr>wtimers := set_timeout 10 (FlyOut f) (wtimers w3)\<rparr>)"
    using lis pc qs by (simp add: dispatch_click_def on_boss_key_click_def w3_def w2_def w1_def)
  moreover have "same_tree (wdom w3) ?d"
    unfolding w3_def w2_def w1_def by (simp add: same_tree_def set_style_nodes)
  moreover have "style (nodes (wdom w3) (textarea_of w)) = style (nodes ?d (textarea_of w))"
    using tf by (simp add: w3_def w2_def w1_def set_style_nodes)
  moreover have "\<forall>k. k \<notin> {''position'', ''left'', ''transition''} \<longrightarrow>
      style (nodes (wdom w3) f) k = style (nodes ?d f) k"
    by (simp add: w3_def w2_def w1_def set_style_nodes)
  moreover have "\<forall>y. y \<noteq> f \<longrightarrow> nodes (wdom w3) y = nodes ?d y"
    by (simp add: w3_def w2_def w1_def set_style_nodes)
  ultimately show ?thesis using inv' fi tf by (auto simp: w3_def w2_def w1_def)
qed

lemma detach_container_ok:
  assumes inv: "widget_inv w"
  shows "host_ok (w\<lparr>wdom := detach (container (inst w)) (wdom w)\<rparr>)"
    and "decoy_ok (w\<lparr>wdom := detach (container (inst w)) (wdom w)\<rparr>)"
proof -
  let ?d = "wdom w" and ?c = "container (inst w)" and ?t = "textarea_of w" and ?b = "boss_key (inst w)"
  define w1 where "w1 = w\<lparr>wdom := detach ?c ?d\<rparr>"
  note I = widget_invD [OF inv]
  from inv have dk: "decoy_ok w" by (simp add: widget_inv_def)
  have wf: "wf_dom ?d" and cN: "?c < next_eid ?d" and bN: "?b < next_eid ?d" and tc: "?t \<noteq> ?c"
    using I by simp_all
  have w1d: "wdom w1 = detach ?c ?d" "inst w1 = inst w"
    by (simp_all add: w1_def)
  have par1: "\<And>y. y < next_eid ?d \<Longrightarrow> parent (nodes (detach ?c ?d) y) = (if y = ?c then None else parent (nodes ?d y))"
    and chi1: "\<And>y. y < next_eid ?d \<Longrightarrow> children (nodes (detach ?c ?d) y) = remove1 ?c (children (nodes ?d y))"
    using detach_fields [OF wf cN] by simp_all
  show "host_ok (w\<lparr>wdom := detach ?c ?d\<rparr>)" unfolding w1_def [symmetric]
  proof (rule host_ok_frame)
    show "host_ok w" using inv by (simp add: widget_inv_def)
    show "wf_dom (wdom w1)" using wf_detach [OF wf cN] by (simp add: w1d)
    fix y assume "y < ?c"
    with cN show "parent (nodes (wdom w1) y) = parent (nodes ?d y)" by (simp add: par1 w1d)
  qed (simp_all add: w1d detach_same)
  show "decoy_ok (w\<lparr>wdom := detach ?c ?d\<rparr>)" unfolding w1_def [symmetric]
  proof (rule decoy_ok_frame [OF dk])
    show "children (nodes (wdom w1) ?t) = children (nodes ?d ?t)"
      using I(6) decoy_okD(4) [OF dk] by (simp add: chi1 w1d)
    show "children (nodes (wdom w1) ?b) = children (nodes ?d ?b)"
      using bN I(8) by (simp add: chi1 w1d)
  qed (simp_all add: w1d detach_same par1 I(6) tc)
qed

lemma remove_container_inv:
  assumes inv: "widget_inv w" and rd: "control_view_rendered (inst w)"
  defines "w' \<equiv> w\<lparr>wdom := set_style (textarea_of w) ''display'' ''block''
                               (detach (container (inst w)) (wdom w))\<rparr>"
  shows "remove_container w = Inr w'" and "widget_inv w'"
proof -
  let ?d = "wdom w" and ?c = "container (inst w)" and ?t = "textarea_of w" and ?b = "boss_key (inst w)"
  define w1 where "w1 = w\<lparr>wdom := detach ?c ?d\<rparr>"
  note I = widget_invD [OF inv]
  from inv have dk: "decoy_ok w" and post: "post_render_ok w" using rd by (simp_all add: widget_inv_def)
  have wf: "wf_dom ?d" and cN: "?c < next_eid ?d" and bN: "?b < next_eid ?d" and tc: "?t \<noteq> ?c"
    using I by simp_all
  have w1d: "wdom w1 = detach ?c ?d" "inst w1 = inst w" "textarea_of w1 = ?t" "wtimers w1 = wtimers w"
    by (simp_all add: w1_def textarea_of_def)
  have par1: "\<And>y. y < next_eid ?d \<Longrightarrow> parent (nodes (detach ?c ?d) y) = (if y = ?c then None else parent (nodes ?d y))"
    and chi1: "\<And>y. y < next_eid ?d \<Longrightarrow> children (nodes (detach ?c ?d) y) = remove1 ?c (children (nodes ?d y))"
    using detach_fields [OF wf cN] by simp_all
  have h1: "host_ok w1" and d1: "decoy_ok w1"
    unfolding w1_def by (rule detach_container_ok [OF inv])+
  have found: "get_element_by_id (detach ?c ?d) serious_id = Some ?t"
    using textarea_found [OF h1 d1] by (simp add: w1d)
  show run: "remove_container w = Inr w'"
    by (simp add: w'_def remove_container_def remove_from_parent found)
  from post rd obtain f where fi: "doom_iframe (inst w) = Some f"
    by (auto simp: post_render_ok_def Let_def split: option.splits)
  from post fi have tf: "?t < f" and fN: "f < next_eid ?d"
    and cc: "children (nodes ?d ?c) = [f, ?b]" and pf: "parent (nodes ?d f) = Some ?c"
    and pb: "parent (nodes ?d ?b) = Some ?c" and cf: "children (nodes ?d f) = []"
    and cl: "iframe_class \<in> set (class_list (nodes ?d f))"
    and src: "attrs (nodes ?d f) ''src'' = Some doom_src"
    and q: "list_all (\<lambda>(m, a). a = AnimateIn \<or> a = FlyOut f \<or> a = RemoveContainer) (queue (wtimers w))"
    by (simp_all add: post_render_ok_def Let_def)
  have cf': "?c < f" "?c < ?b" using tf I(4,5) by simp_all
  have w'1: "w' = w1\<lparr>wdom := set_style ?t ''display'' ''block'' (wdom w1)\<rparr>"
    by (simp add: w'_def w1_def)
  have "post_render_ok w'"
    unfolding post_render_ok_def Let_def w'1
    using fi tf fN cc pf pb cf cl src q cf' cN bN tc I(4,5)
    by (simp add: set_style_nodes par1 chi1 w1d detach_same)
  moreover have "host_ok w'" "decoy_ok w'"
    unfolding w'1 by (simp_all add: host_ok_restyle [OF h1] decoy_ok_restyle [OF d1])
  ultimately show "widget_inv w'" using rd by (simp add: widget_inv_def w'_def)
qed

lemma timer_action_cases:
  assumes inv: "widget_inv w" and nt: "next_timer (wtimers w) = Some (a, t)"
  shows "\<exists>f. control_view_rendered (inst w) \<and> doom_iframe (inst w) = Some f \<and> textarea_of w < f \<and>
           (a = AnimateIn \<or> a = FlyOut f \<or> a = RemoveContainer) \<and>
           list_all (\<lambda>(m, a). a = AnimateIn \<or> a = FlyOut f \<or> a = RemoveContainer) (queue t)"
proof -
  have "queue (wtimers w) \<noteq> []" using nt next_timer_None by fastforce
  then have rd: "control_view_rendered (inst w)"
    using inv by (auto simp: widget_inv_def pre_render_ok_def Let_def split: if_splits)
  with inv have post: "post_render_ok w" by (simp add: widget_inv_def)
  then obtain f where fi: "doom_iframe (inst w) = Some f"
    by (auto simp: post_render_ok_def Let_def split: option.splits)
  from post fi have "textarea_of w < f"
    and "list_all (\<lambda>(m, a). a = AnimateIn \<or> a = FlyOut f \<or> a = RemoveContainer) (queue (wtimers w))"
    by (simp_all add: post_render_ok_def Let_def)
  with next_timer_in_queue [OF nt] rd fi show ?thesis by (fastforce simp: list_all_iff)
qed

lemma timer_step_inv:
  assumes inv: "widget_inv w"
  shows "\<exists>w'. timer_step w = Inr w' \<and> widget_inv w'"
proof (cases "next_timer (wtimers w)")
  case None
  then show ?thesis using inv by (simp add: timer_step_def)
next
  case (Some p)
  then obtain a t' where nt: "next_timer (wtimers w) = Some (a, t')" by (cases p) blast
  from timer_action_cases [OF inv nt] obtain f where rd: "control_view_rendered (inst w)"
    and fi: "doom_iframe (inst w) = Some f" and tf: "textarea_of w < f"
    and qa: "a = AnimateIn \<or> a = FlyOut f \<or> a = RemoveContainer"
    and q': "list_all (\<lambda>(m, a). a = AnimateIn \<or> a = FlyOut f \<or> a = RemoveContainer) (queue t')" by blast
  define w0 where "w0 = w\<lparr>wtimers := t'\<rparr>"
  have inv0: "widget_inv w0" unfolding w0_def using inv rd fi q' by (rule widget_inv_timers)
  have rd0: "control_view_rendered (inst w0)" and fi0: "doom_iframe (inst w0) = Some f"
    and tf0: "f \<noteq> textarea_of w0" using rd fi tf by (simp_all add: w0_def)
  have ts: "timer_step w = run_action a w0" by (simp add: timer_step_def nt w0_def)
  from qa consider "a = AnimateIn" | "a = FlyOut f" | "a = RemoveContainer" by blast
  then show ?thesis
  proof cases
    case 1
    define w1 where "w1 = w0\<lparr>wdom := set_style f ''top'' ''0'' (wdom w0)\<rparr>"
    define w2 where "w2 = w1\<lparr>wdom := set_style f ''opacity'' ''1'' (wdom w1)\<rparr>"
    define w3 where "w3 = w2\<lparr>wdom := set_style f ''transform'' ''scale(1) rotate(0deg)'' (wdom w2)\<rparr>"
    have "widget_inv w3"
      unfolding w3_def w2_def w1_def using inv0 rd0 tf0
      by (intro widget_inv_restyle) simp_all
    moreover have "timer_step w = Inr w3" using 1 fi0 by (simp add: ts animate_in_def w3_def w2_def w1_def)
    ultimately show ?thesis by blast
  next
    case 2
    define w1 where "w1 = w0\<lparr>wdom := set_style f ''left'' ''-100vw'' (wdom w0)\<rparr>"
    have "widget_inv w1" unfolding w1_def using inv0 rd0 tf0 by (rule widget_inv_restyle)
    then have "widget_inv (w1\<lparr>wtimers := set_timeout 500 RemoveContainer (wtimers w1)\<rparr>)"
      using rd0 fi0 q' by (intro widget_inv_timers) (simp_all add: w1_def w0_def)
    moreover have "timer_step w = Inr (w1\<lparr>wtimers := set_timeout 500 RemoveContainer (wtimers w1)\<rparr>)"
      using 2 by (simp add: ts fly_out_def w1_def)
    ultimately show ?thesis by blast
  next
    case 3
    then show ?thesis using remove_container_inv [OF inv0 rd0] by (simp add: ts)
  qed
qed

lemma widget_inv_same_queue:
  assumes "queue t = queue (wtimers w)"
  shows "widget_inv (w\<lparr>wtimers := t\<rparr>) = widget_inv w"
proof -
  have "host_ok (w\<lparr>wtimers := t\<rparr>) = host_ok w" "decoy_ok (w\<lparr>wtimers := t\<rparr>) = decoy_ok w"
    by (simp_all add: host_ok_def decoy_ok_def)
  moreover have "pre_render_ok (w\<lparr>wtimers := t\<rparr>) = pre_render_ok w"
    "post_render_ok (w\<lparr>wtimers := t\<rparr>) = post_render_ok w"
    using assms by (simp_all add: pre_render_ok_def post_render_ok_def Let_def split: option.split)
  ultimately show ?thesis by (simp add: widget_inv_def)
qed

lemma pending_timer_live:
  assumes "sys_inv s" and "queue (wtimers (wld s)) \<noteq> []"
  shows "phase s \<noteq> Constructed" and "widget_inv (wld s)"
proof -
  show ph: "phase s \<noteq> Constructed"
  proof
    assume "phase s = Constructed"
    with assms show False by (simp add: sys_inv_def)
  qed
  with assms(1) show "widget_inv (wld s)" by (simp add: sys_inv_def)
qed

lemma step_inv:
  assumes inv: "sys_inv s" and en: "enabled s e"
  shows "\<exists>s'. step e s = Inr s' \<and> sys_inv s'"
proof (cases e)
  case (EvInit ctx r)
  with en have ph: "phase s = Constructed" and r: "r < next_eid (wdom (wld s))"
    and a: "attached (wdom (wld s)) r" by simp_all
  with inv have p: "page_ok (wdom (wld s))" and q: "queue (wtimers (wld s)) = []"
    and n: "doom_iframe (inst (wld s)) = None" by (simp_all add: sys_inv_def)
  from init_succeeds [OF r] obtain w' where i: "init ctx r (wld s) = Inr w'" by blast
  have "widget_inv w'" by (rule inv_init [OF p q n r a i])
  with i EvInit show ?thesis by (simp add: sys_inv_def)
next
  case (EvUpdate ctx)
  with en inv have "widget_inv (wld s)" "phase s = Live" by (simp_all add: sys_inv_def)
  with update_view_inv [of "wld s" ctx] EvUpdate show ?thesis by (auto simp: sys_inv_def)
next
  case EvOutputs
  with inv show ?thesis by simp
next
  case EvDestroy
  with en inv have "widget_inv (wld s)" by (simp add: sys_inv_def)
  with EvDestroy show ?thesis by (simp add: sys_inv_def destroy_def)
next
  case EvClick
  with en inv have "widget_inv (wld s)" "phase s = Live"
    and "attached (wdom (wld s)) (boss_key (inst (wld s)))" by (simp_all add: sys_inv_def)
  with click_inv [of "wld s"] EvClick show ?thesis by (fastforce simp: sys_inv_def)
next
  case EvTimer
  with en have q: "queue (wtimers (wld s)) \<noteq> []" by simp
  note ph = pending_timer_live(1) [OF inv q]
  from pending_timer_live(2) [OF inv q] obtain w' where "timer_step (wld s) = Inr w'" "widget_inv w'" using timer_step_inv by blast
  with ph EvTimer show ?thesis by (simp add: sys_inv_def)
next
  case (EvWait k)
  have "sys_inv (s\<lparr>wld := (wld s)\<lparr>wtimers := wait k (wtimers (wld s))\<rparr>\<rparr>)"
    using inv by (simp add: sys_inv_def widget_inv_same_queue)
  with EvWait show ?thesis by simp
qed

subsection \<open>Every reachable state satisfies the invariant\<close>

lemma sys_inv_start: "page_ok d \<Longrightarrow> sys_inv (start d)"
  by (simp add: sys_inv_def start_def undefined_widget_def)

lemma reach_inv: "reach d0 s \<Longrightarrow> sys_inv s"
proof (induction rule: reach.induct)
  case reach_start
  then show ?case by (rule sys_inv_start)
next
  case (reach_step s e s')
  from step_inv [OF reach_step.IH reach_step.hyps(2)] reach_step.hyps(3) show ?case by auto
qed

end
