(* ===== verification/Drain.thy ===== *)
theory Drain
  imports Lifecycle
begin

text \<open>
  The event loop left to itself: after a handler returns, the browser runs the pending
  timers one after the other, each callback possibly setting a new one. The callbacks
  of the widget only ever replace a fly-out timer by a removal timer, so the weight of
  the queue (two for a fly-out, one for the others) drops with every timer that runs,
  and the loop stops.
\<close>

text \<open>
  A removal is under way when the container is already out of the page or a fly-out or
  removal timer is still pending.
\<close>

definition removal_pending :: "world \<Rightarrow> bool" where
  "removal_pending w \<longleftrightarrow>
     parent (nodes (wdom w) (container (inst w))) = None \<or>
     list_ex (\<lambda>(m, a). a \<noteq> AnimateIn) (queue (wtimers w))"

fun action_weight :: "action \<Rightarrow> nat" where
  "action_weight (FlyOut f) = 2"
| "action_weight AnimateIn = 1"
| "action_weight RemoveContainer = 1"

definition queue_weight :: "(ms \<times> action) list \<Rightarrow> nat" where
  "queue_weight q = sum_list (map (action_weight \<circ> snd) q)"

definition restore_not_before :: "ms \<Rightarrow> world \<Rightarrow> bool" where
  "restore_not_before T w \<longleftrightarrow>
     list_all (\<lambda>(m, a). (case a of FlyOut f \<Rightarrow> T + 10 \<le> m | RemoveContainer \<Rightarrow> T + 510 \<le> m | AnimateIn \<Rightarrow> True))
       (queue (wtimers w)) \<and>
     (parent (nodes (wdom w) (container (inst w))) = None \<longrightarrow> T + 510 \<le> clock (wtimers w))"

text \<open>The event loop running \<open>n\<close> due timers in turn, each on the state the last one left.\<close>

fun timer_steps :: "nat \<Rightarrow> world \<Rightarrow> js_error + world" where
  "timer_steps 0 w = Inr w"
| "timer_steps (Suc n) w = bindE (timer_step w) (timer_steps n)"

function run_timers :: "world \<Rightarrow> js_error + world" where
  "run_timers w =
     (case next_timer (wtimers w) of
        None \<Rightarrow> Inr w
      | Some (a, t) \<Rightarrow> bindE (run_action a (w\<lparr>wtimers := t\<rparr>)) run_timers)"
  by pat_completeness auto

lemma queue_weight_simps [simp]:
  "queue_weight [] = 0" "queue_weight (e # q) = action_weight (snd e) + queue_weight q"
  "queue_weight (q @ q') = queue_weight q + queue_weight q'"
  by (simp_all add: queue_weight_def)

lemma action_weight_pos: "0 < action_weight a"
  by (cases a) simp_all

lemma next_timer_weight:
  "next_timer t = Some (a, t') \<Longrightarrow> queue_weight (queue t') + action_weight a = queue_weight (queue t)"
  by (auto dest!: next_timer_order)

lemma remove_container_eq:
  "remove_container w =
     Inr (w\<lparr>wdom := (case get_element_by_id (detach (container (inst w)) (wdom w)) serious_id of
                      None \<Rightarrow> detach (container (inst w)) (wdom w)
                    | Some t \<Rightarrow> set_style t ''display'' ''block'' (detach (container (inst w)) (wdom w)))\<rparr>)"
  by (simp add: remove_container_def remove_from_parent Let_def)

lemma run_action_queue:
  "run_action a w = Inr w' \<Longrightarrow>
   queue (wtimers w') = queue (wtimers w) @ (case a of FlyOut f \<Rightarrow> [(clock (wtimers w) + 500, RemoveContainer)] | _ \<Rightarrow> [])"
  by (cases a) (auto simp: animate_in_def fly_out_def remove_container_eq split: option.splits)

lemma run_action_weight:
  assumes "next_timer (wtimers w) = Some (a, t)" and "run_action a (w\<lparr>wtimers := t\<rparr>) = Inr w'"
  shows "queue_weight (queue (wtimers w')) < queue_weight (queue (wtimers w))"
proof -
  from next_timer_weight [OF assms(1)] action_weight_pos [of a]
  have "queue_weight (queue t) + action_weight a = queue_weight (queue (wtimers w))" by simp
  with run_action_queue [OF assms(2)] show ?thesis by (cases a) auto
qed

termination run_timers
  by (relation "measure (\<lambda>w. queue_weight (queue (wtimers w)))") (auto intro: run_action_weight)

declare run_timers.simps [simp del]

lemma run_timers_None: "next_timer (wtimers w) = None \<Longrightarrow> run_timers w = Inr w"
  by (simp add: run_timers.simps)

lemma run_timers_Some:
  "next_timer (wtimers w) = Some (a, t) \<Longrightarrow> run_timers w = bindE (timer_step w) run_timers"
  by (simp add: run_timers.simps timer_step_def)

lemma run_action_frame:
  assumes ra: "run_action a w = Inr w'"
  shows "inst w' = inst w"
    and "a \<noteq> RemoveContainer \<Longrightarrow> parent (nodes (wdom w') y) = parent (nodes (wdom w) y)"
    and "a = RemoveContainer \<Longrightarrow> parent (nodes (wdom w') (container (inst w))) = None"
proof -
  have "inst w' = inst w \<and> (a \<noteq> RemoveContainer \<longrightarrow> parent (nodes (wdom w') y) = parent (nodes (wdom w) y)) \<and>
        (a = RemoveContainer \<longrightarrow> parent (nodes (wdom w') (container (inst w))) = None)"
  proof (cases a)
    case AnimateIn
    with ra show ?thesis by (auto simp: animate_in_def set_style_nodes split: option.splits)
  next
    case (FlyOut f)
    with ra show ?thesis by (auto simp: fly_out_def set_style_nodes)
  next
    case RemoveContainer
    with ra have "w' = w\<lparr>wdom := (case get_element_by_id (detach (container (inst w)) (wdom w)) serious_id of
                      None \<Rightarrow> detach (container (inst w)) (wdom w)
                    | Some t \<Rightarrow> set_style t ''display'' ''block'' (detach (container (inst w)) (wdom w)))\<rparr>"
      by (simp add: remove_container_eq)
    with RemoveContainer show ?thesis
      by (simp add: set_style_nodes detach_parent_self split: option.split)
  qed
  then show "inst w' = inst w"
    and "a \<noteq> RemoveContainer \<Longrightarrow> parent (nodes (wdom w') y) = parent (nodes (wdom w) y)"
    and "a = RemoveContainer \<Longrightarrow> parent (nodes (wdom w') (container (inst w))) = None" by simp_all
qed

lemma timer_step_pending:
  assumes "removal_pending w" and "timer_step w = Inr w'"
  shows "removal_pending w'"
proof (cases "next_timer (wtimers w)")
  case None
  with assms show ?thesis by (simp add: timer_step_def)
next
  case (Some p)
  then obtain a t where nt: "next_timer (wtimers w) = Some (a, t)" by (cases p) blast
  with assms(2) have ra: "run_action a (w\<lparr>wtimers := t\<rparr>) = Inr w'" by (simp add: timer_step_def)
  from next_timer_order [OF nt] obtain xs ys m
    where q: "queue (wtimers w) = xs @ (m, a) # ys" "queue t = xs @ ys" by blast
  note fr = run_action_frame [OF ra] and rq = run_action_queue [OF ra]
  show ?thesis
  proof (cases a)
    case AnimateIn
    with assms(1) q fr rq show ?thesis by (auto simp: removal_pending_def)
  next
    case (FlyOut f)
    with rq show ?thesis by (simp add: removal_pending_def)
  next
    case RemoveContainer
    with fr show ?thesis by (simp add: removal_pending_def)
  qed
qed

lemma run_timers_drains:
  "widget_inv w \<Longrightarrow>
   \<exists>w'. run_timers w = Inr w' \<and> queue (wtimers w') = [] \<and> widget_inv w' \<and> inst w' = inst w \<and>
        (removal_pending w \<longrightarrow> removal_pending w')"
proof (induction w rule: run_timers.induct)
  case (1 w)
  show ?case
  proof (cases "next_timer (wtimers w)")
    case None
    then have "queue (wtimers w) = []" using next_timer_exists by fastforce
    with None "1.prems" show ?thesis by (simp add: run_timers_None)
  next
    case (Some p)
    then obtain a t where nt: "next_timer (wtimers w) = Some (a, t)" by (cases p) blast
    from timer_step_inv [OF "1.prems"] obtain w1 where
      ts: "timer_step w = Inr w1" and inv1: "widget_inv w1" by blast
    from ts nt have ra: "run_action a (w\<lparr>wtimers := t\<rparr>) = Inr w1" by (simp add: timer_step_def)
    from "1.IH" [OF nt refl ra inv1] obtain w' where
      "run_timers w1 = Inr w'" "queue (wtimers w') = []" "widget_inv w'" "inst w' = inst w1"
      "removal_pending w1 \<longrightarrow> removal_pending w'" by blast
    moreover have "inst w1 = inst w" using run_action_frame(1) [OF ra] by simp
    ultimately show ?thesis using ts nt timer_step_pending [OF _ ts] by (simp add: run_timers_Some)
  qed
qed

text \<open>Running the timers is a sequence of event-loop steps, so its result is reachable.\<close>

lemma reach_run_timers:
  "reach d0 s \<Longrightarrow> wld s = w \<Longrightarrow> run_timers w = Inr w' \<Longrightarrow> reach d0 (s\<lparr>wld := w'\<rparr>)"
proof (induction w arbitrary: s rule: run_timers.induct)
  case (1 w)
  show ?case
  proof (cases "next_timer (wtimers w)")
    case None
    with "1.prems" have "s\<lparr>wld := w'\<rparr> = s" by (cases s) (simp add: run_timers_None)
    with "1.prems"(1) show ?thesis by simp
  next
    case (Some p)
    then obtain a t where nt: "next_timer (wtimers w) = Some (a, t)" by (cases p) blast
    with "1.prems"(3) obtain w1 where ts: "timer_step w = Inr w1" and rt: "run_timers w1 = Inr w'"
      by (auto simp: run_timers_Some bindE_eq_Inr)
    from ts nt have ra: "run_action a (w\<lparr>wtimers := t\<rparr>) = Inr w1" by (simp add: timer_step_def)
    have "queue (wtimers w) \<noteq> []" using nt next_timer_None by fastforce
    with "1.prems"(2) have en: "enabled s EvTimer" by simp
    have "step EvTimer s = Inr (s\<lparr>wld := w1\<rparr>)" using ts "1.prems"(2) by simp
    from reach_step [OF "1.prems"(1) en this] have "reach d0 (s\<lparr>wld := w1\<rparr>)" .
    from "1.IH" [OF nt refl ra this _ rt] show ?thesis by simp
  qed
qed

text \<open>The click on the visible boss key, followed by its timers, takes the container out of the page.\<close>

lemma panic_drain:
  assumes inv: "widget_inv w" and a: "attached (wdom w) (boss_key (inst w))"
  shows "\<exists>w1 w2 f. dispatch_click (boss_key (inst w)) w = Inr w1 \<and> run_timers w1 = Inr w2 \<and>
           queue (wtimers w2) = [] \<and> widget_inv w2 \<and> inst w2 = inst w \<and>
           control_view_rendered (inst w) \<and> doom_iframe (inst w) = Some f \<and>
           parent (nodes (wdom w2) (container (inst w))) = None"
proof -
  have rd: "control_view_rendered (inst w)" using boss_key_attached [OF inv a] by simp
  from click_inv [OF inv a] obtain w1 f where c: "dispatch_click (boss_key (inst w)) w = Inr w1"
    and inv1: "widget_inv w1" and i1: "inst w1 = inst w" and fi: "doom_iframe (inst w) = Some f"
    and q1: "queue (wtimers w1) = queue (wtimers w) @ [(clock (wtimers w) + 10, FlyOut f)]" by blast
  have "removal_pending w1" using q1 by (simp add: removal_pending_def)
  with run_timers_drains [OF inv1] obtain w2 where rt: "run_timers w1 = Inr w2"
    and q2: "queue (wtimers w2) = []" and inv2: "widget_inv w2" and i2: "inst w2 = inst w"
    and p2: "removal_pending w2" using i1 by auto
  from p2 q2 i2 have "parent (nodes (wdom w2) (container (inst w))) = None"
    by (simp add: removal_pending_def)
  with c rt q2 inv2 i2 rd fi show ?thesis by blast
qed

lemma run_action_clock:
  "run_action a w = Inr w' \<Longrightarrow> clock (wtimers w') = clock (wtimers w)"
  by (cases a) (auto simp: animate_in_def fly_out_def remove_container_eq split: option.splits)

lemma timer_step_restore:
  assumes p: "restore_not_before T w" and ts: "timer_step w = Inr w'"
  shows "restore_not_before T w' \<and> clock (wtimers w) \<le> clock (wtimers w')"
proof (cases "next_timer (wtimers w)")
  case None
  with p ts show ?thesis by (simp add: timer_step_def)
next
  case (Some x)
  then obtain a t where nt: "next_timer (wtimers w) = Some (a, t)" by (cases x) blast
  with ts have ra: "run_action a (w\<lparr>wtimers := t\<rparr>) = Inr w'" by (simp add: timer_step_def)
  from next_timer_order [OF nt] obtain xs ys m
    where q: "queue (wtimers w) = xs @ (m, a) # ys" "queue t = xs @ ys" "clock t = max (clock (wtimers w)) m"
    by blast
  note rq = run_action_queue [OF ra] and rc = run_action_clock [OF ra] and fr = run_action_frame [OF ra]
  from p q have old: "list_all (\<lambda>(m, a). (case a of FlyOut f \<Rightarrow> T + 10 \<le> m | RemoveContainer \<Rightarrow> T + 510 \<le> m | AnimateIn \<Rightarrow> True)) (queue t)"
    and due: "(case a of FlyOut f \<Rightarrow> T + 10 \<le> m | RemoveContainer \<Rightarrow> T + 510 \<le> m | AnimateIn \<Rightarrow> True)"
    and cl: "parent (nodes (wdom w) (container (inst w))) = None \<longrightarrow> T + 510 \<le> clock (wtimers w)"
    by (simp_all add: restore_not_before_def)
  show ?thesis
  proof (cases a)
    case AnimateIn
    with fr rq rc old cl q show ?thesis by (auto simp: restore_not_before_def)
  next
    case (FlyOut f)
    with fr rq rc old cl q due show ?thesis by (auto simp: restore_not_before_def)
  next
    case RemoveContainer
    with fr rq rc old q due show ?thesis by (auto simp: restore_not_before_def)
  qed
qed

lemma run_timers_restore:
  "restore_not_before T w \<Longrightarrow> run_timers w = Inr w' \<Longrightarrow> restore_not_before T w'"
proof (induction w rule: run_timers.induct)
  case (1 w)
  show ?case
  proof (cases "next_timer (wtimers w)")
    case None
    with "1.prems" show ?thesis by (simp add: run_timers_None)
  next
    case (Some x)
    then obtain a t where nt: "next_timer (wtimers w) = Some (a, t)" by (cases x) blast
    with "1.prems"(2) obtain w1 where ts: "timer_step w = Inr w1" and rt: "run_timers w1 = Inr w'"
      by (auto simp: run_timers_Some bindE_eq_Inr)
    from ts nt have ra: "run_action a (w\<lparr>wtimers := t\<rparr>) = Inr w1" by (simp add: timer_step_def)
    from timer_step_restore [OF "1.prems"(1) ts] have "restore_not_before T w1" by simp
    from "1.IH" [OF nt refl ra this rt] show ?thesis .
  qed
qed

text \<open>
  The bound holds at every step of the loop, not only when it stops: no prefix of the
  timer sequence shows the decoy again before the removal timer's due time.
\<close>

lemma timer_steps_restore:
  "restore_not_before T w \<Longrightarrow> timer_steps n w = Inr w' \<Longrightarrow> restore_not_before T w'"
proof (induction n arbitrary: w)
  case 0
  then show ?case by simp
next
  case (Suc n)
  then obtain w1 where ts: "timer_step w = Inr w1" and rest: "timer_steps n w1 = Inr w'"
    by (auto simp: bindE_eq_Inr)
  from timer_step_restore [OF Suc.prems(1) ts] have "restore_not_before T w1" by simp
  from Suc.IH [OF this rest] show ?case .
qed

lemma timer_steps_inv:
  "widget_inv w \<Longrightarrow> timer_steps n w = Inr w' \<Longrightarrow> widget_inv w' \<and> inst w' = inst w"
proof (induction n arbitrary: w)
  case 0
  then show ?case by simp
next
  case (Suc n)
  then obtain w1 where ts: "timer_step w = Inr w1" and rest: "timer_steps n w1 = Inr w'"
    by (auto simp: bindE_eq_Inr)
  from timer_step_inv [OF Suc.prems(1)] ts have inv1: "widget_inv w1" by auto
  have "inst w1 = inst w"
  proof (cases "next_timer (wtimers w)")
    case None
    with ts show ?thesis by (simp add: timer_step_def)
  next
    case (Some x)
    then obtain a t where "next_timer (wtimers w) = Some (a, t)" by (cases x) blast
    with ts have "run_action a (w\<lparr>wtimers := t\<rparr>) = Inr w1" by (simp add: timer_step_def)
    from run_action_frame(1) [OF this] show ?thesis by simp
  qed
  with Suc.IH [OF inv1 rest] show ?case by simp
qed

lemma block_means_removed:
  assumes inv: "widget_inv w" and rd: "control_view_rendered (inst w)"
    and t: "get_element_by_id (wdom w) serious_id = Some t"
    and b: "style (nodes (wdom w) t) ''display'' = Some ''block''"
  shows "parent (nodes (wdom w) (container (inst w))) = None"
proof -
  from inv have "get_element_by_id (wdom w) serious_id = Some (textarea_of w)"
    by (intro textarea_found) (simp_all add: widget_inv_def)
  with t have "t = textarea_of w" by simp
  with inv rd b show ?thesis
    by (auto simp: widget_inv_def post_render_ok_def Let_def split: option.splits)
qed

end
