(* ===== verification/Visibility.thy ===== *)
theory Visibility
  imports Lifecycle
begin

text \<open>
  Which of the widget's elements are in the page. The iframe and the boss key are in
  the page exactly while the container is (\<open>iframe_attached_iff\<close>), the reveal puts
  them there when the container is in place (\<open>reveal_attached\<close>), and a scripted click
  on the boss key before the reveal takes the container out, after which the reveal
  builds the frame in a detached container (\<open>early_click_detaches\<close>,
  \<open>reveal_into_detached\<close>).
\<close>

subsection \<open>The frame is in the page exactly while the container is\<close>

lemma container_parent:
  "widget_inv w \<Longrightarrow>
   parent (nodes (wdom w) (container (inst w))) = Some (root_container (inst w)) \<or>
   parent (nodes (wdom w) (container (inst w))) = None"
  by (auto simp: widget_inv_def pre_render_ok_def post_render_ok_def Let_def split: if_splits option.splits)

lemma container_child_attached:
  assumes inv: "widget_inv w" and px: "parent (nodes (wdom w) x) = Some (container (inst w))"
    and cx: "container (inst w) < x" and xN: "x < next_eid (wdom w)"
  shows "attached (wdom w) x \<longleftrightarrow>
         parent (nodes (wdom w) (container (inst w))) = Some (root_container (inst w))"
proof -
  let ?d = "wdom w" and ?c = "container (inst w)" and ?r = "root_container (inst w)"
  note I = widget_invD [OF inv]
  from inv have hr: "?r = doc_root ?d \<or> doc_root ?d \<in> set (anc ?c ?d ?r)"
    by (simp add: widget_inv_def host_ok_def Let_def)
  show ?thesis
  proof
    assume a: "attached ?d x"
    show "parent (nodes ?d ?c) = Some ?r"
    proof (rule ccontr)
      assume "parent (nodes ?d ?c) \<noteq> Some ?r"
      with container_parent [OF inv] have none: "parent (nodes ?d ?c) = None" by simp
      obtain k where k: "next_eid ?d = Suc k" using xN by (cases "next_eid ?d") simp_all
      have "anc (next_eid ?d) ?d x = [?c]" using px none k by (simp add: anc_Suc_None)
      with a I(3) cx show False by (simp add: attached_def)
    qed
  next
    assume pr: "parent (nodes ?d ?c) = Some ?r"
    have "?c = doc_root ?d \<or> doc_root ?d \<in> set (anc (Suc ?c) ?d ?c)"
      using hr pr by auto
    moreover have "Suc (Suc ?c) \<le> next_eid ?d" using cx xN by simp
    ultimately show "attached ?d x" using px by (intro attached_child) simp_all
  qed
qed

lemma iframe_attached_iff:
  assumes inv: "widget_inv w" and rd: "control_view_rendered (inst w)"
    and fi: "doom_iframe (inst w) = Some f"
  shows "attached (wdom w) f \<longleftrightarrow> parent (nodes (wdom w) (container (inst w))) = Some (root_container (inst w))"
proof (rule container_child_attached [OF inv])
  from inv rd have "post_render_ok w" by (simp add: widget_inv_def)
  with fi widget_invD(5) [OF inv]
  show "parent (nodes (wdom w) f) = Some (container (inst w))" "container (inst w) < f" "f < next_eid (wdom w)"
    by (simp_all add: post_render_ok_def Let_def)
qed

lemma reveal_attached:
  assumes inv: "widget_inv w" and rv: "\<not> control_view_rendered (inst w)" "doom_raw ctx = Some 5"
    and uv: "update_view ctx w = Inr w'"
  shows "parent (nodes (wdom w') (container (inst w))) = Some (root_container (inst w))"
    and "attached (wdom w') (boss_key (inst w'))"
    and "doom_iframe (inst w') = Some (next_eid (wdom w))" and "attached (wdom w') (next_eid (wdom w))"
proof -
  let ?d = "wdom w" and ?c = "container (inst w)" and ?b = "boss_key (inst w)" and ?N = "next_eid (wdom w)"
  note I = widget_invD [OF inv]
  obtain w2 where uv2: "update_view ctx w = Inr w2"
    and i': "inst w2 = (inst w)\<lparr>control_view_rendered := True, doom_iframe := Some ?N\<rparr>"
    and n': "next_eid (wdom w2) = Suc ?N"
    and nd: "\<And>y. nodes (wdom w2) y =
       (if y = ?N then iframe_node ?c else if y = ?b then nodes ?d y\<lparr>parent := Some ?c\<rparr>
        else if y = ?c then nodes ?d y\<lparr>children := [?N, ?b]\<rparr>
        else if y = textarea_of w then (nodes ?d y)\<lparr>style := (style (nodes ?d y))(''display'' \<mapsto> ''none'')\<rparr>
        else nodes ?d y)"
    by (rule reveal_step [OF inv rv]) blast
  from uv uv2 have w2: "w' = w2" by simp
  from reveal_inv [OF inv rv] uv have inv': "widget_inv w'" by auto
  from inv rv have "parent (nodes ?d ?c) = Some (root_container (inst w))"
    by (simp add: widget_inv_def pre_render_ok_def Let_def)
  then show pc: "parent (nodes (wdom w') ?c) = Some (root_container (inst w))"
    using I(4-6) by (simp add: w2 nd textarea_of_def)
  have ci: "container (inst w') = ?c" "root_container (inst w') = root_container (inst w)"
    "boss_key (inst w') = ?b" using i' w2 by simp_all
  have "parent (nodes (wdom w') ?b) = Some ?c" "?b < next_eid (wdom w')"
    using I(4-6) by (simp_all add: w2 nd n')
  with container_child_attached [OF inv', of ?b] pc I(4) ci
  show "attached (wdom w') (boss_key (inst w'))" by simp
  show "doom_iframe (inst w') = Some ?N" using i' w2 by simp
  have "parent (nodes (wdom w') ?N) = Some ?c" "?N < next_eid (wdom w')" "?c < ?N"
    using I(4-6) by (simp_all add: w2 nd n' iframe_node_def)
  with container_child_attached [OF inv', of ?N] pc ci
  show "attached (wdom w') ?N" by simp
qed

subsection \<open>A scripted click before the reveal\<close>

lemma early_click_detaches:
  assumes inv: "widget_inv w" and nr: "\<not> control_view_rendered (inst w)"
  shows "dispatch_click (boss_key (inst w)) w = Inr (w\<lparr>wdom := detach (container (inst w)) (wdom w)\<rparr>)"
    and "get_element_by_id (detach (container (inst w)) (wdom w)) serious_id = Some (textarea_of w)"
    and "attached (detach (container (inst w)) (wdom w)) (textarea_of w)"
    and "\<not> attached (detach (container (inst w)) (wdom w)) (container (inst w))"
proof -
  let ?d = "wdom w" and ?c = "container (inst w)" and ?b = "boss_key (inst w)"
  define w1 where "w1 = w\<lparr>wdom := detach ?c ?d\<rparr>"
  note I = widget_invD [OF inv]
  from inv nr have pc: "parent (nodes ?d ?c) = Some (root_container (inst w))"
    and cc: "children (nodes ?d ?c) = []"
    by (simp_all add: widget_inv_def pre_render_ok_def Let_def)
  have lis: "listeners (nodes ?d ?b) = [(''click'', OnBossKeyClick)]"
    using decoy_okD(8) inv by (simp add: widget_inv_def)
  show "dispatch_click ?b w = Inr (w\<lparr>wdom := detach ?c ?d\<rparr>)"
    using lis pc cc by (simp add: dispatch_click_def on_boss_key_click_def query_selector_no_children
        remove_child_parent)
  have h1: "host_ok w1" and d1: "decoy_ok w1" unfolding w1_def by (rule detach_container_ok [OF inv])+
  have t1: "textarea_of w1 = textarea_of w" "wdom w1 = detach ?c ?d" by (simp_all add: w1_def textarea_of_def)
  show "get_element_by_id (detach ?c ?d) serious_id = Some (textarea_of w)"
    using textarea_found [OF h1 d1] t1 by simp
  show "attached (detach ?c ?d) (textarea_of w)" using textarea_attached [OF h1 d1] t1 by simp
  show "\<not> attached (detach ?c ?d) ?c"
    using detached_root [of "detach ?c ?d" ?c] detach_parent_self [of ?c ?d] I(3) by (simp add: detach_same)
qed

lemma reveal_into_detached:
  assumes inv: "widget_inv w" and nr: "\<not> control_view_rendered (inst w)"
  shows "\<exists>w2. update_view \<lparr>doom_raw = Some 5\<rparr> (w\<lparr>wdom := detach (container (inst w)) (wdom w)\<rparr>) = Inr w2 \<and>
           style (nodes (wdom w2) (textarea_of w)) ''display'' = Some ''none'' \<and>
           doom_iframe (inst w2) = Some (next_eid (wdom w)) \<and> \<not> attached (wdom w2) (next_eid (wdom w)) \<and>
           boss_key (inst w2) = boss_key (inst w) \<and> \<not> attached (wdom w2) (boss_key (inst w))"
proof -
  let ?d = "wdom w" and ?c = "container (inst w)" and ?b = "boss_key (inst w)"
    and ?t = "textarea_of w" and ?N = "next_eid (wdom w)"
  define w1 where "w1 = w\<lparr>wdom := detach ?c ?d\<rparr>"
  note I = widget_invD [OF inv]
  note E = early_click_detaches [OF inv nr]
  from inv nr have pb: "parent (nodes ?d ?b) = None"
    by (simp add: widget_inv_def pre_render_ok_def Let_def)
  have w1: "inst w1 = inst w" "wdom w1 = detach ?c ?d" by (simp_all add: w1_def)
  have cb: "?c \<noteq> ?b" "?c < ?N" "?b < ?N" "?t < ?N" "?t \<noteq> ?c" "?t \<noteq> ?b" using I(4-6) by simp_all
  obtain w2 where uv: "update_view \<lparr>doom_raw = Some 5\<rparr> w1 = Inr w2"
    and i2: "inst w2 = (inst w1)\<lparr>control_view_rendered := True, doom_iframe := Some ?N\<rparr>"
    and dn: "doc_root (wdom w2) = doc_root ?d"
    and nd: "\<And>y. nodes (wdom w2) y =
       (if y = ?N then iframe_node ?c else if y = ?b then nodes (wdom w1) y\<lparr>parent := Some ?c\<rparr>
        else if y = ?c then nodes (wdom w1) y\<lparr>children := children (nodes (wdom w1) y) @ [?N, ?b]\<rparr>
        else if y = ?t then (nodes (wdom w1) y)\<lparr>style := (style (nodes (wdom w1) y))(''display'' \<mapsto> ''none'')\<rparr>
        else nodes (wdom w1) y)"
  proof -
    have "\<not> control_view_rendered (inst w1)" "get_element_by_id (wdom w1) serious_id = Some ?t"
      "container (inst w1) < next_eid (wdom w1)" "boss_key (inst w1) < next_eid (wdom w1)"
      "?t < next_eid (wdom w1)" "container (inst w1) \<noteq> boss_key (inst w1)" "?t \<noteq> container (inst w1)"
      "?t \<noteq> boss_key (inst w1)" "children (nodes (wdom w1) (boss_key (inst w1))) = []"
      "parent (nodes (wdom w1) (boss_key (inst w1))) = None"
      using nr E(2) cb I(8) pb detach_fields [OF I(1), of ?c ?b] by (simp_all add: w1 detach_same)
    note r = reveal_render [where ctx = "\<lparr>doom_raw = Some 5\<rparr>", OF this(1) _ this(2-)]
    show ?thesis by (rule r) (simp_all add: that w1 detach_same)
  qed
  have dist: "doc_root ?d \<noteq> ?c" "doc_root ?d \<noteq> ?N" "doc_root ?d \<noteq> ?b"
    using I(3-6) by simp_all
  have pc2: "parent (nodes (wdom w2) ?c) = None"
    using cb by (simp add: nd w1 detach_parent_self)
  have "style (nodes (wdom w2) ?t) ''display'' = Some ''none''" using cb by (simp add: nd)
  moreover have "\<not> attached (wdom w2) ?N"
    by (rule detached_child [OF _ pc2]) (use dist cb dn in \<open>simp_all add: nd iframe_node_def\<close>)
  moreover have "\<not> attached (wdom w2) ?b"
    by (rule detached_child [OF _ pc2]) (use dist cb dn in \<open>simp_all add: nd\<close>)
  moreover have "doom_iframe (inst w2) = Some ?N" "boss_key (inst w2) = ?b" by (simp_all add: i2 w1)
  ultimately show ?thesis using uv unfolding w1_def by auto
qed

end
