(* ===== verification/Abstract.thy ===== *)
theory Abstract
  imports Drain Visibility
begin

text \<open>
  What the widget promises, as a machine of three views: the decoy text box alone
  (\<open>Decoy\<close>), the frame shown with the decoy hidden (\<open>Revealed\<close>), and the decoy
  restored after the panic button (\<open>Dismissed\<close>). The views only move forward, one
  at a time, and each view fixes what the page shows.
\<close>

datatype view = Decoy | Revealed | Dismissed

fun astep :: "view \<Rightarrow> view \<Rightarrow> bool" where
  "astep Decoy v \<longleftrightarrow> v = Decoy \<or> v = Revealed"
| "astep Revealed v \<longleftrightarrow> v = Revealed \<or> v = Dismissed"
| "astep Dismissed v \<longleftrightarrow> v = Dismissed"

definition abs_view :: "world \<Rightarrow> view" where
  "abs_view w =
     (if \<not> control_view_rendered (inst w) then Decoy
      else if parent (nodes (wdom w) (container (inst w))) = Some (root_container (inst w)) then Revealed
      else Dismissed)"

definition decoy_display :: "world \<Rightarrow> string option \<Rightarrow> bool" where
  "decoy_display w v =
     (case get_element_by_id (wdom w) serious_id of
        None \<Rightarrow> False
      | Some t \<Rightarrow> attached (wdom w) t \<and> style (nodes (wdom w) t) ''display'' = v)"

definition frame_in_page :: "world \<Rightarrow> bool" where
  "frame_in_page w = (case doom_iframe (inst w) of None \<Rightarrow> False | Some f \<Rightarrow> attached (wdom w) f)"

fun view_ok :: "view \<Rightarrow> world \<Rightarrow> bool" where
  "view_ok Decoy w \<longleftrightarrow> decoy_display w None \<and> doom_iframe (inst w) = None"
| "view_ok Revealed w \<longleftrightarrow> decoy_display w (Some ''none'') \<and> frame_in_page w"
| "view_ok Dismissed w \<longleftrightarrow> decoy_display w (Some ''block'') \<and> doom_iframe (inst w) \<noteq> None \<and> \<not> frame_in_page w"

lemma widget_inv_view:
  assumes inv: "widget_inv w"
  shows "view_ok (abs_view w) w"
proof -
  from inv have h: "host_ok w" and dk: "decoy_ok w" by (simp_all add: widget_inv_def)
  have dd: "decoy_display w v \<longleftrightarrow> style (nodes (wdom w) (textarea_of w)) ''display'' = v" for v
    using widget_inv_textarea [OF inv] textarea_attached [OF h dk] by (simp add: decoy_display_def)
  show ?thesis
  proof (cases "control_view_rendered (inst w)")
    case False
    with inv show ?thesis by (simp add: abs_view_def dd widget_inv_def pre_render_ok_def Let_def)
  next
    case True
    with inv have post: "post_render_ok w" by (simp add: widget_inv_def)
    then obtain f where fi: "doom_iframe (inst w) = Some f"
      by (auto simp: post_render_ok_def Let_def split: option.splits)
    from post fi True show ?thesis
      by (auto simp: abs_view_def dd frame_in_page_def iframe_attached_iff [OF inv True fi]
          post_render_ok_def Let_def)
  qed
qed

lemma astep_refl [simp]: "astep v v"
  by (cases v) simp_all

lemma astep_intro:
  assumes "container (inst w') = container (inst w)" "root_container (inst w') = root_container (inst w)"
    and "control_view_rendered (inst w) \<Longrightarrow> control_view_rendered (inst w')"
    and "control_view_rendered (inst w) \<Longrightarrow>
         parent (nodes (wdom w) (container (inst w))) \<noteq> Some (root_container (inst w)) \<Longrightarrow>
         parent (nodes (wdom w') (container (inst w))) \<noteq> Some (root_container (inst w))"
    and "\<not> control_view_rendered (inst w) \<Longrightarrow>
         parent (nodes (wdom w') (container (inst w))) = Some (root_container (inst w))"
  shows "astep (abs_view w) (abs_view w')"
  using assms by (auto simp: abs_view_def)

lemma timer_step_frame:
  assumes "timer_step w = Inr w'"
  shows "inst w' = inst w"
    and "parent (nodes (wdom w') (container (inst w))) = parent (nodes (wdom w) (container (inst w))) \<or>
         parent (nodes (wdom w') (container (inst w))) = None"
proof -
  have "inst w' = inst w \<and>
        (parent (nodes (wdom w') (container (inst w))) = parent (nodes (wdom w) (container (inst w))) \<or>
         parent (nodes (wdom w') (container (inst w))) = None)"
  proof (cases "next_timer (wtimers w)")
    case None
    with assms show ?thesis by (simp add: timer_step_def)
  next
    case (Some p)
    then obtain a t where nt: "next_timer (wtimers w) = Some (a, t)" by (cases p) blast
    with assms have ra: "run_action a (w\<lparr>wtimers := t\<rparr>) = Inr w'" by (simp add: timer_step_def)
    from run_action_frame [OF ra] show ?thesis by (cases "a = RemoveContainer") simp_all
  qed
  then show "inst w' = inst w"
    and "parent (nodes (wdom w') (container (inst w))) = parent (nodes (wdom w) (container (inst w))) \<or>
         parent (nodes (wdom w') (container (inst w))) = None" by simp_all
qed

lemma update_astep:
  assumes inv: "widget_inv w" and uv: "update_view c w = Inr w'"
  shows "astep (abs_view w) (abs_view w')"
proof (cases "\<not> control_view_rendered (inst w) \<and> doom_raw c = Some 5")
  case True
  then have nr: "\<not> control_view_rendered (inst w)" and five: "doom_raw c = Some 5" by simp_all
  obtain w2 where "update_view c w = Inr w2"
    "inst w2 = (inst w)\<lparr>control_view_rendered := True, doom_iframe := Some (next_eid (wdom w))\<rparr>"
    by (rule reveal_step [OF inv nr five]) blast
  with uv nr reveal_attached(1) [OF inv nr five uv] show ?thesis by (intro astep_intro) simp_all
next
  case False
  with uv have "w' = w" by (auto simp: update_view_def)
  then show ?thesis by simp
qed

lemma click_astep:
  assumes inv: "widget_inv w" and a: "attached (wdom w) (boss_key (inst w))"
    and c: "dispatch_click (boss_key (inst w)) w = Inr w'"
  shows "astep (abs_view w) (abs_view w')"
proof -
  from click_inv [OF inv a] c have "inst w' = inst w" "same_tree (wdom w') (wdom w)" by auto
  then show ?thesis by (simp add: abs_view_def same_treeD)
qed

lemma timer_astep:
  assumes inv: "widget_inv w" and ts: "timer_step w = Inr w'"
  shows "astep (abs_view w) (abs_view w')"
proof (cases "control_view_rendered (inst w)")
  case True
  with timer_step_frame [OF ts] show ?thesis by (intro astep_intro) auto
next
  case False
  with inv have "queue (wtimers w) = []" by (simp add: widget_inv_def pre_render_ok_def Let_def)
  with ts have "w' = w" by (simp add: timer_step_def next_timer_None)
  then show ?thesis by simp
qed

lemma step_astep:
  assumes inv: "widget_inv (wld s)" and en: "enabled s e" and st: "step e s = Inr s'"
    and ph: "phase s \<noteq> Constructed"
  shows "astep (abs_view (wld s)) (abs_view (wld s'))"
proof (cases e)
  case (EvInit c r)
  with en ph show ?thesis by simp
next
  case (EvUpdate c)
  with st update_astep [OF inv] show ?thesis by (auto simp: map_sum_eq_Inr)
next
  case EvOutputs
  with st show ?thesis by simp
next
  case EvDestroy
  with st show ?thesis by (auto simp: destroy_def abs_view_def)
next
  case EvClick
  with st en click_astep [OF inv] show ?thesis by (auto simp: map_sum_eq_Inr)
next
  case EvTimer
  with st timer_astep [OF inv] show ?thesis by (auto simp: map_sum_eq_Inr)
next
  case (EvWait k)
  with st show ?thesis by (auto simp: abs_view_def)
qed

end
