(* ===== verification/Alloc.thy ===== *)
theory Alloc
  imports Drain
begin

text \<open>
  What the widget allocates: \<open>init\<close> creates three elements (the container div, the
  button, the textarea) and the reveal one more (the iframe); no other handler or timer
  creates an element or changes the tag of one. So the instance's fields always hold
  elements of the types the class declares (HTMLDivElement, HTMLButtonElement, an
  iframe HTMLElement), and the document never grows by more than four elements.
\<close>

text \<open>The inline style init gives the textarea (lines 40--46).\<close>

definition textarea_style :: "string \<Rightarrow> string option" where
  "textarea_style = [''font'' \<mapsto> ''Segoe UI'', ''width'' \<mapsto> ''95%'', ''height'' \<mapsto> ''60%'',
     ''fontSize'' \<mapsto> ''14px'', ''padding'' \<mapsto> ''10px'', ''border'' \<mapsto> ''1px solid #ccc'',
     ''borderRadius'' \<mapsto> ''4px'']"

definition alloc_ok :: "handler dom \<Rightarrow> sys \<Rightarrow> bool" where
  "alloc_ok d0 s \<longleftrightarrow>
     (let d = wdom (wld s); i = inst (wld s); n0 = next_eid d0 in
      (\<forall>y\<in>{..<n0}. tag (nodes d y) = tag (nodes d0 y)) \<and>
      (if phase s = Constructed then next_eid d = n0
       else container i = n0 \<and> boss_key i = Suc n0 \<and>
            tag (nodes d n0) = ''div'' \<and> tag (nodes d (Suc n0)) = ''button'' \<and>
            tag (nodes d (Suc (Suc n0))) = ''textarea'' \<and>
            (\<forall>k. k \<noteq> ''display'' \<longrightarrow> style (nodes d (Suc (Suc n0))) k = textarea_style k) \<and>
            (if control_view_rendered i
             then next_eid d = n0 + 4 \<and> doom_iframe i = Some (n0 + 3) \<and> tag (nodes d (n0 + 3)) = ''iframe''
             else next_eid d = n0 + 3)))"

lemma run_action_alloc:
  assumes "run_action a w = Inr w'"
  shows "next_eid (wdom w') = next_eid (wdom w)" "tag (nodes (wdom w') y) = tag (nodes (wdom w) y)"
    "inst w' = inst w"
proof -
  have "next_eid (wdom w') = next_eid (wdom w) \<and> tag (nodes (wdom w') y) = tag (nodes (wdom w) y) \<and> inst w' = inst w"
  proof (cases a)
    case AnimateIn
    with assms show ?thesis by (auto simp: animate_in_def set_style_nodes split: option.splits)
  next
    case (FlyOut f)
    with assms show ?thesis by (auto simp: fly_out_def set_style_nodes)
  next
    case RemoveContainer
    with assms show ?thesis
      by (auto simp: remove_container_eq set_style_nodes detach_same split: option.splits)
  qed
  then show "next_eid (wdom w') = next_eid (wdom w)" "tag (nodes (wdom w') y) = tag (nodes (wdom w) y)"
    "inst w' = inst w" by simp_all
qed

lemma timer_step_alloc:
  assumes "timer_step w = Inr w'"
  shows "next_eid (wdom w') = next_eid (wdom w)" "tag (nodes (wdom w') y) = tag (nodes (wdom w) y)"
    "inst w' = inst w"
proof -
  have "next_eid (wdom w') = next_eid (wdom w) \<and> tag (nodes (wdom w') y) = tag (nodes (wdom w) y) \<and> inst w' = inst w"
  proof (cases "next_timer (wtimers w)")
    case None
    with assms show ?thesis by (simp add: timer_step_def)
  next
    case (Some p)
    then obtain a t where nt: "next_timer (wtimers w) = Some (a, t)" by (cases p) blast
    with assms have "run_action a (w\<lparr>wtimers := t\<rparr>) = Inr w'" by (simp add: timer_step_def)
    from run_action_alloc [OF this] show ?thesis by simp
  qed
  then show "next_eid (wdom w') = next_eid (wdom w)" "tag (nodes (wdom w') y) = tag (nodes (wdom w) y)"
    "inst w' = inst w" by simp_all
qed

lemma on_boss_key_click_alloc:
  assumes "on_boss_key_click w = Inr w'"
  shows "next_eid (wdom w') = next_eid (wdom w)" "tag (nodes (wdom w') y) = tag (nodes (wdom w) y)"
    "inst w' = inst w"
  using assms
  by (auto simp: on_boss_key_click_def Let_def set_style_nodes remove_child_def detach_same
      split: option.splits if_splits)

lemma dispatch_click_alloc:
  assumes inv: "widget_inv w" and c: "dispatch_click (boss_key (inst w)) w = Inr w'"
  shows "next_eid (wdom w') = next_eid (wdom w)" "tag (nodes (wdom w') y) = tag (nodes (wdom w) y)"
    "inst w' = inst w"
proof -
  have "listeners (nodes (wdom w) (boss_key (inst w))) = [(''click'', OnBossKeyClick)]"
    using decoy_okD(8) inv by (simp add: widget_inv_def)
  with c have "on_boss_key_click w = Inr w'" by (simp add: dispatch_click_def bindE_eq_Inr)
  from on_boss_key_click_alloc [OF this]
  show "next_eid (wdom w') = next_eid (wdom w)" "tag (nodes (wdom w') y) = tag (nodes (wdom w) y)"
    "inst w' = inst w" by simp_all
qed

lemma alloc_init:
  assumes a: "alloc_ok d0 s" and ph: "phase s = Constructed" and r: "r < next_eid (wdom (wld s))"
    and i: "init ctx r (wld s) = Inr w'"
  shows "alloc_ok d0 \<lparr>wld = w', phase = Live\<rparr>"
proof -
  note e = init_Inr_nodes [OF r i]
  from a ph have n: "next_eid (wdom (wld s)) = next_eid d0"
    and old: "\<forall>y\<in>{..<next_eid d0}. tag (nodes (wdom (wld s)) y) = tag (nodes d0 y)"
    by (simp_all add: alloc_ok_def Let_def)
  have t1: "\<forall>y\<in>{..<next_eid d0}. tag (nodes (wdom w') y) = tag (nodes d0 y)"
    using old n by (simp add: e(5))
  have t2: "style (nodes (wdom w') (Suc (Suc (next_eid d0)))) = textarea_style"
    using n r by (simp add: e(5) textarea_style_def)
  have t3: "tag (nodes (wdom w') (next_eid d0)) = ''div''" "tag (nodes (wdom w') (Suc (next_eid d0))) = ''button''"
    "tag (nodes (wdom w') (Suc (Suc (next_eid d0)))) = ''textarea''"
    using n r by (simp_all add: e(5))
  from t1 t2 t3 show ?thesis using n r by (simp add: alloc_ok_def Let_def e(1-4))
qed

lemma alloc_reveal:
  assumes inv: "widget_inv w" and a: "alloc_ok d0 s" and ws: "wld s = w" and ph: "phase s \<noteq> Constructed"
    and nr: "\<not> control_view_rendered (inst w)" and five: "doom_raw ctx = Some 5"
    and uv: "update_view ctx w = Inr w'"
  shows "alloc_ok d0 (s\<lparr>wld := w'\<rparr>)"
proof -
  let ?n0 = "next_eid d0"
  from a ws ph nr have fs: "container (inst w) = ?n0" "boss_key (inst w) = Suc ?n0"
    "tag (nodes (wdom w) ?n0) = ''div''" "tag (nodes (wdom w) (Suc ?n0)) = ''button''"
    "tag (nodes (wdom w) (Suc (Suc ?n0))) = ''textarea''" "next_eid (wdom w) = ?n0 + 3"
    and old: "\<forall>y\<in>{..<?n0}. tag (nodes (wdom w) y) = tag (nodes d0 y)"
    and sty: "\<forall>k. k \<noteq> ''display'' \<longrightarrow> style (nodes (wdom w) (Suc (Suc ?n0))) k = textarea_style k"
    by (simp_all add: alloc_ok_def Let_def)
  obtain w2 where uv2: "update_view ctx w = Inr w2"
    and i': "inst w2 = (inst w)\<lparr>control_view_rendered := True, doom_iframe := Some (next_eid (wdom w))\<rparr>"
    and n': "next_eid (wdom w2) = Suc (next_eid (wdom w))"
    and nd: "\<And>y. nodes (wdom w2) y =
       (if y = next_eid (wdom w) then iframe_node (container (inst w))
        else if y = boss_key (inst w) then nodes (wdom w) y\<lparr>parent := Some (container (inst w))\<rparr>
        else if y = container (inst w) then nodes (wdom w) y\<lparr>children := [next_eid (wdom w), boss_key (inst w)]\<rparr>
        else if y = textarea_of w then (nodes (wdom w) y)\<lparr>style := (style (nodes (wdom w) y))(''display'' \<mapsto> ''none'')\<rparr>
        else nodes (wdom w) y)"
    by (rule reveal_step [OF inv nr five]) blast
  from uv uv2 have w2: "w' = w2" by simp
  have tg: "tag (nodes (wdom w2) y) = (if y = ?n0 + 3 then ''iframe'' else tag (nodes (wdom w) y))" for y
    using fs by (simp add: nd iframe_node_def)
  have "\<forall>y\<in>{..<?n0}. tag (nodes (wdom w2) y) = tag (nodes d0 y)" using old by (simp add: tg)
  moreover have "\<forall>k. k \<noteq> ''display'' \<longrightarrow> style (nodes (wdom w2) (Suc (Suc ?n0))) k = textarea_style k"
    using sty fs by (simp add: nd textarea_of_def)
  ultimately show ?thesis using fs ph i' n' w2 by (simp add: alloc_ok_def Let_def tg)
qed

lemma alloc_update:
  assumes inv: "widget_inv w" and a: "alloc_ok d0 s" and ws: "wld s = w" and ph: "phase s \<noteq> Constructed"
    and uv: "update_view c w = Inr w'"
  shows "alloc_ok d0 (s\<lparr>wld := w'\<rparr>)"
proof (cases "\<not> control_view_rendered (inst w) \<and> doom_raw c = Some 5")
  case True
  with alloc_reveal [OF inv a ws ph _ _ uv] show ?thesis by simp
next
  case False
  with uv have "w' = w" by (auto simp: update_view_def)
  with a ws show ?thesis by (cases s) simp
qed

lemma alloc_frame:
  assumes a: "alloc_ok d0 s" and ph: "phase s' \<noteq> Constructed" "phase s \<noteq> Constructed"
    and n: "next_eid (wdom w') = next_eid (wdom (wld s))"
    and t: "\<And>y. tag (nodes (wdom w') y) = tag (nodes (wdom (wld s)) y)" and i: "inst w' = inst (wld s)"
    and st: "\<And>k. k \<noteq> ''display'' \<Longrightarrow>
       style (nodes (wdom w') (textarea_of (wld s))) k = style (nodes (wdom (wld s)) (textarea_of (wld s))) k"
    and s': "wld s' = w'"
  shows "alloc_ok d0 s'"
proof -
  from a ph have "textarea_of (wld s) = Suc (Suc (next_eid d0))"
    by (simp add: alloc_ok_def Let_def textarea_of_def)
  with a ph st show ?thesis by (simp add: alloc_ok_def Let_def n t i s')
qed

lemma timer_step_textarea_style:
  assumes inv: "widget_inv w" and ts: "timer_step w = Inr w'" and k: "k \<noteq> ''display''"
  shows "style (nodes (wdom w') (textarea_of w)) k = style (nodes (wdom w) (textarea_of w)) k"
proof (cases "next_timer (wtimers w)")
  case None
  with ts show ?thesis by (simp add: timer_step_def)
next
  case (Some x)
  then obtain a t where nt: "next_timer (wtimers w) = Some (a, t)" by (cases x) blast
  with ts have ra: "run_action a (w\<lparr>wtimers := t\<rparr>) = Inr w'" by (simp add: timer_step_def)
  from timer_action_cases [OF inv nt] obtain f where fi: "doom_iframe (inst w) = Some f"
    and tf: "textarea_of w < f" and a: "a = AnimateIn \<or> a = FlyOut f \<or> a = RemoveContainer" by blast
  from a ra fi tf k show ?thesis
    by (auto simp: animate_in_def fly_out_def remove_container_eq set_style_nodes detach_same
        split: option.splits)
qed

lemma step_alloc:
  assumes inv: "sys_inv s" and a: "alloc_ok d0 s" and en: "enabled s e" and st: "step e s = Inr s'"
  shows "alloc_ok d0 s'"
proof (cases e)
  case (EvInit c r)
  with en have ph: "phase s = Constructed" and r: "r < next_eid (wdom (wld s))" by simp_all
  with st EvInit obtain w' where "init c r (wld s) = Inr w'" "s' = \<lparr>wld = w', phase = Live\<rparr>"
    by (auto simp: map_sum_eq_Inr)
  with alloc_init [OF a ph r] show ?thesis by simp
next
  case (EvUpdate c)
  with en have ph: "phase s = Live" by simp
  with inv have wi: "widget_inv (wld s)" by (simp add: sys_inv_def)
  from st EvUpdate obtain w' where uv: "update_view c (wld s) = Inr w'" and s': "s' = s\<lparr>wld := w'\<rparr>"
    by (auto simp: map_sum_eq_Inr)
  from alloc_update [OF wi a refl _ uv] ph s' show ?thesis by simp
next
  case EvOutputs
  with st a show ?thesis by simp
next
  case EvDestroy
  with en st a show ?thesis by (auto simp: alloc_ok_def Let_def destroy_def)
next
  case EvClick
  with en have ph: "phase s = Live" and at: "attached (wdom (wld s)) (boss_key (inst (wld s)))" by simp_all
  with inv have wi: "widget_inv (wld s)" by (simp add: sys_inv_def)
  from st EvClick obtain w' where c: "dispatch_click (boss_key (inst (wld s))) (wld s) = Inr w'"
    and s': "wld s' = w'" "phase s' = phase s" by (auto simp: map_sum_eq_Inr)
  from click_inv [OF wi at] c have "style (nodes (wdom w') (textarea_of (wld s))) = style (nodes (wdom (wld s)) (textarea_of (wld s)))"
    by auto
  with dispatch_click_alloc [OF wi c] ph s' show ?thesis by (intro alloc_frame [OF a]) simp_all
next
  case EvTimer
  with en have q: "queue (wtimers (wld s)) \<noteq> []" by simp
  note ph = pending_timer_live(1) [OF inv q] and wi = pending_timer_live(2) [OF inv q]
  from st EvTimer obtain w' where ts: "timer_step (wld s) = Inr w'"
    and s': "wld s' = w'" "phase s' = phase s" by (auto simp: map_sum_eq_Inr)
  from timer_step_alloc [OF ts] timer_step_textarea_style [OF wi ts] ph s'
  show ?thesis by (intro alloc_frame [OF a]) simp_all
next
  case (EvWait k)
  with st a show ?thesis by (auto simp: alloc_ok_def Let_def)
qed

lemma reach_alloc: "reach d0 s \<Longrightarrow> alloc_ok d0 s"
proof (induction rule: reach.induct)
  case reach_start
  then show ?case by (simp add: alloc_ok_def start_def)
next
  case (reach_step s e s')
  from step_alloc [OF reach_inv [OF reach_step.hyps(1)] reach_step.IH reach_step.hyps(2,3)] show ?case .
qed

end
