(* ===== verification/Animation.thy ===== *)
theory Animation
  imports Drain
begin

text \<open>
  The entrance animation of renderDoomIframe (lines 78--98): the iframe is created with
  \<open>top = 100vh\<close>, \<open>opacity = 0\<close> and a shrunk, rotated transform, and the callback set
  with \<open>setTimeout(..., 100)\<close> gives it \<open>top = 0\<close>, \<open>opacity = 1\<close> and the identity
  transform. No other code writes these three style properties, so once the frame is
  rendered either the callback is still pending or the animation has completed.
  \<open>entrance_ok\<close> is this invariant; it holds in every reachable state, and after the
  pending timers have run the animation has completed.
\<close>

definition entrance_done :: "world \<Rightarrow> eid \<Rightarrow> bool" where
  "entrance_done w f \<longleftrightarrow>
     style (nodes (wdom w) f) ''top'' = Some ''0'' \<and> style (nodes (wdom w) f) ''opacity'' = Some ''1'' \<and>
     style (nodes (wdom w) f) ''transform'' = Some ''scale(1) rotate(0deg)''"

definition entrance_ok :: "world \<Rightarrow> bool" where
  "entrance_ok w \<longleftrightarrow>
     (case doom_iframe (inst w) of
        None \<Rightarrow> True
      | Some f \<Rightarrow> list_ex (\<lambda>(m, a). a = AnimateIn) (queue (wtimers w)) \<or> entrance_done w f)"

lemma entrance_done_keys:
  "entrance_done w f \<Longrightarrow>
   (\<And>k. k \<in> {''top'', ''opacity'', ''transform''} \<Longrightarrow> style (nodes (wdom w') f) k = style (nodes (wdom w) f) k) \<Longrightarrow>
   entrance_done w' f"
  by (simp add: entrance_done_def)

lemma run_action_entrance:
  assumes ra: "run_action a w = Inr w'" and fi: "doom_iframe (inst w) = Some f"
  shows "a = AnimateIn \<Longrightarrow> entrance_done w' f"
    and "a \<noteq> AnimateIn \<Longrightarrow> k \<in> {''top'', ''opacity'', ''transform''} \<Longrightarrow>
         style (nodes (wdom w') f) k = style (nodes (wdom w) f) k"
proof -
  show "a = AnimateIn \<Longrightarrow> entrance_done w' f"
    using ra fi by (auto simp: animate_in_def entrance_done_def set_style_nodes)
next
  assume a: "a \<noteq> AnimateIn" and k: "k \<in> {''top'', ''opacity'', ''transform''}"
  show "style (nodes (wdom w') f) k = style (nodes (wdom w) f) k"
  proof (cases a)
    case (FlyOut g)
    with ra k show ?thesis by (auto simp: fly_out_def set_style_other_key)
  next
    case RemoveContainer
    with ra k show ?thesis
      by (auto simp: remove_container_eq set_style_other_key detach_same split: option.splits)
  qed (use a in simp)
qed

lemma timer_step_entrance:
  assumes ok: "entrance_ok w" and ts: "timer_step w = Inr w'"
  shows "entrance_ok w'"
proof (cases "next_timer (wtimers w)")
  case None
  with assms show ?thesis by (simp add: timer_step_def)
next
  case (Some p)
  then obtain a t where nt: "next_timer (wtimers w) = Some (a, t)" by (cases p) blast
  with ts have ra: "run_action a (w\<lparr>wtimers := t\<rparr>) = Inr w'" by (simp add: timer_step_def)
  from next_timer_order [OF nt] obtain xs ys m
    where q: "queue (wtimers w) = xs @ (m, a) # ys" "queue t = xs @ ys" by blast
  have i': "inst w' = inst w" using run_action_frame(1) [OF ra] by simp
  show ?thesis
  proof (cases "doom_iframe (inst w)")
    case None
    with i' show ?thesis by (simp add: entrance_ok_def)
  next
    case (Some f)
    have fi: "doom_iframe (inst (w\<lparr>wtimers := t\<rparr>)) = Some f" using Some by simp
    note e = run_action_entrance [OF ra fi]
    show ?thesis
    proof (cases "a = AnimateIn")
      case True
      with e Some i' show ?thesis by (simp add: entrance_ok_def)
    next
      case False
      from ok Some have "list_ex (\<lambda>(m, a). a = AnimateIn) (queue (wtimers w)) \<or> entrance_done w f"
        by (simp add: entrance_ok_def)
      moreover have "entrance_done w f \<Longrightarrow> entrance_done w' f"
        by (rule entrance_done_keys) (use e(2) [OF False] Some in simp_all)
      ultimately show ?thesis
        using Some i' False q run_action_queue [OF ra] by (auto simp: entrance_ok_def)
    qed
  qed
qed

lemma run_timers_entrance:
  "entrance_ok w \<Longrightarrow> run_timers w = Inr w' \<Longrightarrow> entrance_ok w'"
proof (induction w rule: run_timers.induct)
  case (1 w)
  show ?case
  proof (cases "next_timer (wtimers w)")
    case None
    with "1.prems" show ?thesis by (simp add: run_timers_None)
  next
    case (Some p)
    then obtain a t where nt: "next_timer (wtimers w) = Some (a, t)" by (cases p) blast
    with "1.prems"(2) obtain w1 where ts: "timer_step w = Inr w1" and rt: "run_timers w1 = Inr w'"
      by (auto simp: run_timers_Some bindE_eq_Inr)
    from ts nt have ra: "run_action a (w\<lparr>wtimers := t\<rparr>) = Inr w1" by (simp add: timer_step_def)
    from "1.IH" [OF nt refl ra timer_step_entrance [OF "1.prems"(1) ts] rt] show ?thesis .
  qed
qed

lemma update_view_entrance:
  "update_view c w = Inr w' \<Longrightarrow> w' = w \<or> list_ex (\<lambda>(m, a). a = AnimateIn) (queue (wtimers w'))"
  by (auto simp: update_view_def render_doom_iframe_def create_iframe_element_def Let_def
      bindE_eq_Inr set_timeout_def list_ex_iff split: prod.splits if_splits)

lemma click_entrance:
  assumes inv: "widget_inv w" and att: "attached (wdom w) (boss_key (inst w))"
    and ok: "entrance_ok w" and c: "dispatch_click (boss_key (inst w)) w = Inr w'"
  shows "entrance_ok w'"
proof -
  from click_inv [OF inv att] obtain w2 f where c2: "dispatch_click (boss_key (inst w)) w = Inr w2"
    and i': "inst w2 = inst w" and fi: "doom_iframe (inst w) = Some f"
    and q: "queue (wtimers w2) = queue (wtimers w) @ [(clock (wtimers w) + 10, FlyOut f)]"
    and k: "\<forall>k. k \<notin> {''position'', ''left'', ''transition''} \<longrightarrow>
              style (nodes (wdom w2) f) k = style (nodes (wdom w) f) k" by blast
  from c c2 have w2: "w2 = w'" by simp
  from ok fi have "list_ex (\<lambda>(m, a). a = AnimateIn) (queue (wtimers w)) \<or> entrance_done w f"
    by (simp add: entrance_ok_def)
  moreover have "entrance_done w f \<Longrightarrow> entrance_done w2 f"
  proof (rule entrance_done_keys)
    fix k' :: string assume "k' \<in> {''top'', ''opacity'', ''transform''}"
    then have "k' \<notin> {''position'', ''left'', ''transition''}" by auto
    with k show "style (nodes (wdom w2) f) k' = style (nodes (wdom w) f) k'" by blast
  qed
  ultimately have "list_ex (\<lambda>(m, a). a = AnimateIn) (queue (wtimers w2)) \<or> entrance_done w2 f"
    using q by auto
  with i' fi w2 show ?thesis by (simp add: entrance_ok_def)
qed

lemma step_entrance:
  assumes inv: "sys_inv s" and ok: "entrance_ok (wld s)" and en: "enabled s e" and st: "step e s = Inr s'"
  shows "entrance_ok (wld s')"
proof (cases e)
  case (EvInit ctx r)
  with en inv have r: "r < next_eid (wdom (wld s))" and n: "doom_iframe (inst (wld s)) = None"
    by (simp_all add: sys_inv_def)
  from st EvInit obtain w' where i: "init ctx r (wld s) = Inr w'" and s': "wld s' = w'"
    by (auto simp: map_sum_eq_Inr)
  from init_Inr_nodes(3) [OF r i] n s' show ?thesis by (simp add: entrance_ok_def)
next
  case (EvUpdate c)
  from st EvUpdate obtain w' where u: "update_view c (wld s) = Inr w'" and s': "wld s' = w'"
    by (auto simp: map_sum_eq_Inr)
  from update_view_entrance [OF u] ok s' show ?thesis by (auto simp: entrance_ok_def split: option.split)
next
  case EvClick
  with en inv have "widget_inv (wld s)" and "attached (wdom (wld s)) (boss_key (inst (wld s)))"
    by (auto simp: sys_inv_def)
  moreover from st EvClick obtain w' where "dispatch_click (boss_key (inst (wld s))) (wld s) = Inr w'"
    and "wld s' = w'" by (auto simp: map_sum_eq_Inr)
  ultimately show ?thesis using click_entrance ok by simp
next
  case EvTimer
  from st EvTimer obtain w' where "timer_step (wld s) = Inr w'" and "wld s' = w'"
    by (auto simp: map_sum_eq_Inr)
  with timer_step_entrance [OF ok] show ?thesis by simp
qed (use st ok in \<open>auto simp: destroy_def entrance_ok_def entrance_done_def split: option.splits\<close>)

lemma reach_entrance: "reach d0 s \<Longrightarrow> entrance_ok (wld s)"
proof (induction rule: reach.induct)
  case reach_start
  then show ?case by (simp add: entrance_ok_def start_def undefined_widget_def)
next
  case (reach_step s e s')
  from step_entrance [OF reach_inv [OF reach_step.hyps(1)] reach_step.IH reach_step.hyps(2,3)]
  show ?case .
qed

end
