(* ===== verification/Host.thy ===== *)
theory Host
  imports Drain Visibility
begin

text \<open>
  The host page is left alone. The class writes to the page it is put into only through
  the host container's child list: init appends the textarea and the container to it
  (lines 48--49) and the removal timer takes the container out again (line 140). Every
  other element of the page keeps its node record, and the host container keeps
  everything but its child list. \<open>page_frame d0 w\<close> states this of a world against the
  page \<open>d0\<close> as the host built it; \<open>host_kept\<close> lifts it to the host's states, and
  \<open>reach_host\<close> proves it for every reachable state, one frame lemma per handler.
\<close>

definition page_frame :: "handler dom \<Rightarrow> world \<Rightarrow> bool" where
  "page_frame d0 w \<longleftrightarrow>
     (let d = wdom w; i = inst w; r = root_container i; c = container i in
      r < next_eid d0 \<and> c = next_eid d0 \<and>
      (\<forall>y\<in>{..<next_eid d0}. y \<noteq> r \<longrightarrow> nodes d y = nodes d0 y) \<and>
      nodes d r = (nodes d0 r)\<lparr>children := children (nodes d0 r) @
         textarea_of w # (if parent (nodes d c) = None then [] else [c])\<rparr>)"

definition host_kept :: "handler dom \<Rightarrow> sys \<Rightarrow> bool" where
  "host_kept d0 s \<longleftrightarrow>
     (if phase s = Constructed then wdom (wld s) = d0 else page_frame d0 (wld s))"

lemma page_frame_same:
  assumes pf: "page_frame d0 w"
    and i: "root_container (inst w') = root_container (inst w)" "container (inst w') = container (inst w)"
      "boss_key (inst w') = boss_key (inst w)"
    and n: "\<And>y. y < next_eid d0 \<Longrightarrow> nodes (wdom w') y = nodes (wdom w) y"
    and p: "parent (nodes (wdom w') (container (inst w))) = parent (nodes (wdom w) (container (inst w)))"
  shows "page_frame d0 w'"
proof -
  from pf have r: "root_container (inst w) < next_eid d0" by (simp add: page_frame_def Let_def)
  with pf n [OF r] p show ?thesis by (simp add: page_frame_def Let_def i n textarea_of_def)
qed

lemma page_html_id:
  assumes pf: "page_frame d0 w" and pk: "page_ok d0" and y: "y < next_eid d0"
  shows "html_id (nodes (wdom w) y) \<noteq> Some serious_id"
  using pf pk y by (cases "y = root_container (inst w)") (auto simp: page_frame_def page_ok_def Let_def)

lemma page_frame_below:
  assumes inv: "widget_inv w" and pf: "page_frame d0 w"
  shows "container (inst w) = next_eid d0" "boss_key (inst w) = Suc (next_eid d0)"
    "textarea_of w = Suc (Suc (next_eid d0))"
  using pf decoy_okD(1) inv by (simp_all add: page_frame_def Let_def widget_inv_def textarea_of_def)

lemma init_frame:
  assumes d: "wdom w = d0" and r: "r < next_eid d0" and i: "init ctx r w = Inr w'"
  shows "page_frame d0 w'"
proof -
  from r d have r': "r < next_eid (wdom w)" by simp
  note e = init_Inr_nodes [OF r' i]
  from r show ?thesis by (simp add: page_frame_def Let_def e d textarea_of_def)
qed

lemma update_frame:
  assumes inv: "widget_inv w" and pf: "page_frame d0 w" and u: "update_view ctx w = Inr w'"
  shows "page_frame d0 w'"
proof (cases "\<not> control_view_rendered (inst w) \<and> doom_raw ctx = Some 5")
  case False
  with u have "w' = w" by (auto simp: update_view_def)
  with pf show ?thesis by simp
next
  case True
  then have nr: "\<not> control_view_rendered (inst w)" and five: "doom_raw ctx = Some 5" by simp_all
  obtain w2 where u2: "update_view ctx w = Inr w2"
    and i2: "inst w2 = (inst w)\<lparr>control_view_rendered := True, doom_iframe := Some (next_eid (wdom w))\<rparr>"
    and nd: "\<And>y. nodes (wdom w2) y =
       (if y = next_eid (wdom w) then iframe_node (container (inst w))
        else if y = boss_key (inst w) then nodes (wdom w) y\<lparr>parent := Some (container (inst w))\<rparr>
        else if y = container (inst w) then nodes (wdom w) y\<lparr>children := [next_eid (wdom w), boss_key (inst w)]\<rparr>
        else if y = textarea_of w then (nodes (wdom w) y)\<lparr>style := (style (nodes (wdom w) y))(''display'' \<mapsto> ''none'')\<rparr>
        else nodes (wdom w) y)"
    by (rule reveal_step [OF inv nr five]) blast
  from u u2 have w2: "w2 = w'" by simp
  note b = page_frame_below [OF inv pf]
  have lt: "textarea_of w < next_eid (wdom w)" using decoy_okD(2) inv by (simp add: widget_inv_def)
  show ?thesis
  proof (rule page_frame_same [OF pf])
    fix y assume "y < next_eid d0"
    with b lt show "nodes (wdom w') y = nodes (wdom w) y" by (simp add: nd w2 [symmetric])
  qed (use b lt in \<open>simp_all add: nd i2 w2 [symmetric]\<close>)
qed

lemma click_frame:
  assumes inv: "widget_inv w" and att: "attached (wdom w) (boss_key (inst w))"
    and pf: "page_frame d0 w" and c: "dispatch_click (boss_key (inst w)) w = Inr w'"
  shows "page_frame d0 w'"
proof -
  from click_inv [OF inv att] obtain w2 f where c2: "dispatch_click (boss_key (inst w)) w = Inr w2"
    and i2: "inst w2 = inst w" and tf: "textarea_of w < f"
    and nd: "\<forall>y. y \<noteq> f \<longrightarrow> nodes (wdom w2) y = nodes (wdom w) y" by blast
  from c c2 have w2: "w2 = w'" by simp
  note b = page_frame_below [OF inv pf]
  show ?thesis
  proof (rule page_frame_same [OF pf])
    fix y assume "y < next_eid d0"
    with b tf nd show "nodes (wdom w') y = nodes (wdom w) y" by (simp add: w2 [symmetric])
  qed (use b tf nd in \<open>simp_all add: i2 w2 [symmetric]\<close>)
qed

lemma detach_frame:
  assumes pf: "page_frame d0 w" and pk: "page_ok d0"
    and cp: "parent (nodes (wdom w) (container (inst w))) = Some (root_container (inst w)) \<or>
      parent (nodes (wdom w) (container (inst w))) = None"
    and tc: "textarea_of w \<noteq> container (inst w)"
  defines "D \<equiv> detach (container (inst w)) (wdom w)" and "r \<equiv> root_container (inst w)"
  shows "nodes D r = (nodes d0 r)\<lparr>children := children (nodes d0 r) @ [textarea_of w]\<rparr>"
    and "y < next_eid d0 \<Longrightarrow> y \<noteq> r \<Longrightarrow> nodes D y = nodes d0 y"
proof -
  let ?d = "wdom w" and ?c = "container (inst w)" and ?n = "next_eid d0" and ?t = "textarea_of w"
  from pf have lt: "r < ?n" and c: "?c = ?n"
    and old: "\<And>y. y < ?n \<Longrightarrow> y \<noteq> r \<Longrightarrow> nodes ?d y = nodes d0 y"
    and nr: "nodes ?d r = (nodes d0 r)\<lparr>children := children (nodes d0 r) @
               ?t # (if parent (nodes ?d ?c) = None then [] else [?c])\<rparr>"
    by (simp_all add: page_frame_def Let_def r_def)
  from pk lt have "?c \<notin> set (children (nodes d0 r))"
    using wf_dom_child_alloc [of d0 r ?c] c by (auto simp: page_ok_def)
  then have rm: "remove1 ?c (children (nodes d0 r) @ [?t, ?c]) = children (nodes d0 r) @ [?t]"
    using tc by (simp add: remove1_append)
  show "nodes D r = (nodes d0 r)\<lparr>children := children (nodes d0 r) @ [?t]\<rparr>"
  proof (cases "parent (nodes ?d ?c)")
    case None
    with nr show ?thesis by (simp add: D_def detach_def)
  next
    case (Some q)
    with cp have "q = r" by (simp add: r_def)
    with Some nr rm lt c show ?thesis by (simp add: D_def detach_old_parent)
  qed
  assume "y < ?n" "y \<noteq> r"
  moreover have "parent (nodes ?d ?c) \<noteq> Some y" using cp \<open>y \<noteq> r\<close> by (auto simp: r_def)
  ultimately show "nodes D y = nodes d0 y" using c by (simp add: D_def detach_other old)
qed

lemma remove_frame:
  assumes pf: "page_frame d0 w" and pk: "page_ok d0" and rc: "remove_container w = Inr w'"
    and cp: "parent (nodes (wdom w) (container (inst w))) = Some (root_container (inst w)) \<or>
      parent (nodes (wdom w) (container (inst w))) = None"
    and tc: "textarea_of w \<noteq> container (inst w)"
  shows "page_frame d0 w'"
proof -
  let ?c = "container (inst w)" and ?r = "root_container (inst w)" and ?n = "next_eid d0"
  let ?D = "detach ?c (wdom w)"
  note D = detach_frame [OF pf pk cp tc]
  from pf have r: "?r < ?n" and c: "?c = ?n" by (simp_all add: page_frame_def Let_def)
  have hid: "html_id (nodes ?D y) \<noteq> Some serious_id" if "y < ?n" for y
    using page_html_id [OF pf pk that] by (simp add: detach_same)
  from rc have w': "w' = w\<lparr>wdom := (case get_element_by_id ?D serious_id of
      None \<Rightarrow> ?D | Some t \<Rightarrow> set_style t ''display'' ''block'' ?D)\<rparr>"
    by (simp add: remove_container_eq)
  have keep: "nodes (wdom w') y = nodes ?D y" if "y < ?n" for y
    using hid [OF that] get_element_by_id_Some [of ?D serious_id]
    by (auto simp: w' set_style_nodes split: option.split)
  have par: "parent (nodes (wdom w') ?c) = None"
    by (simp add: w' set_style_nodes detach_parent_self split: option.split)
  show ?thesis
    using r c keep [OF r] D keep par by (simp add: page_frame_def Let_def w' textarea_of_def)
qed

lemma timer_frame:
  assumes inv: "widget_inv w" and pf: "page_frame d0 w" and pk: "page_ok d0"
    and ts: "timer_step w = Inr w'"
  shows "page_frame d0 w'"
proof (cases "next_timer (wtimers w)")
  case None
  with ts pf show ?thesis by (simp add: timer_step_def)
next
  case (Some p)
  then obtain a t where nt: "next_timer (wtimers w) = Some (a, t)" by (cases p) blast
  let ?w1 = "w\<lparr>wtimers := t\<rparr>"
  from ts nt have ra: "run_action a ?w1 = Inr w'" by (simp add: timer_step_def)
  from timer_action_cases [OF inv nt] obtain f where fi: "doom_iframe (inst w) = Some f"
    and tf: "textarea_of w < f" and a: "a = AnimateIn \<or> a = FlyOut f \<or> a = RemoveContainer" by blast
  have pf1: "page_frame d0 ?w1" using pf by (simp add: page_frame_def textarea_of_def)
  note b = page_frame_below [OF inv pf]
  show ?thesis
  proof (cases "a = RemoveContainer")
    case True
    from ra True have "remove_container ?w1 = Inr w'" by simp
    from remove_frame [OF pf1 pk this] container_parent [OF inv] b show ?thesis by simp
  next
    case False
    with a have af: "a = AnimateIn \<or> a = FlyOut f" by simp
    have "nodes (wdom w') y = nodes (wdom ?w1) y" if "y < next_eid d0" for y
    proof -
      from that b tf have "y \<noteq> f" by simp
      with af ra fi show ?thesis by (auto simp: animate_in_def fly_out_def set_style_nodes)
    qed
    with run_action_frame [OF ra] False show ?thesis by (intro page_frame_same [OF pf1]) simp_all
  qed
qed

lemma step_host:
  assumes inv: "sys_inv s" and hk: "host_kept d0 s" and pk: "page_ok d0"
    and en: "enabled s e" and st: "step e s = Inr s'"
  shows "host_kept d0 s'"
proof (cases e)
  case (EvInit ctx r)
  with en hk have d: "wdom (wld s) = d0" and r: "r < next_eid d0" by (simp_all add: host_kept_def)
  from st EvInit obtain w' where "init ctx r (wld s) = Inr w'" and "s' = \<lparr>wld = w', phase = Live\<rparr>"
    by (auto simp: map_sum_eq_Inr)
  with init_frame [OF d r] show ?thesis by (simp add: host_kept_def)
next
  case (EvUpdate c)
  with en inv hk have wi: "widget_inv (wld s)" and pf: "page_frame d0 (wld s)" and ph: "phase s = Live"
    by (simp_all add: sys_inv_def host_kept_def)
  from st EvUpdate obtain w' where "update_view c (wld s) = Inr w'" and "s' = s\<lparr>wld := w'\<rparr>"
    by (auto simp: map_sum_eq_Inr)
  with update_frame [OF wi pf] ph show ?thesis by (simp add: host_kept_def)
next
  case EvClick
  with en inv hk have wi: "widget_inv (wld s)" and pf: "page_frame d0 (wld s)" and ph: "phase s = Live"
    and at: "attached (wdom (wld s)) (boss_key (inst (wld s)))" by (simp_all add: sys_inv_def host_kept_def)
  from st EvClick obtain w' where "dispatch_click (boss_key (inst (wld s))) (wld s) = Inr w'"
    and "s' = s\<lparr>wld := w'\<rparr>" by (auto simp: map_sum_eq_Inr)
  with click_frame [OF wi at pf] ph show ?thesis by (simp add: host_kept_def)
next
  case EvTimer
  with en have q: "queue (wtimers (wld s)) \<noteq> []" by simp
  note ph = pending_timer_live(1) [OF inv q] and wi = pending_timer_live(2) [OF inv q]
  from ph hk have pf: "page_frame d0 (wld s)" by (simp add: host_kept_def)
  from st EvTimer obtain w' where "timer_step (wld s) = Inr w'" and "s' = s\<lparr>wld := w'\<rparr>"
    by (auto simp: map_sum_eq_Inr)
  with timer_frame [OF wi pf pk] ph show ?thesis by (simp add: host_kept_def)
next
  case EvDestroy
  with en st hk show ?thesis by (auto simp: host_kept_def destroy_def)
next
  case (EvWait k)
  with st hk show ?thesis by (auto simp: host_kept_def page_frame_def Let_def textarea_of_def)
qed (use st hk in simp)

lemma reach_page_ok: "reach d0 s \<Longrightarrow> page_ok d0"
  by (induction rule: reach.induct) simp_all

lemma reach_host: "reach d0 s \<Longrightarrow> host_kept d0 s"
proof (induction rule: reach.induct)
  case reach_start
  then show ?case by (simp add: host_kept_def start_def)
next
  case (reach_step s e s')
  from step_host [OF reach_inv [OF reach_step.hyps(1)] reach_step.IH
      reach_page_ok [OF reach_step.hyps(1)] reach_step.hyps(2,3)]
  show ?case .
qed

end
