(* ===== verification/Spec2Isabelle.thy ===== *)
theory Spec2Isabelle
  imports Abstract Alloc Animation Host
begin

text \<open>
  \<^bold>\<open>PcfDoom: a verification development of src/PcfDoomComponent/index.ts.\<close>

  \<^bold>\<open>The program.\<close> The repository is one TypeScript class, PcfDoomComponent, a control
  of the Power Apps component framework. The host calls \<open>init\<close> once with an empty
  host container; the control builds a wrapper div (the container), a BOSS KEY button
  with a click listener, and a textarea with id seriousTextArea (the decoy), and appends
  the textarea and the container to the host container. \<open>updateView\<close> reveals the
  frame once the option value is 5: it hides the element found by
  getElementById('seriousTextArea'), creates an iframe (createIFrameElement), appends it
  and the boss key to the container, sets its src and starts a 100 ms timer for the
  entry animation. A click on the boss key (onBossKeyClick) starts a 10 ms timer that
  moves the iframe left and sets a 500 ms timer that takes the container out of the page
  and gives the element found by id display block. \<open>getOutputs\<close> and \<open>destroy\<close> are
  empty.

  \<^bold>\<open>Theories.\<close>
  \<^item> Prelude: node references and milliseconds, the exceptions \<open>js_error\<close>, the
    exception monad's bind \<open>bindE\<close> with its congruences, shared list lemmas.
  \<^item> Dom: the browser DOM the class calls, as a store \<open>nodes\<close> from references to node
    records with a fresh-reference counter (createElement, classList.add, style, id,
    setAttribute, addEventListener, appendChild with HierarchyRequestError, removeChild
    with NotFoundError, getElementById and querySelector by class in tree order), the
    well-formedness \<open>wf_dom\<close> of the tree and its preservation by every operation.
  \<^item> Timers: setTimeout and the event loop's choice of the next timer (earliest due
    time, first set among equals), with the clock advanced to the due time.
  \<^item> Widget: the class itself. The private fields are the record \<open>widget\<close>; each method is
    one definition on the world (document, timers, fields): \<open>init\<close> (lines 20--54),
    \<open>update_view\<close> (60--73), \<open>render_doom_iframe\<close> (74--99), \<open>create_iframe_element\<close>
    (101--105), \<open>get_outputs\<close> (111--113), \<open>destroy\<close> (119--121),
    \<open>on_boss_key_click\<close> (122--154); the three arrow functions passed to setTimeout are
    the datatype \<open>action\<close> with \<open>animate_in\<close> (94--98), \<open>fly_out\<close> (134--148) and
    \<open>remove_container\<close> (138--147). A method returns \<open>Inl\<close> of the exception that
    escapes it; the TypeError of reading a field of an undefined iframe is modelled.
  \<^item> Lifecycle: the host and the event loop as one step function \<open>step\<close> on events
    (init, updateView, getOutputs, destroy, a user click on the boss key, a due timer,
    time passing), the guard \<open>enabled\<close> of what can happen (init once on an attached host
    container, lifecycle calls while live, clicks only on a boss key that is in the page,
    timers only when one is pending), the reachable states \<open>reach\<close>, and the invariant
    \<open>widget_inv\<close> (host container in place, decoy unique by id, before and after the
    reveal) proved for every reachable state (\<open>reach_inv\<close>), one preservation lemma per
    handler.
  \<^item> Visibility: which of the widget's elements are in the page: the iframe and the
    boss key exactly while the container is, and what a scripted click before the
    reveal does to them.
  \<^item> Drain: the event loop running the pending timers to the end, \<open>run_timers\<close>, total by
    the measure \<open>queue_weight\<close> (two for a fly-out timer, one for the others: a fly-out
    is replaced by one removal timer), and the lemmas that the panic ends with the
    container out of the page.
  \<^item> Abstract: the contract as a machine of three views (decoy, revealed, dismissed)
    with \<open>astep\<close>, the abstraction \<open>abs_view\<close> and what each view shows (\<open>view_ok\<close>),
    and the lemma that every step moves along it.
  \<^item> Alloc: what the widget allocates (\<open>alloc_ok\<close>): three elements at init, one at the
    reveal, with their tags, and the textarea's style apart from display
    (\<open>textarea_style\<close>), proved for every reachable state by rule induction.
  \<^item> Animation: the entrance animation of renderDoomIframe (lines 78--98) as the
    invariant \<open>entrance_ok\<close> (the 100 ms callback is pending, or the iframe has
    top 0, opacity 1 and the identity transform), proved for every reachable state
    (\<open>reach_entrance\<close>) and kept by \<open>run_timers\<close>.
  \<^item> Host: the host page is left alone: \<open>page_frame\<close> says that every element of
    the page the host built keeps its record, except that the host container's child
    list gains the textarea and, while it is in the page, the container; one frame
    lemma per handler, and \<open>reach_host\<close> for every reachable state.
  \<^item> Spec2Isabelle (this theory): the properties C1--C25 and their witnesses on a
    small page (\<open>demo_page\<close>, \<open>two_host_page\<close>).

  \<^bold>\<open>Model choices.\<close> Node references are allocated in order, so after \<open>init\<close> the
  container, the boss key and the textarea are the three references after the page's
  nodes and the iframe is the next one; \<open>textarea_of\<close> names the textarea from the boss
  key, as the code keeps no field for it. The tree walks \<open>desc\<close> and \<open>anc\<close> carry fuel
  \<open>next_eid + 1\<close> and \<open>next_eid\<close>: a path in a well-formed tree visits each allocated node
  at most once, so that fuel is enough (\<open>attached_desc\<close>). The option value is the raw
  nullable number; JavaScript's \<open>==\<close> against 5 is equality on it. Styles and attributes
  are stored strings; the clock is a natural number of milliseconds.

  \<^bold>\<open>What is proved.\<close> C1 init shows the decoy; C2 no handler raises in any reachable
  state; C3 the decoy is hidden exactly while the frame is in the page; C4 the panic
  button restores the decoy and removes the frame (liveness, through \<open>run_timers\<close>);
  C5 the timers always run out; C6 the panic is not instant; C7 the reveal on value 5;
  C8 every step refines the three-view machine and shows what its view promises (its
  Dismissed row says the panic is final: the rendered flag is never reset); C9 a
  scripted click before the reveal blanks the widget for good; C10 the fields hold
  elements of their declared types; C11 exactly three elements are created at init and
  one at the reveal; C12 updateView is idempotent; C13 at every point of the timers a
  first click sets, the container is out or the decoy shown only once the clock is
  510 ms past the click (\<open>timer_steps\<close> runs any number of due timers). The event
  loop's clock jumps to the due time of the timer it runs (\<open>next_timer\<close>), so the
  bound of C13 is on the clock, not on wall time. C14 every pending timer belongs to
  the widget's iframe, so the animation callback never raises; C15 a user's click
  always finds the iframe (the else branch of onBossKeyClick is dead for users); C16
  before the reveal the boss key is not in the page; C17 the panic gives the textarea
  back the style init set, with display block instead of no display; C18 init appends
  the textarea and then the container to the host container and touches nothing else;
  C19 the entrance animation always completes once the pending timers have run; C20
  the boss key keeps exactly the one click listener init registered; C21 no handler
  changes the host's page beyond the host container's child list.

  The lemma \<open>two_instances_share_decoy_id\<close> computes one scenario, two instances on
  a page with two host containers, as evidence for the finding that the constant id
  makes the second instance act on the first instance's textarea; it is not a claim
  about every page. That destroy (lines 119--121) cleans nothing up, although its doc
  comment asks for cleanup, is read off its empty body (\<open>destroy w = w\<close>).

  \<^bold>\<open>Not modelled.\<close> The generated ManifestTypes (not in the repository; only the raw
  option value is read), the rendering of styles and CSS transitions (not observable by
  the code), the page the iframe loads, the notifyOutputChanged callback and the state
  dictionary (unused by the code), DOM events other than click, and timer clamping or
  drift of the browser's clock.
\<close>

definition demo_page :: "handler dom" where
  "demo_page = \<lparr>nodes = (\<lambda>_. empty_node)(0 := empty_node\<lparr>tag := ''html'', children := [1]\<rparr>,
                                       1 := empty_node\<lparr>tag := ''div'', parent := Some 0\<rparr>),
                next_eid = 2, doc_root = 0\<rparr>"

definition two_host_page :: "handler dom" where
  "two_host_page = \<lparr>nodes = (\<lambda>_. empty_node)(0 := empty_node\<lparr>tag := ''html'', children := [1, 2]\<rparr>,
                                       1 := empty_node\<lparr>tag := ''div'', parent := Some 0\<rparr>,
                                       2 := empty_node\<lparr>tag := ''div'', parent := Some 0\<rparr>),
                next_eid = 3, doc_root = 0\<rparr>"

lemma demo_page_ok: "page_ok demo_page"
  by (simp add: page_ok_def wf_dom_def demo_page_def empty_node_def lessThan_nat_numeral serious_id_def)

lemma demo_page_attached: "attached demo_page 1"
  by (simp add: attached_def demo_page_def empty_node_def numeral_eq_Suc)

lemma demo_init_reach:
  "\<exists>s. step (EvInit ctx 1) (start demo_page) = Inr s \<and> reach demo_page s \<and> phase s = Live \<and>
       \<not> control_view_rendered (inst (wld s))"
proof -
  have en: "enabled (start demo_page) (EvInit ctx 1)"
    using demo_page_attached by (simp add: start_def demo_page_def)
  obtain w where i: "init ctx 1 (wld (start demo_page)) = Inr w"
    using init_succeeds [of 1 "wld (start demo_page)" ctx] by (auto simp: start_def demo_page_def)
  then have st: "step (EvInit ctx 1) (start demo_page) = Inr \<lparr>wld = w, phase = Live\<rparr>" by simp
  have "reach demo_page \<lparr>wld = w, phase = Live\<rparr>"
    by (rule reach_step [OF reach_start [OF demo_page_ok] en st])
  moreover have "\<not> control_view_rendered (inst w)"
    using init_Inr_nodes(3) [OF _ i] by (simp add: start_def demo_page_def)
  ultimately show ?thesis using st by auto
qed

lemma demo_revealed:
  "\<exists>s. reach demo_page s \<and> phase s = Live \<and> attached (wdom (wld s)) (boss_key (inst (wld s))) \<and>
       queue (wtimers (wld s)) \<noteq> [] \<and> list_all (\<lambda>(m, a). a = AnimateIn) (queue (wtimers (wld s)))"
proof -
  let ?c5 = "\<lparr>doom_raw = Some 5\<rparr>"
  obtain s where r: "reach demo_page s" and ph: "phase s = Live" and nr: "\<not> control_view_rendered (inst (wld s))"
    using demo_init_reach [of "\<lparr>doom_raw = None\<rparr>"] by blast
  from reach_inv [OF r] ph have inv: "widget_inv (wld s)" by (simp add: sys_inv_def)
  from reveal_inv [OF inv nr, of ?c5] obtain w' where uv: "update_view ?c5 (wld s) = Inr w'" by auto
  then have st: "step (EvUpdate ?c5) s = Inr (s\<lparr>wld := w'\<rparr>)" by simp
  obtain w2 where "update_view ?c5 (wld s) = Inr w2" "wtimers w2 = set_timeout 100 AnimateIn (wtimers (wld s))"
    by (rule reveal_step [OF inv nr, of ?c5]) simp_all
  moreover have "queue (wtimers (wld s)) = []"
    using inv nr by (simp add: widget_inv_def pre_render_ok_def Let_def)
  ultimately have q: "queue (wtimers w') \<noteq> [] \<and> list_all (\<lambda>(m, a). a = AnimateIn) (queue (wtimers w'))"
    using uv by simp
  have "reach demo_page (s\<lparr>wld := w'\<rparr>)" using reach_step [OF r _ st] ph by simp
  moreover have "attached (wdom w') (boss_key (inst w'))" using reveal_attached(2) [OF inv nr _ uv] by simp
  ultimately show ?thesis using ph q by (intro exI [of _ "s\<lparr>wld := w'\<rparr>"]) simp
qed

lemma demo_dismissed:
  "\<exists>s. reach demo_page s \<and> phase s = Live \<and> abs_view (wld s) = Dismissed"
proof -
  obtain s where r: "reach demo_page s" and ph: "phase s = Live"
    and a: "attached (wdom (wld s)) (boss_key (inst (wld s)))" using demo_revealed by blast
  from reach_inv [OF r] ph have inv: "widget_inv (wld s)" by (simp add: sys_inv_def)
  from panic_drain [OF inv a] obtain w1 w2 where c: "dispatch_click (boss_key (inst (wld s))) (wld s) = Inr w1"
    and rt: "run_timers w1 = Inr w2" and i2: "inst w2 = inst (wld s)"
    and rd: "control_view_rendered (inst (wld s))"
    and pc: "parent (nodes (wdom w2) (container (inst (wld s)))) = None" by blast
  have en: "enabled s EvClick" using ph a by simp
  have "step EvClick s = Inr (s\<lparr>wld := w1\<rparr>)" using c by simp
  from reach_step [OF r en this] have "reach demo_page (s\<lparr>wld := w1\<rparr>)" .
  from reach_run_timers [OF this _ rt] have "reach demo_page (s\<lparr>wld := w2\<rparr>)" by simp
  moreover have "abs_view w2 = Dismissed" using i2 rd pc by (simp add: abs_view_def)
  ultimately show ?thesis using ph by (intro exI [of _ "s\<lparr>wld := w2\<rparr>"]) simp
qed

text \<open>C1: after init the decoy textarea is in the page, found by its id, and visible.\<close>

theorem decoy_after_init:
  assumes p: "page_ok d" and r: "r < next_eid d" and a: "attached d r"
    and i: "init ctx r (wld (start d)) = Inr w"
  shows "\<exists>t. get_element_by_id (wdom w) serious_id = Some t \<and> tag (nodes (wdom w) t) = ''textarea'' \<and>
             parent (nodes (wdom w) t) = Some r \<and> attached (wdom w) t \<and>
             style (nodes (wdom w) t) ''display'' = None"
proof -
  have r': "r < next_eid (wdom (wld (start d)))" using r by (simp add: start_def)
  note e = init_Inr_nodes [OF r' i]
  have inv: "widget_inv w"
    using p r a i by (intro inv_init [of "wld (start d)" r ctx]) (simp_all add: start_def undefined_widget_def)
  then have h: "host_ok w" and dk: "decoy_ok w" and pre: "pre_render_ok w"
    using e(3) by (simp_all add: widget_inv_def)
  have tw: "textarea_of w = Suc (Suc (next_eid d))" by (simp add: textarea_of_def e(3) start_def)
  have tag: "tag (nodes (wdom w) (textarea_of w)) = ''textarea''" using r by (simp add: tw e(5) start_def)
  have par: "parent (nodes (wdom w) (textarea_of w)) = Some r" using r by (simp add: tw e(5) start_def)
  have dis: "style (nodes (wdom w) (textarea_of w)) ''display'' = None"
    using pre by (simp add: pre_render_ok_def Let_def)
  from widget_inv_textarea [OF inv] textarea_attached [OF h dk] tag par dis show ?thesis by blast
qed

theorem decoy_after_init_witness:
  "page_ok demo_page \<and> 1 < next_eid demo_page \<and> attached demo_page 1 \<and>
   (\<exists>w. init \<lparr>doom_raw = None\<rparr> 1 (wld (start demo_page)) = Inr w \<and>
     (\<exists>t. get_element_by_id (wdom w) serious_id = Some t \<and> tag (nodes (wdom w) t) = ''textarea'' \<and>
          parent (nodes (wdom w) t) = Some 1 \<and> attached (wdom w) t \<and>
          style (nodes (wdom w) t) ''display'' = None))"
proof -
  note p = demo_page_ok and a = demo_page_attached
  have r: "1 < next_eid demo_page" by (simp add: demo_page_def)
  obtain w where i: "init \<lparr>doom_raw = None\<rparr> 1 (wld (start demo_page)) = Inr w"
    using init_succeeds [of 1 "wld (start demo_page)"] r by (auto simp: start_def)
  show ?thesis using p r a i decoy_after_init [OF p r a i] by blast
qed

text \<open>
  C2: no uncaught exception. In every state the host and the user can bring the widget
  to, every event that can happen next (a lifecycle call, a click on the visible boss
  key, a due timer, time passing) completes without a JavaScript exception.
\<close>

theorem no_uncaught_exception:
  "reach d0 s \<Longrightarrow> enabled s e \<Longrightarrow> \<exists>s'. step e s = Inr s'"
  using step_inv [OF reach_inv] by blast

theorem no_uncaught_exception_witness:
  "\<exists>s. reach demo_page s \<and> enabled s (EvUpdate \<lparr>doom_raw = Some 5\<rparr>) \<and>
       (\<exists>s'. step (EvUpdate \<lparr>doom_raw = Some 5\<rparr>) s = Inr s')"
proof -
  obtain s where "reach demo_page s" "phase s = Live"
    using demo_init_reach [of "\<lparr>doom_raw = None\<rparr>"] by blast
  moreover have "enabled s (EvUpdate \<lparr>doom_raw = Some 5\<rparr>)" using calculation by simp
  ultimately show ?thesis using no_uncaught_exception by blast
qed

text \<open>
  C3: the decoy is hidden exactly while the frame is shown. In every state after init,
  getElementById('seriousTextArea') finds an element of the page, and that element has
  display none if and only if the widget has created its iframe and the iframe is in
  the page.
\<close>

theorem decoy_hidden_iff_frame_shown:
  assumes "reach d0 s" and "phase s \<noteq> Constructed"
  shows "\<exists>t. get_element_by_id (wdom (wld s)) serious_id = Some t \<and> attached (wdom (wld s)) t \<and>
             (style (nodes (wdom (wld s)) t) ''display'' = Some ''none'' \<longleftrightarrow>
              (\<exists>f. doom_iframe (inst (wld s)) = Some f \<and> attached (wdom (wld s)) f))"
proof -
  let ?w = "wld s"
  let ?d = "wdom ?w" and ?t = "textarea_of ?w"
  have inv: "widget_inv ?w" using reach_inv [OF assms(1)] assms(2) by (simp add: sys_inv_def)
  then have h: "host_ok ?w" and dk: "decoy_ok ?w" by (simp_all add: widget_inv_def)
  have "style (nodes ?d ?t) ''display'' = Some ''none'' \<longleftrightarrow>
        (\<exists>f. doom_iframe (inst ?w) = Some f \<and> attached ?d f)"
  proof (cases "control_view_rendered (inst ?w)")
    case False
    with inv show ?thesis by (simp add: widget_inv_def pre_render_ok_def Let_def)
  next
    case True
    with inv have post: "post_render_ok ?w" by (simp add: widget_inv_def)
    then obtain f where fi: "doom_iframe (inst ?w) = Some f"
      by (auto simp: post_render_ok_def Let_def split: option.splits)
    from post fi show ?thesis
      by (auto simp: post_render_ok_def Let_def iframe_attached_iff [OF inv True fi])
  qed
  with widget_inv_textarea [OF inv] textarea_attached [OF h dk] show ?thesis by blast
qed

theorem decoy_hidden_iff_frame_shown_witness:
  "\<exists>s. reach demo_page s \<and> phase s \<noteq> Constructed \<and>
       (\<exists>t. get_element_by_id (wdom (wld s)) serious_id = Some t \<and> attached (wdom (wld s)) t \<and>
            (style (nodes (wdom (wld s)) t) ''display'' = Some ''none'' \<longleftrightarrow>
             (\<exists>f. doom_iframe (inst (wld s)) = Some f \<and> attached (wdom (wld s)) f)))"
proof -
  obtain s where "reach demo_page s" "phase s = Live"
    using demo_init_reach [of "\<lparr>doom_raw = None\<rparr>"] by blast
  with decoy_hidden_iff_frame_shown [of demo_page s] show ?thesis by auto
qed

text \<open>
  C4: the panic button works. From any state in which the user can click the boss key,
  the click and then the timers it sets run without an exception and end with the
  container out of the page, the iframe out of the page, no timer pending, and the
  element with id seriousTextArea in the page with display block.
\<close>

theorem panic_button_restores_decoy:
  assumes r: "reach d0 s" and ph: "phase s = Live" and a: "attached (wdom (wld s)) (boss_key (inst (wld s)))"
  shows "\<exists>w1 w2. dispatch_click (boss_key (inst (wld s))) (wld s) = Inr w1 \<and> run_timers w1 = Inr w2 \<and>
           queue (wtimers w2) = [] \<and>
           (\<exists>t. get_element_by_id (wdom w2) serious_id = Some t \<and> attached (wdom w2) t \<and>
                style (nodes (wdom w2) t) ''display'' = Some ''block'') \<and>
           (\<exists>f. doom_iframe (inst w2) = Some f \<and> \<not> attached (wdom w2) f)"
proof -
  let ?w = "wld s"
  from reach_inv [OF r] ph have inv: "widget_inv ?w" by (simp add: sys_inv_def)
  from panic_drain [OF inv a] obtain w1 w2 f where c: "dispatch_click (boss_key (inst ?w)) ?w = Inr w1"
    and rt: "run_timers w1 = Inr w2" and q2: "queue (wtimers w2) = []" and inv2: "widget_inv w2"
    and i2: "inst w2 = inst ?w" and rd: "control_view_rendered (inst ?w)" and fi: "doom_iframe (inst ?w) = Some f"
    and pc: "parent (nodes (wdom w2) (container (inst ?w))) = None" by blast
  from inv2 rd i2 have "post_render_ok w2" by (simp add: widget_inv_def)
  with pc i2 have bl: "style (nodes (wdom w2) (textarea_of w2)) ''display'' = Some ''block''"
    by (auto simp: post_render_ok_def Let_def split: option.splits)
  from inv2 have h2: "host_ok w2" and d2: "decoy_ok w2" by (simp_all add: widget_inv_def)
  have "\<not> attached (wdom w2) f"
    using iframe_attached_iff [of w2 f] inv2 rd i2 fi pc by simp
  with c rt q2 bl widget_inv_textarea [OF inv2] textarea_attached [OF h2 d2] fi i2 show ?thesis
    by fastforce
qed

theorem panic_button_restores_decoy_witness:
  "\<exists>s. reach demo_page s \<and> phase s = Live \<and> attached (wdom (wld s)) (boss_key (inst (wld s))) \<and>
     (\<exists>w1 w2. dispatch_click (boss_key (inst (wld s))) (wld s) = Inr w1 \<and> run_timers w1 = Inr w2 \<and>
           queue (wtimers w2) = [] \<and>
           (\<exists>t. get_element_by_id (wdom w2) serious_id = Some t \<and> attached (wdom w2) t \<and>
                style (nodes (wdom w2) t) ''display'' = Some ''block'') \<and>
           (\<exists>f. doom_iframe (inst w2) = Some f \<and> \<not> attached (wdom w2) f))"
proof -
  obtain s where "reach demo_page s" "phase s = Live" "attached (wdom (wld s)) (boss_key (inst (wld s)))"
    using demo_revealed by blast
  with panic_button_restores_decoy [of demo_page s] show ?thesis by blast
qed

text \<open>
  C5: the timers always run out. In every reachable state, letting the event loop run
  the pending timers ends, raises no exception, and leaves no timer pending.
\<close>

theorem timers_always_drain:
  "reach d0 s \<Longrightarrow> \<exists>w'. run_timers (wld s) = Inr w' \<and> queue (wtimers w') = []"
proof -
  assume r: "reach d0 s"
  show ?thesis
  proof (cases "phase s = Constructed")
    case True
    with reach_inv [OF r] have "queue (wtimers (wld s)) = []" by (simp add: sys_inv_def)
    then show ?thesis by (simp add: run_timers_None next_timer_None)
  next
    case False
    with reach_inv [OF r] have "widget_inv (wld s)" by (simp add: sys_inv_def)
    from run_timers_drains [OF this] show ?thesis by blast
  qed
qed

theorem timers_always_drain_witness:
  "\<exists>s. reach demo_page s \<and> (\<exists>w'. run_timers (wld s) = Inr w' \<and> queue (wtimers w') = [])"
proof -
  obtain s where "reach demo_page s" "attached (wdom (wld s)) (boss_key (inst (wld s)))"
    using demo_revealed by blast
  with timers_always_drain [of demo_page s] show ?thesis by blast
qed

text \<open>
  C6: the panic button is not instant. Right after the click on the boss key the
  element with id seriousTextArea still has display none and the iframe is still in
  the page; the only new timer is the fly-out, due 10 ms later.
\<close>

theorem panic_click_not_instant:
  assumes r: "reach d0 s" and ph: "phase s = Live" and a: "attached (wdom (wld s)) (boss_key (inst (wld s)))"
    and c: "dispatch_click (boss_key (inst (wld s))) (wld s) = Inr w1"
  shows "(\<exists>t. get_element_by_id (wdom w1) serious_id = Some t \<and>
              style (nodes (wdom w1) t) ''display'' = Some ''none'') \<and>
         (\<exists>f. doom_iframe (inst w1) = Some f \<and> attached (wdom w1) f \<and>
              queue (wtimers w1) = queue (wtimers (wld s)) @ [(clock (wtimers (wld s)) + 10, FlyOut f)])"
proof -
  let ?w = "wld s"
  from reach_inv [OF r] ph have inv: "widget_inv ?w" by (simp add: sys_inv_def)
  from boss_key_attached [OF inv a] have rd: "control_view_rendered (inst ?w)"
    and pc: "parent (nodes (wdom ?w) (container (inst ?w))) = Some (root_container (inst ?w))" by simp_all
  from click_inv [OF inv a] c obtain f where inv1: "widget_inv w1" and i1: "inst w1 = inst ?w"
    and fi: "doom_iframe (inst ?w) = Some f"
    and q1: "queue (wtimers w1) = queue (wtimers ?w) @ [(clock (wtimers ?w) + 10, FlyOut f)]"
    and st: "same_tree (wdom w1) (wdom ?w)"
    and sy: "style (nodes (wdom w1) (textarea_of ?w)) = style (nodes (wdom ?w) (textarea_of ?w))" by auto
  from inv rd have "post_render_ok ?w" by (simp add: widget_inv_def)
  with pc have "style (nodes (wdom ?w) (textarea_of ?w)) ''display'' = Some ''none''"
    by (auto simp: post_render_ok_def Let_def split: option.splits)
  moreover have "textarea_of w1 = textarea_of ?w" using i1 by (simp add: textarea_of_def)
  moreover have "attached (wdom w1) f"
    using iframe_attached_iff [OF inv rd fi] pc same_tree_attached [OF st] by simp
  ultimately show ?thesis using widget_inv_textarea [OF inv1] sy i1 fi q1 by auto
qed

theorem panic_click_not_instant_witness:
  "\<exists>s w1. reach demo_page s \<and> phase s = Live \<and> attached (wdom (wld s)) (boss_key (inst (wld s))) \<and>
     dispatch_click (boss_key (inst (wld s))) (wld s) = Inr w1 \<and>
     (\<exists>t. get_element_by_id (wdom w1) serious_id = Some t \<and>
          style (nodes (wdom w1) t) ''display'' = Some ''none'') \<and>
     (\<exists>f. doom_iframe (inst w1) = Some f \<and> attached (wdom w1) f \<and>
          queue (wtimers w1) = queue (wtimers (wld s)) @ [(clock (wtimers (wld s)) + 10, FlyOut f)])"
proof -
  obtain s where r: "reach demo_page s" and ph: "phase s = Live"
    and a: "attached (wdom (wld s)) (boss_key (inst (wld s)))" using demo_revealed by blast
  from reach_inv [OF r] ph have "widget_inv (wld s)" by (simp add: sys_inv_def)
  from click_inv [OF this a] obtain w1 where "dispatch_click (boss_key (inst (wld s))) (wld s) = Inr w1" by blast
  with r ph a panic_click_not_instant [OF r ph a] show ?thesis by blast
qed

text \<open>
  C7: the reveal. When the host calls updateView with the option value 5 before the
  frame is shown, the call succeeds; afterwards the element with id seriousTextArea has
  display none, a new iframe with the widget's class and the doom-crt src is in the
  page inside the container, before the boss key, which is in the page too, and the
  only timer pending is the 100 ms animation.
\<close>

theorem reveal_on_option_five:
  assumes r: "reach d0 s" and ph: "phase s = Live" and nr: "\<not> control_view_rendered (inst (wld s))"
    and five: "doom_raw ctx = Some 5"
  shows "\<exists>s'. step (EvUpdate ctx) s = Inr s' \<and> control_view_rendered (inst (wld s')) \<and>
           (\<exists>t. get_element_by_id (wdom (wld s')) serious_id = Some t \<and>
                style (nodes (wdom (wld s')) t) ''display'' = Some ''none'') \<and>
           (\<exists>f. doom_iframe (inst (wld s')) = Some f \<and> attached (wdom (wld s')) f \<and>
                tag (nodes (wdom (wld s')) f) = ''iframe'' \<and>
                attrs (nodes (wdom (wld s')) f) ''src'' = Some doom_src \<and>
                iframe_class \<in> set (class_list (nodes (wdom (wld s')) f)) \<and>
                children (nodes (wdom (wld s')) (container (inst (wld s')))) = [f, boss_key (inst (wld s'))]) \<and>
           attached (wdom (wld s')) (boss_key (inst (wld s'))) \<and>
           queue (wtimers (wld s')) = [(clock (wtimers (wld s)) + 100, AnimateIn)]"
proof -
  let ?w = "wld s"
  let ?N = "next_eid (wdom ?w)" and ?c = "container (inst ?w)" and ?b = "boss_key (inst ?w)"
  from reach_inv [OF r] ph have inv: "widget_inv ?w" by (simp add: sys_inv_def)
  note I = widget_invD [OF inv]
  from inv nr have q: "queue (wtimers ?w) = []" by (simp add: widget_inv_def pre_render_ok_def Let_def)
  obtain w' where uv: "update_view ctx ?w = Inr w'"
    and i': "inst w' = (inst ?w)\<lparr>control_view_rendered := True, doom_iframe := Some ?N\<rparr>"
    and tm: "wtimers w' = set_timeout 100 AnimateIn (wtimers ?w)"
    and nd: "\<And>y. nodes (wdom w') y =
       (if y = ?N then iframe_node ?c else if y = ?b then nodes (wdom ?w) y\<lparr>parent := Some ?c\<rparr>
        else if y = ?c then nodes (wdom ?w) y\<lparr>children := [?N, ?b]\<rparr>
        else if y = textarea_of ?w then (nodes (wdom ?w) y)\<lparr>style := (style (nodes (wdom ?w) y))(''display'' \<mapsto> ''none'')\<rparr>
        else nodes (wdom ?w) y)"
    by (rule reveal_step [OF inv nr five]) blast
  from reveal_inv [OF inv nr five] uv have inv': "widget_inv w'" by auto
  note ra = reveal_attached [OF inv nr five uv]
  have st: "step (EvUpdate ctx) s = Inr (s\<lparr>wld := w'\<rparr>)" using uv by simp
  have t': "textarea_of w' = textarea_of ?w" using i' by (simp add: textarea_of_def)
  have "style (nodes (wdom w') (textarea_of ?w)) ''display'' = Some ''none''"
    using I(4-6) by (simp add: nd)
  moreover have "tag (nodes (wdom w') ?N) = ''iframe''" "attrs (nodes (wdom w') ?N) ''src'' = Some doom_src"
    "iframe_class \<in> set (class_list (nodes (wdom w') ?N))" by (simp_all add: nd iframe_node_def)
  moreover have "children (nodes (wdom w') ?c) = [?N, ?b]" using I(4-6) by (simp add: nd)
  ultimately show ?thesis
    using st i' tm q ra widget_inv_textarea [OF inv'] t' by auto
qed

theorem reveal_on_option_five_witness:
  "\<exists>s. reach demo_page s \<and> phase s = Live \<and> \<not> control_view_rendered (inst (wld s)) \<and>
     doom_raw \<lparr>doom_raw = Some 5\<rparr> = Some (5::int) \<and>
     (\<exists>s'. step (EvUpdate \<lparr>doom_raw = Some 5\<rparr>) s = Inr s' \<and> control_view_rendered (inst (wld s')) \<and>
           (\<exists>t. get_element_by_id (wdom (wld s')) serious_id = Some t \<and>
                style (nodes (wdom (wld s')) t) ''display'' = Some ''none'') \<and>
           (\<exists>f. doom_iframe (inst (wld s')) = Some f \<and> attached (wdom (wld s')) f \<and>
                tag (nodes (wdom (wld s')) f) = ''iframe'' \<and>
                attrs (nodes (wdom (wld s')) f) ''src'' = Some doom_src \<and>
                iframe_class \<in> set (class_list (nodes (wdom (wld s')) f)) \<and>
                children (nodes (wdom (wld s')) (container (inst (wld s')))) = [f, boss_key (inst (wld s'))]) \<and>
           attached (wdom (wld s')) (boss_key (inst (wld s'))) \<and>
           queue (wtimers (wld s')) = [(clock (wtimers (wld s)) + 100, AnimateIn)])"
proof -
  obtain s where "reach demo_page s" "phase s = Live" "\<not> control_view_rendered (inst (wld s))"
    using demo_init_reach [of "\<lparr>doom_raw = None\<rparr>"] by blast
  with reveal_on_option_five [of demo_page s "\<lparr>doom_raw = Some 5\<rparr>"] show ?thesis by auto
qed

text \<open>
  C8: refinement of the three-view machine. Every step the host, the user or the event
  loop can take from a state after init moves the abstract view (decoy, revealed,
  dismissed) along the abstract machine (stay, decoy to revealed, revealed to dismissed),
  and the page after the step shows what the new view promises: in the decoy view the
  element with id seriousTextArea has no display style and there is no iframe, in the
  revealed view it has display none and the iframe is in the page, in the dismissed view
  it has display block and the iframe is out of the page.
\<close>

theorem view_refinement:
  assumes r: "reach d0 s" and ph: "phase s \<noteq> Constructed" and en: "enabled s e"
    and st: "step e s = Inr s'"
  shows "astep (abs_view (wld s)) (abs_view (wld s')) \<and> view_ok (abs_view (wld s')) (wld s')"
proof -
  from reach_inv [OF r] ph have inv: "widget_inv (wld s)" by (simp add: sys_inv_def)
  have r': "reach d0 s'" by (rule reach_step [OF r en st])
  have ph': "phase s' \<noteq> Constructed"
    using st en ph by (cases e) (auto simp: map_sum_eq_Inr)
  from reach_inv [OF r'] ph' have "widget_inv (wld s')" by (simp add: sys_inv_def)
  with step_astep [OF inv en st ph] widget_inv_view show ?thesis by blast
qed

theorem view_refinement_witness:
  "\<exists>s s'. reach demo_page s \<and> phase s \<noteq> Constructed \<and> enabled s (EvUpdate \<lparr>doom_raw = Some 5\<rparr>) \<and>
     step (EvUpdate \<lparr>doom_raw = Some 5\<rparr>) s = Inr s' \<and>
     astep (abs_view (wld s)) (abs_view (wld s')) \<and> view_ok (abs_view (wld s')) (wld s')"
proof -
  obtain s where r: "reach demo_page s" and ph: "phase s = Live"
    using demo_init_reach [of "\<lparr>doom_raw = None\<rparr>"] by blast
  then have en: "enabled s (EvUpdate \<lparr>doom_raw = Some 5\<rparr>)" by simp
  from step_inv [OF reach_inv [OF r] en] obtain s' where st: "step (EvUpdate \<lparr>doom_raw = Some 5\<rparr>) s = Inr s'"
    by blast
  from view_refinement [OF r _ en st] r ph en st show ?thesis by auto
qed

text \<open>
  Two instances on one page. The textarea's id is a constant and updateView looks it up
  with document.getElementById, which returns the first match in the document. On a
  page with two host containers, with one instance initialised into each, the update of
  the second instance with the option value 5 hides the first instance's textarea and
  leaves its own visible. This is a scenario on one page, not a property of every page:
  it is the evidence for the finding on line 67.
\<close>

theorem two_instances_share_decoy_id:
  "\<exists>wA wB w'. init \<lparr>doom_raw = None\<rparr> 1 (wld (start two_host_page)) = Inr wA \<and>
     init \<lparr>doom_raw = None\<rparr> 2 (wA\<lparr>inst := undefined_widget\<rparr>) = Inr wB \<and>
     update_view \<lparr>doom_raw = Some 5\<rparr> wB = Inr w' \<and>
     tag (nodes (wdom w') 5) = ''textarea'' \<and> parent (nodes (wdom w') 5) = Some 1 \<and>
     tag (nodes (wdom w') 8) = ''textarea'' \<and> parent (nodes (wdom w') 8) = Some 2 \<and>
     style (nodes (wdom w') 5) ''display'' = Some ''none'' \<and> style (nodes (wdom w') 8) ''display'' = None"
proof -
  let ?w0 = "wld (start two_host_page)"
  obtain wA where iA: "init \<lparr>doom_raw = None\<rparr> 1 ?w0 = Inr wA"
    using init_succeeds [of 1 ?w0] by (auto simp: start_def two_host_page_def)
  note eA = init_Inr_nodes [OF _ iA, simplified start_def two_host_page_def, simplified]
  let ?wA' = "wA\<lparr>inst := undefined_widget\<rparr>"
  obtain wB where iB: "init \<lparr>doom_raw = None\<rparr> 2 ?wA' = Inr wB"
    using init_succeeds [of 2 ?wA'] eA by auto
  have rB: "2 < next_eid (wdom ?wA')" using eA by simp
  note eB = init_Inr_nodes [OF rB iB]
  have "get_element_by_id (wdom wB) serious_id = Some 5"
    using eA eB by (simp add: get_element_by_id_def tree_fuel_def numeral_eq_Suc empty_node_def two_host_page_def start_def)
  then have uv: "update_view \<lparr>doom_raw = Some 5\<rparr> wB =
      render_doom_iframe (wB\<lparr>inst := (inst wB)\<lparr>control_view_rendered := True\<rparr>,
                              wdom := set_style 5 ''display'' ''none'' (wdom wB)\<rparr>)"
    (is "_ = render_doom_iframe ?w1")
    using eA eB by (simp add: update_view_def)
  have "container (inst ?w1) < next_eid (wdom ?w1)" "boss_key (inst ?w1) < next_eid (wdom ?w1)"
    "children (nodes (wdom ?w1) (boss_key (inst ?w1))) = []"
    "parent (nodes (wdom ?w1) (boss_key (inst ?w1))) = None"
    "container (inst ?w1) \<noteq> boss_key (inst ?w1)"
    using eA eB by (simp_all add: set_style_nodes)
  note re = render_eq [OF this]
  show ?thesis
    using iA iB uv re eA eB by (simp add: set_style_nodes)
qed


text \<open>
  C9: a click on the boss key before the frame is shown blanks the widget. The boss
  key is not in the page then, but a script can still click it; the handler finds no
  iframe and takes the container out of the page at once. A later updateView with the
  option value 5 then hides the decoy and renders the iframe and the boss key into the
  detached container: nothing is left on the page and there is no way back.
\<close>

theorem early_click_blanks_widget:
  assumes r: "reach d0 s" and ph: "phase s = Live" and nr: "\<not> control_view_rendered (inst (wld s))"
  shows "\<exists>w1 w2. dispatch_click (boss_key (inst (wld s))) (wld s) = Inr w1 \<and>
           \<not> attached (wdom w1) (container (inst w1)) \<and>
           update_view \<lparr>doom_raw = Some 5\<rparr> w1 = Inr w2 \<and>
           (\<exists>t. get_element_by_id (wdom w1) serious_id = Some t \<and> attached (wdom w1) t \<and>
                style (nodes (wdom w2) t) ''display'' = Some ''none'') \<and>
           (\<exists>f. doom_iframe (inst w2) = Some f \<and> \<not> attached (wdom w2) f) \<and>
           \<not> attached (wdom w2) (boss_key (inst w2))"
proof -
  let ?w = "wld s"
  from reach_inv [OF r] ph have inv: "widget_inv ?w" by (simp add: sys_inv_def)
  note E = early_click_detaches [OF inv nr]
  from reveal_into_detached [OF inv nr] obtain w2 where
    "update_view \<lparr>doom_raw = Some 5\<rparr> (?w\<lparr>wdom := detach (container (inst ?w)) (wdom ?w)\<rparr>) = Inr w2"
    "style (nodes (wdom w2) (textarea_of ?w)) ''display'' = Some ''none''"
    "doom_iframe (inst w2) = Some (next_eid (wdom ?w))" "\<not> attached (wdom w2) (next_eid (wdom ?w))"
    "boss_key (inst w2) = boss_key (inst ?w)" "\<not> attached (wdom w2) (boss_key (inst ?w))" by blast
  with E show ?thesis by (intro exI) auto
qed


theorem early_click_blanks_widget_witness:
  "\<exists>s. reach demo_page s \<and> phase s = Live \<and> \<not> control_view_rendered (inst (wld s)) \<and>
     (\<exists>w1 w2. dispatch_click (boss_key (inst (wld s))) (wld s) = Inr w1 \<and>
           \<not> attached (wdom w1) (container (inst w1)) \<and>
           update_view \<lparr>doom_raw = Some 5\<rparr> w1 = Inr w2 \<and>
           (\<exists>t. get_element_by_id (wdom w1) serious_id = Some t \<and> attached (wdom w1) t \<and>
                style (nodes (wdom w2) t) ''display'' = Some ''none'') \<and>
           (\<exists>f. doom_iframe (inst w2) = Some f \<and> \<not> attached (wdom w2) f) \<and>
           \<not> attached (wdom w2) (boss_key (inst w2)))"
proof -
  obtain s where "reach demo_page s" "phase s = Live" "\<not> control_view_rendered (inst (wld s))"
    using demo_init_reach [of "\<lparr>doom_raw = None\<rparr>"] by blast
  with early_click_blanks_widget [of demo_page s] show ?thesis by blast
qed

text \<open>
  C10: the fields hold elements of their declared types. In every state after init the
  container field is a div (HTMLDivElement), the boss key field a button
  (HTMLButtonElement), getElementById('seriousTextArea') finds a textarea, and the
  iframe field, once set, is an iframe.
\<close>

theorem fields_hold_declared_elements:
  assumes r: "reach d0 s" and ph: "phase s \<noteq> Constructed"
  shows "tag (nodes (wdom (wld s)) (container (inst (wld s)))) = ''div'' \<and>
         tag (nodes (wdom (wld s)) (boss_key (inst (wld s)))) = ''button'' \<and>
         (\<exists>t. get_element_by_id (wdom (wld s)) serious_id = Some t \<and> tag (nodes (wdom (wld s)) t) = ''textarea'') \<and>
         (\<forall>f. doom_iframe (inst (wld s)) = Some f \<longrightarrow> tag (nodes (wdom (wld s)) f) = ''iframe'')"
proof -
  have a: "alloc_ok d0 s" by (rule reach_alloc [OF r])
  from reach_inv [OF r] ph have inv: "widget_inv (wld s)" by (simp add: sys_inv_def)
  have t: "textarea_of (wld s) = Suc (Suc (next_eid d0))"
    using a ph by (simp add: alloc_ok_def Let_def textarea_of_def)
  have "\<not> control_view_rendered (inst (wld s)) \<Longrightarrow> doom_iframe (inst (wld s)) = None"
    using inv by (simp add: widget_inv_def pre_render_ok_def Let_def)
  with a ph t widget_inv_textarea [OF inv] show ?thesis
    by (auto simp: alloc_ok_def Let_def split: if_splits)
qed

theorem fields_hold_declared_elements_witness:
  "\<exists>s. reach demo_page s \<and> phase s \<noteq> Constructed \<and>
     tag (nodes (wdom (wld s)) (container (inst (wld s)))) = ''div'' \<and>
     tag (nodes (wdom (wld s)) (boss_key (inst (wld s)))) = ''button'' \<and>
     (\<exists>t. get_element_by_id (wdom (wld s)) serious_id = Some t \<and> tag (nodes (wdom (wld s)) t) = ''textarea'') \<and>
     (\<forall>f. doom_iframe (inst (wld s)) = Some f \<longrightarrow> tag (nodes (wdom (wld s)) f) = ''iframe'')"
proof -
  obtain s where "reach demo_page s" "phase s = Live" using demo_revealed by blast
  with fields_hold_declared_elements [of demo_page s] show ?thesis by auto
qed

text \<open>
  C11: the widget allocates a bounded number of elements. In every reachable state the
  document has exactly the page's elements, three more after init (container, boss key,
  textarea) and one more after the reveal (the iframe): repeated updates, clicks and
  timers create nothing.
\<close>

theorem allocation_bound:
  "reach d0 s \<Longrightarrow>
   next_eid (wdom (wld s)) =
     next_eid d0 + (if phase s = Constructed then 0 else if control_view_rendered (inst (wld s)) then 4 else 3)"
  by (drule reach_alloc) (auto simp: alloc_ok_def Let_def split: if_splits)

theorem allocation_bound_witness:
  "\<exists>s. reach demo_page s \<and> phase s = Live \<and> control_view_rendered (inst (wld s)) \<and>
     next_eid (wdom (wld s)) = 6"
proof -
  obtain s where r: "reach demo_page s" and ph: "phase s = Live"
    and a: "attached (wdom (wld s)) (boss_key (inst (wld s)))" using demo_revealed by blast
  from reach_inv [OF r] ph have "widget_inv (wld s)" by (simp add: sys_inv_def)
  with a have rd: "control_view_rendered (inst (wld s))" using boss_key_attached by blast
  with allocation_bound [OF r] ph have "next_eid (wdom (wld s)) = 6" by (simp add: demo_page_def)
  with r ph rd show ?thesis by blast
qed

text \<open>
  C12: updateView is idempotent. Calling updateView a second time with the same
  context, right after a call that returned, changes nothing: the reveal happens at most
  once because the rendered flag is set before the frame is built and never reset.
\<close>

theorem update_view_idempotent:
  "bindE (update_view c w) (update_view c) = update_view c w"
proof (cases "update_view c w")
  case (Inl e)
  then show ?thesis by simp
next
  case (Inr w')
  show ?thesis
  proof (cases "\<not> control_view_rendered (inst w) \<and> doom_raw c = Some 5")
    case True
    with Inr have "render_doom_iframe (w\<lparr>inst := (inst w)\<lparr>control_view_rendered := True\<rparr>,
        wdom := (case get_element_by_id (wdom w) serious_id of None \<Rightarrow> wdom w
                 | Some t \<Rightarrow> set_style t ''display'' ''none'' (wdom w))\<rparr>) = Inr w'"
      by (auto simp: update_view_def split: option.splits)
    from render_keeps_flag [OF this] have "control_view_rendered (inst w')" by simp
    with Inr show ?thesis by (simp add: update_view_def)
  next
    case False
    with Inr show ?thesis by (auto simp: update_view_def)
  qed
qed

text \<open>
  C13: the decoy comes back no sooner than 510 ms after the click. After a first click on
  the boss key (no fly-out or removal pending), the timers the click sets run out with
  the container out of the page; and at every point of that run, after any number of
  timers, a state in which the container is out of the page or the element found by id
  has display block has a clock at least 510 ms past the click: the 10 ms of the
  fly-out timer and then the 500 ms of the removal timer.
\<close>

theorem restore_takes_510ms:
  assumes r: "reach d0 s" and ph: "phase s = Live" and a: "attached (wdom (wld s)) (boss_key (inst (wld s)))"
    and q: "list_all (\<lambda>(m, a). a = AnimateIn) (queue (wtimers (wld s)))"
  shows "\<exists>w1 w2. dispatch_click (boss_key (inst (wld s))) (wld s) = Inr w1 \<and> run_timers w1 = Inr w2 \<and>
           parent (nodes (wdom w2) (container (inst w2))) = None \<and>
           clock (wtimers (wld s)) + 510 \<le> clock (wtimers w2) \<and>
           (\<forall>n w'. timer_steps n w1 = Inr w' \<longrightarrow>
              (parent (nodes (wdom w') (container (inst w'))) = None \<or>
               (\<exists>t. get_element_by_id (wdom w') serious_id = Some t \<and>
                    style (nodes (wdom w') t) ''display'' = Some ''block'')) \<longrightarrow>
              clock (wtimers (wld s)) + 510 \<le> clock (wtimers w'))"
proof -
  let ?w = "wld s" and ?T = "clock (wtimers (wld s))"
  from reach_inv [OF r] ph have inv: "widget_inv ?w" by (simp add: sys_inv_def)
  from boss_key_attached [OF inv a] have pc: "parent (nodes (wdom ?w) (container (inst ?w))) = Some (root_container (inst ?w))"
    and rd: "control_view_rendered (inst ?w)" by simp_all
  from panic_drain [OF inv a] obtain w1 w2 where c: "dispatch_click (boss_key (inst ?w)) ?w = Inr w1"
    and rt: "run_timers w1 = Inr w2" and i2: "inst w2 = inst ?w"
    and pc2: "parent (nodes (wdom w2) (container (inst ?w))) = None" by blast
  from click_inv [OF inv a] c obtain f where i1: "inst w1 = inst ?w" and inv1: "widget_inv w1"
    and q1: "queue (wtimers w1) = queue (wtimers ?w) @ [(?T + 10, FlyOut f)]"
    and st: "same_tree (wdom w1) (wdom ?w)" by auto
  have R: "restore_not_before ?T w1"
    using q q1 i1 pc same_treeD(2) [OF st] by (auto simp: restore_not_before_def list_all_iff)
  from run_timers_restore [OF R rt] pc2 i2 have "?T + 510 \<le> clock (wtimers w2)"
    by (simp add: restore_not_before_def)
  moreover have "?T + 510 \<le> clock (wtimers w')"
    if ts: "timer_steps n w1 = Inr w'" and out: "parent (nodes (wdom w') (container (inst w'))) = None \<or>
      (\<exists>t. get_element_by_id (wdom w') serious_id = Some t \<and> style (nodes (wdom w') t) ''display'' = Some ''block'')"
    for n w'
  proof -
    from timer_steps_inv [OF inv1 ts] i1 rd have inv': "widget_inv w'" and rd': "control_view_rendered (inst w')"
      by simp_all
    from out block_means_removed [OF inv' rd'] have "parent (nodes (wdom w') (container (inst w'))) = None"
      by blast
    with timer_steps_restore [OF R ts] show ?thesis by (simp add: restore_not_before_def)
  qed
  moreover have "parent (nodes (wdom w2) (container (inst w2))) = None" using pc2 i2 by simp
  ultimately show ?thesis using c rt by blast
qed

theorem restore_takes_510ms_witness:
  "\<exists>s. reach demo_page s \<and> phase s = Live \<and> attached (wdom (wld s)) (boss_key (inst (wld s))) \<and>
     list_all (\<lambda>(m, a). a = AnimateIn) (queue (wtimers (wld s))) \<and>
     (\<exists>w1 w2. dispatch_click (boss_key (inst (wld s))) (wld s) = Inr w1 \<and> run_timers w1 = Inr w2 \<and>
           parent (nodes (wdom w2) (container (inst w2))) = None \<and>
           clock (wtimers (wld s)) + 510 \<le> clock (wtimers w2) \<and>
           (\<forall>n w'. timer_steps n w1 = Inr w' \<longrightarrow>
              (parent (nodes (wdom w') (container (inst w'))) = None \<or>
               (\<exists>t. get_element_by_id (wdom w') serious_id = Some t \<and>
                    style (nodes (wdom w') t) ''display'' = Some ''block'')) \<longrightarrow>
              clock (wtimers (wld s)) + 510 \<le> clock (wtimers w')))"
proof -
  obtain s where "reach demo_page s" "phase s = Live" "attached (wdom (wld s)) (boss_key (inst (wld s)))"
    "list_all (\<lambda>(m, a). a = AnimateIn) (queue (wtimers (wld s)))" using demo_revealed by blast
  with restore_takes_510ms [of demo_page s] show ?thesis by blast
qed

text \<open>
  C14: the animation callback never meets an undefined iframe. Whenever a timer is
  pending, _doomIframe is set, every pending timer is one of the widget's three
  callbacks for that iframe, and the animation callback, run then, raises no TypeError.
\<close>

theorem pending_timers_have_iframe:
  assumes r: "reach d0 s" and q: "queue (wtimers (wld s)) \<noteq> []"
  shows "\<exists>f. doom_iframe (inst (wld s)) = Some f \<and>
           list_all (\<lambda>(m, a). a = AnimateIn \<or> a = FlyOut f \<or> a = RemoveContainer) (queue (wtimers (wld s))) \<and>
           (\<exists>w'. animate_in (wld s) = Inr w')"
proof -
  note inv = pending_timer_live(2) [OF reach_inv [OF r] q]
  with q have rd: "control_view_rendered (inst (wld s))"
    by (auto simp: widget_inv_def pre_render_ok_def Let_def split: if_splits)
  with inv have "post_render_ok (wld s)" by (simp add: widget_inv_def)
  then show ?thesis by (auto simp: post_render_ok_def Let_def animate_in_def split: option.splits)
qed

theorem pending_timers_have_iframe_witness:
  "\<exists>s. reach demo_page s \<and> queue (wtimers (wld s)) \<noteq> [] \<and>
     (\<exists>f. doom_iframe (inst (wld s)) = Some f \<and>
           list_all (\<lambda>(m, a). a = AnimateIn \<or> a = FlyOut f \<or> a = RemoveContainer) (queue (wtimers (wld s))) \<and>
           (\<exists>w'. animate_in (wld s) = Inr w'))"
proof -
  obtain s where "reach demo_page s" "queue (wtimers (wld s)) \<noteq> []" using demo_revealed by blast
  with pending_timers_have_iframe [of demo_page s] show ?thesis by blast
qed

text \<open>
  C15: a user's click always finds the iframe. Whenever the boss key is in the page,
  querySelector('.PcfDoomComponent_IFrame') on the container returns the widget's own
  iframe, so the else branch of onBossKeyClick (remove the container at once) is never
  taken by a click of the user.
\<close>

theorem user_click_finds_iframe:
  assumes r: "reach d0 s" and ph: "phase s = Live" and a: "attached (wdom (wld s)) (boss_key (inst (wld s)))"
  shows "\<exists>f. doom_iframe (inst (wld s)) = Some f \<and>
           query_selector_class (wdom (wld s)) (container (inst (wld s))) iframe_class = Some f"
proof -
  from reach_inv [OF r] ph have inv: "widget_inv (wld s)" by (simp add: sys_inv_def)
  from boss_key_attached [OF inv a] have rd: "control_view_rendered (inst (wld s))" by simp
  with inv have post: "post_render_ok (wld s)" by (simp add: widget_inv_def)
  then obtain f where fi: "doom_iframe (inst (wld s)) = Some f"
    by (auto simp: post_render_ok_def Let_def split: option.splits)
  from post fi have "children (nodes (wdom (wld s)) (container (inst (wld s)))) = [f, boss_key (inst (wld s))]"
    "iframe_class \<in> set (class_list (nodes (wdom (wld s)) f))"
    by (simp_all add: post_render_ok_def Let_def)
  with query_selector_first_child [OF widget_invD(1) [OF inv]] fi show ?thesis by blast
qed

theorem user_click_finds_iframe_witness:
  "\<exists>s. reach demo_page s \<and> phase s = Live \<and> attached (wdom (wld s)) (boss_key (inst (wld s))) \<and>
     (\<exists>f. doom_iframe (inst (wld s)) = Some f \<and>
           query_selector_class (wdom (wld s)) (container (inst (wld s))) iframe_class = Some f)"
proof -
  obtain s where "reach demo_page s" "phase s = Live" "attached (wdom (wld s)) (boss_key (inst (wld s)))"
    using demo_revealed by blast
  with user_click_finds_iframe [of demo_page s] show ?thesis by blast
qed

text \<open>
  C16: before the reveal the boss key is not in the page. In every state after init and
  before the frame is shown, the container is in the page and empty and the boss key
  is detached, so the user cannot click it.
\<close>

theorem boss_key_hidden_before_reveal:
  assumes r: "reach d0 s" and ph: "phase s \<noteq> Constructed" and nr: "\<not> control_view_rendered (inst (wld s))"
  shows "attached (wdom (wld s)) (container (inst (wld s))) \<and>
         children (nodes (wdom (wld s)) (container (inst (wld s)))) = [] \<and>
         \<not> attached (wdom (wld s)) (boss_key (inst (wld s)))"
proof -
  let ?w = "wld s"
  from reach_inv [OF r] ph have inv: "widget_inv ?w" by (simp add: sys_inv_def)
  note I = widget_invD [OF inv]
  from inv nr have pc: "parent (nodes (wdom ?w) (container (inst ?w))) = Some (root_container (inst ?w))"
    and cc: "children (nodes (wdom ?w) (container (inst ?w))) = []"
    and pb: "parent (nodes (wdom ?w) (boss_key (inst ?w))) = None"
    by (simp_all add: widget_inv_def pre_render_ok_def Let_def)
  from inv have hr: "root_container (inst ?w) = doc_root (wdom ?w) \<or>
      doc_root (wdom ?w) \<in> set (anc (container (inst ?w)) (wdom ?w) (root_container (inst ?w)))"
    by (simp add: widget_inv_def host_ok_def Let_def)
  have "attached (wdom ?w) (container (inst ?w))"
    by (rule attached_child [OF pc hr]) (use I(4-6) in simp)
  moreover have "\<not> attached (wdom ?w) (boss_key (inst ?w))"
    using detached_root [OF pb] I(3,4) by simp
  ultimately show ?thesis using cc by simp
qed

theorem boss_key_hidden_before_reveal_witness:
  "\<exists>s. reach demo_page s \<and> phase s \<noteq> Constructed \<and> \<not> control_view_rendered (inst (wld s)) \<and>
     attached (wdom (wld s)) (container (inst (wld s))) \<and>
     children (nodes (wdom (wld s)) (container (inst (wld s)))) = [] \<and>
     \<not> attached (wdom (wld s)) (boss_key (inst (wld s)))"
proof -
  obtain s where "reach demo_page s" "phase s = Live" "\<not> control_view_rendered (inst (wld s))"
    using demo_init_reach [of "\<lparr>doom_raw = None\<rparr>"] by blast
  with boss_key_hidden_before_reveal [of demo_page s] show ?thesis by auto
qed

text \<open>
  C17: the panic restores the decoy's style. After the click on the boss key and the
  timers it sets, the element with id seriousTextArea has exactly the inline style init
  gave it (font, size and border, lines 40--46), with display block added: the reveal's
  display none is undone, but by setting block, not by removing the property, so the
  textarea does not return to its initial display.
\<close>

theorem panic_restores_textarea_style:
  assumes r: "reach d0 s" and ph: "phase s = Live" and a: "attached (wdom (wld s)) (boss_key (inst (wld s)))"
  shows "\<exists>w1 w2 t. dispatch_click (boss_key (inst (wld s))) (wld s) = Inr w1 \<and> run_timers w1 = Inr w2 \<and>
           get_element_by_id (wdom w2) serious_id = Some t \<and>
           style (nodes (wdom w2) t) = textarea_style(''display'' \<mapsto> ''block'')"
proof -
  let ?w = "wld s"
  from reach_inv [OF r] ph have inv: "widget_inv ?w" by (simp add: sys_inv_def)
  from panic_drain [OF inv a] obtain w1 w2 where c: "dispatch_click (boss_key (inst ?w)) ?w = Inr w1"
    and rt: "run_timers w1 = Inr w2" and inv2: "widget_inv w2" and i2: "inst w2 = inst ?w"
    and rd: "control_view_rendered (inst ?w)"
    and pc: "parent (nodes (wdom w2) (container (inst ?w))) = None" by blast
  have en: "enabled s EvClick" using ph a by simp
  have "step EvClick s = Inr (s\<lparr>wld := w1\<rparr>)" using c by simp
  from reach_step [OF r en this] have "reach d0 (s\<lparr>wld := w1\<rparr>)" .
  from reach_run_timers [OF this _ rt] have "reach d0 (s\<lparr>wld := w2\<rparr>)" by simp
  from reach_alloc [OF this] ph i2 have t: "textarea_of w2 = Suc (Suc (next_eid d0))"
    and sty: "\<forall>k. k \<noteq> ''display'' \<longrightarrow> style (nodes (wdom w2) (textarea_of w2)) k = textarea_style k"
    by (simp_all add: alloc_ok_def Let_def textarea_of_def)
  from inv2 rd i2 have "post_render_ok w2" by (simp add: widget_inv_def)
  with pc i2 have bl: "style (nodes (wdom w2) (textarea_of w2)) ''display'' = Some ''block''"
    by (auto simp: post_render_ok_def Let_def split: option.splits)
  have "style (nodes (wdom w2) (textarea_of w2)) = textarea_style(''display'' \<mapsto> ''block'')"
  proof
    fix k show "style (nodes (wdom w2) (textarea_of w2)) k = (textarea_style(''display'' \<mapsto> ''block'')) k"
      using sty bl by (cases "k = ''display''") simp_all
  qed
  with c rt widget_inv_textarea [OF inv2] show ?thesis by blast
qed

theorem panic_restores_textarea_style_witness:
  "\<exists>s. reach demo_page s \<and> phase s = Live \<and> attached (wdom (wld s)) (boss_key (inst (wld s))) \<and>
     (\<exists>w1 w2 t. dispatch_click (boss_key (inst (wld s))) (wld s) = Inr w1 \<and> run_timers w1 = Inr w2 \<and>
           get_element_by_id (wdom w2) serious_id = Some t \<and>
           style (nodes (wdom w2) t) = textarea_style(''display'' \<mapsto> ''block''))"
proof -
  obtain s where "reach demo_page s" "phase s = Live" "attached (wdom (wld s)) (boss_key (inst (wld s)))"
    using demo_revealed by blast
  with panic_restores_textarea_style [of demo_page s] show ?thesis by blast
qed

text \<open>
  C18: what init does to the page. init on an allocated host container raises nothing;
  it appends the textarea and then the wrapper div as the host container's last two
  children, leaves the boss key out of the page, and changes no other element of the
  page.
\<close>

theorem init_page_effect:
  assumes r: "r < next_eid (wdom w)"
  shows "\<exists>w'. init ctx r w = Inr w' \<and>
           children (nodes (wdom w') r) =
             children (nodes (wdom w) r) @ [textarea_of w', container (inst w')] \<and>
           parent (nodes (wdom w') (boss_key (inst w'))) = None \<and>
           (\<forall>y\<in>{..<next_eid (wdom w)}. y \<noteq> r \<longrightarrow> nodes (wdom w') y = nodes (wdom w) y)"
proof -
  from init_succeeds [OF r] obtain w' where i: "init ctx r w = Inr w'" by blast
  note e = init_Inr_nodes [OF r i]
  have "children (nodes (wdom w') r) = children (nodes (wdom w) r) @ [textarea_of w', container (inst w')]"
    "parent (nodes (wdom w') (boss_key (inst w'))) = None"
    "\<forall>y\<in>{..<next_eid (wdom w)}. y \<noteq> r \<longrightarrow> nodes (wdom w') y = nodes (wdom w) y"
    using r by (simp_all add: e textarea_of_def)
  with i show ?thesis by blast
qed

theorem init_page_effect_witness:
  "1 < next_eid (wdom (wld (start demo_page))) \<and>
   (\<exists>w'. init \<lparr>doom_raw = None\<rparr> 1 (wld (start demo_page)) = Inr w' \<and>
           children (nodes (wdom w') 1) =
             children (nodes (wdom (wld (start demo_page))) 1) @ [textarea_of w', container (inst w')] \<and>
           parent (nodes (wdom w') (boss_key (inst w'))) = None \<and>
           (\<forall>y\<in>{..<next_eid (wdom (wld (start demo_page)))}. y \<noteq> 1 \<longrightarrow>
              nodes (wdom w') y = nodes (wdom (wld (start demo_page))) y))"
proof -
  have r: "1 < next_eid (wdom (wld (start demo_page)))" by (simp add: start_def demo_page_def)
  with init_page_effect [OF r, of "\<lparr>doom_raw = None\<rparr>"] show ?thesis by blast
qed

text \<open>
  C19: the entrance animation always completes. In every reachable state in which the
  iframe has been created, running the pending timers to the end leaves it with
  top 0, opacity 1 and the identity transform that the 100 ms callback of
  renderDoomIframe sets, whatever clicks and lifecycle calls came in between.
\<close>

theorem entrance_animation_completes:
  assumes r: "reach d0 s" and f: "doom_iframe (inst (wld s)) = Some f"
  shows "\<exists>w'. run_timers (wld s) = Inr w' \<and> queue (wtimers w') = [] \<and>
           style (nodes (wdom w') f) ''top'' = Some ''0'' \<and>
           style (nodes (wdom w') f) ''opacity'' = Some ''1'' \<and>
           style (nodes (wdom w') f) ''transform'' = Some ''scale(1) rotate(0deg)''"
proof -
  from reach_inv [OF r] f have inv: "widget_inv (wld s)"
    by (auto simp: sys_inv_def split: if_splits)
  from run_timers_drains [OF inv] obtain w' where rt: "run_timers (wld s) = Inr w'"
    and q: "queue (wtimers w') = []" and i: "inst w' = inst (wld s)" by blast
  from run_timers_entrance [OF reach_entrance [OF r] rt] have "entrance_ok w'" .
  with q i f have "entrance_done w' f" by (simp add: entrance_ok_def)
  with rt q show ?thesis by (simp add: entrance_done_def)
qed

theorem entrance_animation_completes_witness:
  "\<exists>s f. reach demo_page s \<and> doom_iframe (inst (wld s)) = Some f \<and>
     (\<exists>w'. run_timers (wld s) = Inr w' \<and> queue (wtimers w') = [] \<and>
           style (nodes (wdom w') f) ''top'' = Some ''0'' \<and>
           style (nodes (wdom w') f) ''opacity'' = Some ''1'' \<and>
           style (nodes (wdom w') f) ''transform'' = Some ''scale(1) rotate(0deg)'')"
proof -
  obtain s where r: "reach demo_page s" and ph: "phase s = Live"
    and a: "attached (wdom (wld s)) (boss_key (inst (wld s)))" using demo_revealed by blast
  from reach_inv [OF r] ph have inv: "widget_inv (wld s)" by (simp add: sys_inv_def)
  with boss_key_attached [OF inv a] obtain f where f: "doom_iframe (inst (wld s)) = Some f"
    by (auto simp: widget_inv_def post_render_ok_def Let_def split: option.splits)
  from entrance_animation_completes [OF r f] r f show ?thesis by blast
qed

text \<open>
  C20: the boss key's listener is registered once. In every reachable state after init
  the boss key has exactly one listener, the click listener init added (line 34), and
  dispatching a click to it runs onBossKeyClick exactly once.
\<close>

theorem boss_key_single_listener:
  assumes r: "reach d0 s" and ph: "phase s \<noteq> Constructed"
  shows "listeners (nodes (wdom (wld s)) (boss_key (inst (wld s)))) = [(''click'', OnBossKeyClick)] \<and>
         dispatch_click (boss_key (inst (wld s))) (wld s) = on_boss_key_click (wld s)"
proof -
  from reach_inv [OF r] ph have "decoy_ok (wld s)" by (simp add: sys_inv_def widget_inv_def)
  moreover have "run_listeners [] = Inr" by (rule ext) simp
  ultimately show ?thesis using decoy_okD(8) by (simp add: dispatch_click_def bindE_Inr_right)
qed

theorem boss_key_single_listener_witness:
  "\<exists>s. reach demo_page s \<and> phase s \<noteq> Constructed \<and>
     listeners (nodes (wdom (wld s)) (boss_key (inst (wld s)))) = [(''click'', OnBossKeyClick)] \<and>
     dispatch_click (boss_key (inst (wld s))) (wld s) = on_boss_key_click (wld s)"
proof -
  obtain s where r: "reach demo_page s" and ph: "phase s = Live" using demo_revealed by blast
  then have "phase s \<noteq> Constructed" by simp
  with boss_key_single_listener [OF r this] r show ?thesis by blast
qed

text \<open>
  C21: the widget leaves the host page alone. In every reachable state after init, every
  element of the page the host built other than the host container is exactly as the
  host left it, and the host container differs only in its child list: its original
  children, then the textarea, then the widget's container while it is in the page.
\<close>

theorem host_page_untouched:
  assumes r: "reach d0 s" and ph: "phase s \<noteq> Constructed"
  shows "(\<forall>y\<in>{..<next_eid d0}. y \<noteq> root_container (inst (wld s)) \<longrightarrow>
              nodes (wdom (wld s)) y = nodes d0 y) \<and>
           nodes (wdom (wld s)) (root_container (inst (wld s))) =
             (nodes d0 (root_container (inst (wld s))))\<lparr>children :=
                children (nodes d0 (root_container (inst (wld s)))) @ textarea_of (wld s) #
                (if parent (nodes (wdom (wld s)) (container (inst (wld s)))) = None then []
                 else [container (inst (wld s))])\<rparr>"
  using reach_host [OF r] ph by (simp add: host_kept_def page_frame_def Let_def)

theorem host_page_untouched_witness:
  "\<exists>s. reach demo_page s \<and> phase s \<noteq> Constructed \<and>
     (\<forall>y\<in>{..<next_eid demo_page}. y \<noteq> root_container (inst (wld s)) \<longrightarrow>
              nodes (wdom (wld s)) y = nodes demo_page y) \<and>
           nodes (wdom (wld s)) (root_container (inst (wld s))) =
             (nodes demo_page (root_container (inst (wld s))))\<lparr>children :=
                children (nodes demo_page (root_container (inst (wld s)))) @ textarea_of (wld s) #
                (if parent (nodes (wdom (wld s)) (container (inst (wld s)))) = None then []
                 else [container (inst (wld s))])\<rparr>"
proof -
  obtain s where r: "reach demo_page s" and ph: "phase s = Live" using demo_dismissed by blast
  then have "phase s \<noteq> Constructed" by simp
  with host_page_untouched [OF r this] r show ?thesis by blast
qed

end
